(* ===== verification/Prelude.thy ===== *)
theory Prelude
  imports Main "HOL-Library.Word" "HOL-Library.Char_ord" "HOL-Library.List_Lexorder"
    "HOL-Library.Sublist"
begin

text \<open>
  Shared vocabulary of the development: results as sums, the machine integers the
  Rust sources use, the fragment of the Rust standard library's string functions they call,
  and the generic lemmas on lists and results that the component theories share.
\<close>

named_theorems result_simps \<open>inversion rules for the result combinators\<close>
named_theorems string_simps \<open>facts on the string functions of the standard library\<close>

section \<open>Results\<close>

text \<open>A Rust \<open>Result<T, E>\<close> is \<open>'e + 'a\<close>: \<open>Inl\<close> is \<open>Err\<close>, \<open>Inr\<close> is \<open>Ok\<close>.\<close>

type_synonym ('a, 'e) result = "'e + 'a"

text \<open>The \<open>?\<close> operator: stop at an error, continue with the value.\<close>

definition and_then :: "('a, 'e) result \<Rightarrow> ('a \<Rightarrow> ('b, 'e) result) \<Rightarrow> ('b, 'e) result" where
  "and_then m f = (case m of Inl e \<Rightarrow> Inl e | Inr a \<Rightarrow> f a)"

text \<open>An \<open>if bad { return Err(e); }\<close> guard, written with the condition that lets it pass.\<close>

definition ensure :: "bool \<Rightarrow> 'e \<Rightarrow> (unit, 'e) result" where
  "ensure c e = (if c then Inr () else Inl e)"

definition ok_or :: "'a option \<Rightarrow> 'e \<Rightarrow> ('a, 'e) result" where
  "ok_or x e = (case x of None \<Rightarrow> Inl e | Some a \<Rightarrow> Inr a)"

definition map_err :: "('e \<Rightarrow> 'f) \<Rightarrow> ('a, 'e) result \<Rightarrow> ('a, 'f) result" where
  "map_err g m = (case m of Inl e \<Rightarrow> Inl (g e) | Inr a \<Rightarrow> Inr a)"

definition is_ok :: "('a, 'e) result \<Rightarrow> bool" where
  "is_ok m = (case m of Inl _ \<Rightarrow> False | Inr _ \<Rightarrow> True)"

text \<open>A \<open>for x in xs { f(x)?; }\<close> loop with an accumulator: it stops at the first error.\<close>

fun fold_result :: "('a \<Rightarrow> 's \<Rightarrow> ('s, 'e) result) \<Rightarrow> 'a list \<Rightarrow> 's \<Rightarrow> ('s, 'e) result" where
  "fold_result f [] s = Inr s"
| "fold_result f (x # xs) s = and_then (f x s) (fold_result f xs)"

text \<open>\<open>iter().map(f).collect::<Result<Vec<_>, _>>()\<close>.\<close>

fun map_result :: "('a \<Rightarrow> ('b, 'e) result) \<Rightarrow> 'a list \<Rightarrow> ('b list, 'e) result" where
  "map_result f [] = Inr []"
| "map_result f (x # xs) =
     and_then (f x) (\<lambda>y. and_then (map_result f xs) (\<lambda>ys. Inr (y # ys)))"

lemma and_then_simps [simp]:
  "and_then (Inl e) f = Inl e"
  "and_then (Inr a) f = f a"
  by (simp_all add: and_then_def)

lemma and_then_eq_Inr [result_simps]:
  "and_then m f = Inr b \<longleftrightarrow> (\<exists>a. m = Inr a \<and> f a = Inr b)"
  by (cases m) auto

lemma and_then_eq_Inl [result_simps]:
  "and_then m f = Inl e \<longleftrightarrow> m = Inl e \<or> (\<exists>a. m = Inr a \<and> f a = Inl e)"
  by (cases m) auto

lemma and_then_assoc: "and_then (and_then m f) g = and_then m (\<lambda>x. and_then (f x) g)"
  by (cases m) auto

lemma ensure_eq_Inr [simp, result_simps]: "ensure c e = Inr u \<longleftrightarrow> c"
  by (simp add: ensure_def)

lemma ensure_eq_Inl [simp, result_simps]: "ensure c e = Inl e' \<longleftrightarrow> \<not> c \<and> e' = e"
  by (auto simp: ensure_def)

lemma ensure_True [simp]: "ensure True e = Inr ()"
  by (simp add: ensure_def)

lemma ensure_False [simp]: "ensure False e = Inl e"
  by (simp add: ensure_def)

lemma ok_or_simps [simp]: "ok_or None e = Inl e" "ok_or (Some a) e = Inr a"
  by (simp_all add: ok_or_def)

lemma ok_or_eq_Inr [result_simps]: "ok_or x e = Inr a \<longleftrightarrow> x = Some a"
  by (cases x) auto

lemma ok_or_eq_Inl [result_simps]: "ok_or x e = Inl e' \<longleftrightarrow> x = None \<and> e' = e"
  by (cases x) auto

lemma map_err_simps [simp]: "map_err g (Inl e) = Inl (g e)" "map_err g (Inr a) = Inr a"
  by (simp_all add: map_err_def)

lemma map_err_eq_Inr [result_simps]: "map_err g m = Inr a \<longleftrightarrow> m = Inr a"
  by (cases m) auto

lemma map_err_eq_Inl [result_simps]: "map_err g m = Inl e \<longleftrightarrow> (\<exists>e'. m = Inl e' \<and> e = g e')"
  by (cases m) auto

lemma is_ok_simps [simp]: "is_ok (Inr a)" "\<not> is_ok (Inl e)"
  by (simp_all add: is_ok_def)

lemma is_ok_iff: "is_ok m \<longleftrightarrow> (\<exists>a. m = Inr a)"
  by (cases m) auto

lemma fold_result_append:
  "fold_result f (xs @ ys) s = and_then (fold_result f xs s) (fold_result f ys)"
proof (induction xs arbitrary: s)
  case Nil
  then show ?case by simp
next
  case (Cons x xs)
  then show ?case by (cases "f x s") simp_all
qed

text \<open>A loop keeps what each of its steps keeps.\<close>

lemma fold_result_invariant:
  assumes "fold_result f xs s = Inr t" and "P s"
    and "\<And>x u v. x \<in> set xs \<Longrightarrow> P u \<Longrightarrow> f x u = Inr v \<Longrightarrow> P v"
  shows "P t"
  using assms
proof (induction xs arbitrary: s)
  case Nil
  then show ?case by simp
next
  case (Cons x xs)
  from Cons.prems(1) obtain u where u: "f x s = Inr u" "fold_result f xs u = Inr t"
    by (auto simp: and_then_eq_Inr)
  from Cons.prems(2,3) u(1) have "P u" by auto
  with u(2) Cons.IH Cons.prems(3) show ?case by (metis list.set_intros(2))
qed

text \<open>A checking loop (no state) passes exactly when every element passes.\<close>

lemma fold_result_check:
  "fold_result (\<lambda>x _. f x) xs () = Inr () \<longleftrightarrow> (\<forall>x\<in>set xs. f x = Inr ())"
  by (induction xs) (auto simp: and_then_eq_Inr)

lemma fold_result_check_ok:
  "is_ok (fold_result (\<lambda>x _. f x) xs ()) \<longleftrightarrow> (\<forall>x\<in>set xs. is_ok (f x))"
  for f :: "'a \<Rightarrow> (unit, 'e) result"
  using fold_result_check [of f xs] by (auto simp: is_ok_iff)

lemma map_result_eq_Inr:
  "map_result f xs = Inr ys \<longleftrightarrow> length ys = length xs \<and> (\<forall>i<length xs. f (xs ! i) = Inr (ys ! i))"
proof (induction xs arbitrary: ys)
  case Nil
  then show ?case by auto
next
  case (Cons x xs)
  show ?case
    by (cases ys) (auto simp: and_then_eq_Inr Cons.IH less_Suc_eq_0_disj)
qed

section \<open>Machine integers\<close>

type_synonym u32 = "32 word"
type_synonym u64 = "64 word"
type_synonym u128 = "128 word"

text \<open>
  \<open>i64\<close> and \<open>i32\<close> values are only compared and converted in the modelled code, never added, so
  they are \<open>int\<close> with the conversions written out.
\<close>

definition i64_max :: int where "i64_max = 2 ^ 63 - 1"

text \<open>\<open>u64::try_from(v)\<close> for an \<open>i64\<close>, and \<open>i64::try_from(v).unwrap_or(i64::MAX)\<close> for a \<open>u64\<close>.\<close>

definition u64_try_from :: "int \<Rightarrow> u64 option" where
  "u64_try_from v = (if v < 0 then None else Some (word_of_int v))"

definition i64_saturating :: "u64 \<Rightarrow> int" where
  "i64_saturating w = (if uint w \<le> i64_max then uint w else i64_max)"

definition u64_or_zero :: "int \<Rightarrow> u64" where
  "u64_or_zero v = (case u64_try_from v of None \<Rightarrow> 0 | Some w \<Rightarrow> w)"

definition i64_range :: "int \<Rightarrow> bool" where
  "i64_range v \<longleftrightarrow> - (2 ^ 63) \<le> v \<and> v \<le> i64_max"

lemma u64_or_zero_i64_saturating:
  assumes "uint w \<le> i64_max"
  shows "u64_or_zero (i64_saturating w) = w"
  using assms uint_ge_0 [of w] by (simp add: u64_or_zero_def i64_saturating_def u64_try_from_def)

lemma i64_saturating_range: "0 \<le> i64_saturating w \<and> i64_saturating w \<le> i64_max"
  by (simp add: i64_saturating_def i64_max_def)

lemma i64_saturating_mono: "a \<le> b \<Longrightarrow> i64_saturating a \<le> i64_saturating b"
  by (simp add: i64_saturating_def word_le_def)

lemma uint_u64_try_from:
  assumes "i64_range v" "u64_try_from v = Some w"
  shows "uint w = v"
  using assms by (auto simp: u64_try_from_def i64_range_def i64_max_def uint_word_of_int
      take_bit_int_eq_self split: if_splits)

lemma word_less_imp_Suc_le:
  fixes a b :: "'a::len word"
  assumes "a < b"
  shows "unat (a + 1) = Suc (unat a)"
proof -
  have "unat b < 2 ^ LENGTH('a)" by (rule unsigned_less)
  moreover have "unat a < unat b" using assms by (simp add: word_less_nat_alt)
  ultimately have "Suc (unat a) < 2 ^ LENGTH('a)" by linarith
  then show ?thesis by (simp add: unat_word_ariths)
qed

lemma word_less_inc_le: "(a::'a::len word) < b \<Longrightarrow> a + 1 \<le> b"
  by (simp add: word_le_nat_alt word_less_imp_Suc_le word_less_nat_alt Suc_leI)

section \<open>Strings\<close>

text \<open>\<open>str::strip_prefix\<close>.\<close>

fun strip_prefix :: "string \<Rightarrow> string \<Rightarrow> string option" where
  "strip_prefix s [] = Some s"
| "strip_prefix [] (_ # _) = None"
| "strip_prefix (c # s) (p # ps) = (if c = p then strip_prefix s ps else None)"

lemma strip_prefix_eq [string_simps]: "strip_prefix s p = Some r \<longleftrightarrow> s = p @ r"
  by (induction s p rule: strip_prefix.induct) auto

lemma strip_prefix_append [simp]: "strip_prefix (p @ r) p = Some r"
  by (simp add: strip_prefix_eq)

text \<open>\<open>str::split(c)\<close>: always at least one piece.\<close>

fun split_on :: "char \<Rightarrow> string \<Rightarrow> string list" where
  "split_on c [] = [[]]"
| "split_on c (x # xs) =
     (if x = c then [] # split_on c xs
      else case split_on c xs of [] \<Rightarrow> [[x]] | p # ps \<Rightarrow> (x # p) # ps)"

lemma split_on_nonempty [simp]: "split_on c s \<noteq> []"
  by (induction s) (auto split: list.splits)

lemma split_on_no_sep: "c \<notin> set s \<Longrightarrow> split_on c s = [s]"
  by (induction s) auto

lemma split_on_append:
  "c \<notin> set p \<Longrightarrow> split_on c (p @ c # r) = p # split_on c r"
  by (induction p) (auto split: list.splits)

text \<open>\<open>[T]::join\<close> on strings.\<close>

fun join_with :: "string \<Rightarrow> string list \<Rightarrow> string" where
  "join_with sep [] = []"
| "join_with sep [x] = x"
| "join_with sep (x # y # ys) = x @ sep @ join_with sep (y # ys)"

lemma join_split [simp]: "join_with [c] (split_on c s) = s"
proof (induction s)
  case (Cons x s)
  show ?case
  proof (cases "x = c")
    case True
    with Cons show ?thesis by (cases "split_on c s") auto
  next
    case False
    with Cons show ?thesis by (cases "split_on c s"; cases "tl (split_on c s)") auto
  qed
qed simp

section \<open>Decimal numerals\<close>

definition is_digit :: "char \<Rightarrow> bool" where
  "is_digit c \<longleftrightarrow> 48 \<le> (of_char c :: nat) \<and> (of_char c :: nat) \<le> 57"

definition digit_char :: "nat \<Rightarrow> char" where
  "digit_char d = char_of (48 + d)"

definition digit_val :: "char \<Rightarrow> nat" where
  "digit_val c = of_char c - 48"

text \<open>\<open>Display\<close> of an unsigned integer.\<close>

fun show_nat :: "nat \<Rightarrow> string" where
  "show_nat n = (if n < 10 then [digit_char n] else show_nat (n div 10) @ [digit_char (n mod 10)])"

declare show_nat.simps [simp del]

definition show_int :: "int \<Rightarrow> string" where
  "show_int v = (if v < 0 then CHR ''-'' # show_nat (nat (- v)) else show_nat (nat v))"

text \<open>\<open>{:04}\<close>: the numeral, zero-padded on the left to the given width.\<close>

definition pad_zero :: "nat \<Rightarrow> string \<Rightarrow> string" where
  "pad_zero w s = replicate (w - length s) CHR ''0'' @ s"

text \<open>
  \<open>str::parse\<close> for an unsigned integer type: a non-empty run of digits after an optional \<open>+\<close>;
  any other character, an empty string, a lone sign and a value above the maximum are errors.
\<close>

definition digits_val :: "string \<Rightarrow> nat" where
  "digits_val s = foldl (\<lambda>a c. 10 * a + digit_val c) 0 s"

definition parse_unsigned :: "nat \<Rightarrow> string \<Rightarrow> nat option" where
  "parse_unsigned mx s =
     (let ds = (case s of c # r \<Rightarrow> if c = CHR ''+'' then r else s | [] \<Rightarrow> [])
      in if ds \<noteq> [] \<and> list_all is_digit ds \<and> digits_val ds \<le> mx then Some (digits_val ds) else None)"

definition parse_u32 :: "string \<Rightarrow> u32 option" where
  "parse_u32 s = map_option of_nat (parse_unsigned (2 ^ 32 - 1) s)"

lemma of_char_digit [simp]: "d < 10 \<Longrightarrow> (of_char (digit_char d) :: nat) = 48 + d"
  by (simp add: digit_char_def)

lemma is_digit_digit_char [simp]: "d < 10 \<Longrightarrow> is_digit (digit_char d)"
  by (simp add: is_digit_def)

lemma digit_val_digit_char [simp]: "d < 10 \<Longrightarrow> digit_val (digit_char d) = d"
  by (simp add: digit_val_def)

lemma show_nat_digits: "list_all is_digit (show_nat n)"
  by (induction n rule: show_nat.induct) (subst show_nat.simps, auto)

lemma show_nat_nonempty [simp]: "show_nat n \<noteq> []"
  by (subst show_nat.simps) simp

lemma digits_val_snoc: "digits_val (s @ [c]) = 10 * digits_val s + digit_val c"
  by (simp add: digits_val_def)

lemma digits_val_show_nat [simp]: "digits_val (show_nat n) = n"
proof (induction n rule: show_nat.induct)
  case (1 n)
  show ?case
  proof (cases "n < 10")
    case True
    then show ?thesis by (subst show_nat.simps) (simp add: digits_val_def)
  next
    case False
    with 1 have "digits_val (show_nat (n div 10)) = n div 10" by simp
    with False show ?thesis by (subst show_nat.simps) (simp add: digits_val_snoc)
  qed
qed

lemma digits_val_zeros: "digits_val (replicate k CHR ''0'' @ s) = digits_val s"
proof -
  have "foldl (\<lambda>a c. 10 * a + digit_val c) 0 (replicate k CHR ''0'') = 0"
    by (induction k) (simp_all add: digit_val_def)
  then show ?thesis by (simp add: digits_val_def)
qed

lemma is_digit_not_plus: "is_digit c \<Longrightarrow> c \<noteq> CHR ''+''"
  by (auto simp: is_digit_def)

lemma digits_not_plus: "list_all is_digit s \<Longrightarrow> (case s of c # r \<Rightarrow> if c = CHR ''+'' then r else s | [] \<Rightarrow> []) = s"
  by (cases s) (auto dest: is_digit_not_plus)

lemma parse_unsigned_digits:
  "list_all is_digit s \<Longrightarrow> s \<noteq> [] \<Longrightarrow> digits_val s \<le> mx \<Longrightarrow> parse_unsigned mx s = Some (digits_val s)"
  by (simp add: parse_unsigned_def digits_not_plus)

lemma parse_unsigned_show_nat:
  "n \<le> mx \<Longrightarrow> parse_unsigned mx (show_nat n) = Some n"
  by (simp add: parse_unsigned_digits show_nat_digits)

lemma parse_unsigned_pad_zero:
  "n \<le> mx \<Longrightarrow> parse_unsigned mx (pad_zero w (show_nat n)) = Some n"
proof -
  assume n: "n \<le> mx"
  have d: "list_all is_digit (pad_zero w (show_nat n))"
    using show_nat_digits [of n]
    by (auto simp: pad_zero_def list_all_iff is_digit_def)
  have v: "digits_val (pad_zero w (show_nat n)) = n"
    by (simp add: pad_zero_def digits_val_zeros)
  show ?thesis using parse_unsigned_digits [OF d] n v by (simp add: pad_zero_def)
qed

lemma unat_u32_le: "unat (w::u32) \<le> 2 ^ 32 - 1"
  using unsigned_less [of w, where 'a = nat] by simp

lemma parse_u32_show_u32: "parse_u32 (show_nat (unat w)) = Some w"
  using parse_unsigned_show_nat [OF unat_u32_le [of w]] by (simp add: parse_u32_def)

lemma parse_u32_pad_zero: "parse_u32 (pad_zero k (show_nat (unat w))) = Some w"
  using parse_unsigned_pad_zero [OF unat_u32_le [of w], of k] by (simp add: parse_u32_def)

lemma show_nat_inject [simp]: "show_nat m = show_nat n \<longleftrightarrow> m = n"
  by (metis digits_val_show_nat)

lemma digits_notin: "list_all is_digit s \<Longrightarrow> \<not> is_digit c \<Longrightarrow> c \<notin> set s"
  by (auto simp: list_all_iff)

lemma show_int_chars:
  "\<not> is_digit c \<Longrightarrow> c \<noteq> CHR ''-'' \<Longrightarrow> c \<notin> set (show_int v)"
  by (simp add: show_int_def digits_notin [OF show_nat_digits])

lemma show_int_inject [simp]: "show_int v = show_int w \<longleftrightarrow> v = w"
proof -
  have "CHR ''-'' \<notin> set (show_nat n)" for n
    by (rule digits_notin [OF show_nat_digits]) (simp add: is_digit_def)
  then have "CHR ''-'' # show_nat m \<noteq> show_nat n" for m n by (metis list.set_intros(1))
  from this [symmetric] this show ?thesis by (auto simp: show_int_def)
qed

lemma dot_notin_show_nat [simp]: "CHR ''.'' \<notin> set (show_nat n)"
  using show_nat_digits [of n] by (auto simp: list_all_iff is_digit_def)

section \<open>Lists\<close>

lemma foldl_invariant: "(\<And>s x. f (g s x) = f s) \<Longrightarrow> f (foldl g s xs) = f s"
  by (induction xs arbitrary: s) auto

text \<open>\<open>Iterator::find\<close>.\<close>

lemma find_SomeD: "List.find P xs = Some x \<Longrightarrow> x \<in> set xs \<and> P x"
  by (auto simp: find_Some_iff)

lemma filter_eq_ConsD:
  assumes "filter P xs = y # ys"
  shows "y \<in> set xs \<and> P y"
proof -
  have "y \<in> set (filter P xs)" by (simp add: assms)
  then show ?thesis by simp
qed

section \<open>Evaluation\<close>

text \<open>Integers evaluate in binary, natural numbers in unary: the parsers are evaluated on integers.\<close>

definition digits_int :: "string \<Rightarrow> int" where
  "digits_int s = foldl (\<lambda>a c. 10 * a + int (digit_val c)) 0 s"

lemma digits_int_val: "digits_int s = int (digits_val s)"
proof -
  have "foldl (\<lambda>a c. 10 * a + int (digit_val c)) (int n) s = int (foldl (\<lambda>a c. 10 * a + digit_val c) n s)" for n
  proof (induction s arbitrary: n)
    case (Cons c s)
    show ?case using Cons.IH [of "10 * n + digit_val c"] by simp
  qed simp
  from this [of 0] show ?thesis by (simp add: digits_int_def digits_val_def)
qed

lemma parse_u32_code [code]:
  "parse_u32 s =
     (let ds = (case s of c # r \<Rightarrow> if c = CHR ''+'' then r else s | [] \<Rightarrow> [])
      in if ds \<noteq> [] \<and> list_all is_digit ds \<and> digits_int ds \<le> 4294967295
         then Some (word_of_int (digits_int ds)) else None)"
  by (simp add: parse_u32_def parse_unsigned_def Let_def digits_int_val)

end
