(* ===== verification/Ordered_Map.thy ===== *)
theory Ordered_Map
  imports Prelude "HOL-Library.Multiset"
begin

text \<open>
  The standard library's \<open>BTreeMap\<close> as the code uses it: entries in ascending key order, lookup,
  insertion, iteration in key order and structural equality.  A map is the list of its entries; the
  invariant \<open>bt_ok\<close> is what \<open>BTreeMap\<close> guarantees.  The interface the clients rely on is the locale
  \<open>key_value_map\<close>, extended to \<open>canonical_map\<close> (equal lookups give equal maps), and both are
  interpreted on the functions defined here.
\<close>

section \<open>The map and its operations\<close>

type_synonym ('k, 'v) btree = "('k \<times> 'v) list"

definition bt_ok :: "('k::linorder, 'v) btree \<Rightarrow> bool" where
  "bt_ok m \<longleftrightarrow> sorted_wrt (<) (map fst m)"

definition bt_get :: "('k, 'v) btree \<Rightarrow> 'k \<Rightarrow> 'v option" where
  "bt_get m k = map_of m k"

fun bt_insert :: "'k::linorder \<Rightarrow> 'v \<Rightarrow> ('k, 'v) btree \<Rightarrow> ('k, 'v) btree" where
  "bt_insert k v [] = [(k, v)]"
| "bt_insert k v ((k', v') # m) =
     (if k < k' then (k, v) # (k', v') # m
      else if k = k' then (k, v) # m
      else (k', v') # bt_insert k v m)"

text \<open>\<open>FromIterator\<close> / repeated insertion: a later entry replaces an earlier one.\<close>

definition bt_of_list :: "('k::linorder \<times> 'v) list \<Rightarrow> ('k, 'v) btree" where
  "bt_of_list xs = foldl (\<lambda>m (k, v). bt_insert k v m) [] xs"

section \<open>The interface\<close>

locale key_value_map =
  fixes empty :: 'm
    and get :: "'m \<Rightarrow> 'k \<Rightarrow> 'v option"
    and insert :: "'k \<Rightarrow> 'v \<Rightarrow> 'm \<Rightarrow> 'm"
    and invar :: "'m \<Rightarrow> bool"
  assumes get_empty: "get empty k = None"
    and invar_empty: "invar empty"
    and get_insert: "invar m \<Longrightarrow> get (insert k v m) = (get m)(k := Some v)"
    and invar_insert: "invar m \<Longrightarrow> invar (insert k v m)"
begin

definition of_list :: "('k \<times> 'v) list \<Rightarrow> 'm" where
  "of_list xs = foldl (\<lambda>m (k, v). insert k v m) empty xs"

lemma invar_foldl: "invar m \<Longrightarrow> invar (foldl (\<lambda>m (k, v). insert k v m) m xs)"
  by (induction xs arbitrary: m) (auto simp: invar_insert)

lemma get_foldl:
  "invar m \<Longrightarrow> get (foldl (\<lambda>m (k, v). insert k v m) m xs) = get m ++ map_of (rev xs)"
  by (induction xs arbitrary: m) (auto simp: get_insert invar_insert map_add_def fun_eq_iff split: option.splits)

lemma invar_of_list: "invar (of_list xs)"
  by (simp add: of_list_def invar_foldl invar_empty)

lemma get_of_list: "get (of_list xs) = map_of (rev xs)"
  by (simp add: of_list_def get_foldl invar_empty get_empty map_add_def fun_eq_iff split: option.splits)

lemma get_of_list_distinct:
  assumes "distinct (map fst xs)"
  shows "get (of_list xs) = map_of xs"
proof -
  have "map_of (rev xs) = map_of xs"
    using assms map_of_inject_set [of "rev xs" xs] by (simp add: rev_map [symmetric])
  then show ?thesis by (simp add: get_of_list)
qed

end

locale canonical_map = key_value_map +
  assumes extensional: "invar m \<Longrightarrow> invar n \<Longrightarrow> get m = get n \<Longrightarrow> m = n"
begin

text \<open>Insertion order is immaterial.\<close>

lemma insert_commute:
  "invar m \<Longrightarrow> k \<noteq> l \<Longrightarrow> insert k v (insert l w m) = insert l w (insert k v m)"
  by (intro extensional) (auto simp: invar_insert get_insert fun_upd_twist)

lemma insert_idem: "invar m \<Longrightarrow> get m k = Some v \<Longrightarrow> insert k v m = m"
  by (intro extensional) (auto simp: invar_insert get_insert)

lemma of_list_permute:
  assumes "distinct (map fst xs)" "mset xs = mset ys"
  shows "of_list xs = of_list ys"
proof (rule extensional)
  have d: "distinct (map fst ys)"
    using assms by (metis mset_map mset_eq_imp_distinct_iff)
  have "map_of xs = map_of ys"
    using map_of_inject_set [OF assms(1) d] mset_eq_setD [OF assms(2)] by simp
  then show "get (of_list xs) = get (of_list ys)"
    using assms(1) d by (simp add: get_of_list_distinct)
qed (rule invar_of_list)+

end

section \<open>The laws for the model of BTreeMap\<close>

lemma bt_ok_Nil [simp]: "bt_ok []"
  by (simp add: bt_ok_def)

lemma bt_ok_Cons: "bt_ok ((k, v) # m) \<longleftrightarrow> (\<forall>x\<in>set (map fst m). k < x) \<and> bt_ok m"
  by (auto simp: bt_ok_def)

lemma fst_set_bt_insert: "fst ` set (bt_insert k v m) = insert k (fst ` set m)"
  by (induction k v m rule: bt_insert.induct) (auto simp: image_iff)

lemma bt_ok_insert: "bt_ok m \<Longrightarrow> bt_ok (bt_insert k v m)"
  by (induction k v m rule: bt_insert.induct) (auto simp: bt_ok_Cons fst_set_bt_insert)

lemma bt_insert_not_Nil [simp]: "bt_insert k v m \<noteq> []"
  by (cases "(k, v, m)" rule: bt_insert.cases) auto

lemma bt_ok_get_None: "bt_ok ((k, v) # m) \<Longrightarrow> x \<le> k \<Longrightarrow> map_of m x = None"
  by (auto simp: bt_ok_Cons map_of_eq_None_iff)

lemma bt_get_insert: "bt_ok m \<Longrightarrow> bt_get (bt_insert k v m) = (bt_get m)(k := Some v)"
  by (induction k v m rule: bt_insert.induct)
    (auto simp: bt_get_def fun_eq_iff bt_ok_Cons)

lemma bt_ok_distinct: "bt_ok m \<Longrightarrow> distinct (map fst m)"
  by (simp add: bt_ok_def strict_sorted_iff)

lemma bt_extensional:
  assumes "bt_ok m" "bt_ok n" "bt_get m = bt_get n"
  shows "m = n"
proof -
  have m: "map_of m = map_of n"
    using assms(3) by (simp add: bt_get_def fun_eq_iff)
  have "set m = set n"
    using m map_of_inject_set [OF bt_ok_distinct [OF assms(1)] bt_ok_distinct [OF assms(2)]]
    by simp
  moreover have "sorted (map fst m)" "sorted (map fst n)"
    using assms(1,2) by (simp_all add: bt_ok_def strict_sorted_iff)
  ultimately show ?thesis
    using bt_ok_distinct [OF assms(1)] bt_ok_distinct [OF assms(2)]
    by (intro map_sorted_distinct_set_unique [of fst]) (auto simp: distinct_map)
qed

interpretation bt: canonical_map "[]" bt_get bt_insert bt_ok
  by unfold_locales (auto simp: bt_get_insert bt_ok_insert bt_extensional, simp add: bt_get_def)

lemma bt_of_list_eq: "bt_of_list = bt.of_list"
  by (simp add: bt_of_list_def bt.of_list_def fun_eq_iff)

lemmas bt_of_list_ok = bt.invar_of_list [folded bt_of_list_eq]
lemmas bt_get_of_list = bt.get_of_list [folded bt_of_list_eq]
lemmas bt_of_list_permute = bt.of_list_permute [folded bt_of_list_eq]

text \<open>A list that is already in ascending key order is its own map.\<close>

lemma bt_of_list_sorted:
  assumes "bt_ok m"
  shows "bt_of_list m = m"
proof (rule bt_extensional)
  have "bt_get (bt_of_list m) = map_of (rev m)"
    by (rule bt_get_of_list)
  also have "\<dots> = map_of m"
    using bt.get_of_list_distinct [OF bt_ok_distinct [OF assms]] bt.get_of_list by metis
  finally show "bt_get (bt_of_list m) = bt_get m" by (simp add: bt_get_def fun_eq_iff)
qed (use assms bt_of_list_ok in auto)

lemma sort_key_bt_ok:
  "distinct (map fst xs) \<Longrightarrow> bt_ok (sort_key fst xs)"
  by (simp add: bt_ok_def strict_sorted_iff distinct_map)

end
