(* ===== verification/Json.thy ===== *)
theory Json
  imports Ordered_Map
begin

unbundle bit_operations_syntax

text \<open>
  JSON values as \<open>serde_json::Value\<close> has them, for the contract crate's canonical encoding and the
  rows an incremental package carries.  A number is a \<open>u64\<close>, a negative \<open>i64\<close> or the bit pattern of
  an \<open>f64\<close>; an object is the list of its entries in the order of the map that backs it, with
  distinct keys.
\<close>

datatype json_number = PosInt u64 | NegInt int | Float u64

datatype json =
    JNull
  | JBool bool
  | JNumber json_number
  | JString string
  | JArray "json list"
  | JObject "(string \<times> json) list"

text \<open>\<open>Number::as_f64().is_some_and(|f| !f.is_finite())\<close>: the exponent field is all ones.\<close>

fun non_finite :: "json_number \<Rightarrow> bool" where
  "non_finite (PosInt _) = False"
| "non_finite (NegInt _) = False"
| "non_finite (Float b) = (drop_bit 52 b AND 0x7FF = 0x7FF)"

text \<open>Every object of the value has distinct keys, as a map has.\<close>

fun json_ok :: "json \<Rightarrow> bool" where
  "json_ok (JArray vs) = list_all json_ok vs"
| "json_ok (JObject m) = (distinct (map fst m) \<and> list_all (\<lambda>(k, v). json_ok v) m)"
| "json_ok _ = True"

text \<open>
  Two values are the same logical value: equal up to the order of the entries of their objects.
\<close>

inductive json_equiv :: "json \<Rightarrow> json \<Rightarrow> bool" where
  null: "json_equiv JNull JNull"
| bool: "json_equiv (JBool b) (JBool b)"
| number: "json_equiv (JNumber n) (JNumber n)"
| string: "json_equiv (JString s) (JString s)"
| array: "list_all2 json_equiv vs ws \<Longrightarrow> json_equiv (JArray vs) (JArray ws)"
| object: "(\<forall>k. rel_option json_equiv (map_of m k) (map_of n k)) \<Longrightarrow>
    json_equiv (JObject m) (JObject n)"

inductive_cases json_equiv_arrayE: "json_equiv (JArray vs) w"
inductive_cases json_equiv_objectE: "json_equiv (JObject m) w"

inductive_simps json_equiv_simps [simp]:
  "json_equiv JNull w"
  "json_equiv (JBool b) w"
  "json_equiv (JNumber n) w"
  "json_equiv (JString s) w"

text \<open>\<open>Value::get\<close> on an object, \<open>Value::as_str\<close>.\<close>

fun json_field :: "string \<Rightarrow> json \<Rightarrow> json option" where
  "json_field k (JObject m) = map_of m k"
| "json_field k _ = None"

fun json_as_str :: "json \<Rightarrow> string option" where
  "json_as_str (JString s) = Some s"
| "json_as_str _ = None"

text \<open>\<open>serde_json::to_value\<close> of a \<open>BTreeMap<String, String>\<close>.\<close>

definition json_of_string_map :: "(string, string) btree \<Rightarrow> json" where
  "json_of_string_map m = JObject (map (\<lambda>(k, v). (k, JString v)) m)"

lemma json_of_string_map_inject [simp]:
  "json_of_string_map m = json_of_string_map n \<longleftrightarrow> m = n"
proof -
  have "inj (\<lambda>(k, v). (k, JString v))" by (auto simp: inj_def)
  from inj_map_eq_map [OF this, of m n] show ?thesis by (simp add: json_of_string_map_def)
qed

lemma map_result_cong [fundef_cong]:
  "xs = ys \<Longrightarrow> (\<And>y. y \<in> set ys \<Longrightarrow> f y = g y) \<Longrightarrow> map_result f xs = map_result g ys"
proof (induction xs arbitrary: ys)
  case Nil
  then show ?case by simp
next
  case (Cons x xs)
  then show ?case by (cases ys) auto
qed

lemma json_size_entry:
  "(k, v) \<in> set m \<Longrightarrow> size v < Suc (size_list (size_prod (\<lambda>_. 0) size) m)"
  by (induction m) auto

end
