(* ===== verification/Canonical.thy ===== *)
theory Canonical
  imports Json
begin

text \<open>
  \<open>jurisearch-package/src/canonical.rs\<close>: the sorted-key canonical form that signatures and digests are
  computed over, the digest format, the streaming digest \<open>tee_digest\<close> and the \<open>HashingWriter\<close>.
  The compact printer of \<open>serde_json\<close> and SHA-256 are not part of the repository: they are the
  parameters \<open>print\<close> and \<open>sha256\<close>.
\<close>

section \<open>Canonical JSON\<close>

datatype canonical_error = Serialize | NonFiniteNumber

text \<open>
  \<open>serde_json::Map::insert\<close> under the feature \<open>preserve_order\<close>: in place for a known key, else at the
  end.  Without the feature the map is a \<open>BTreeMap\<close>, whose insertion is \<open>bt_insert\<close>.
\<close>

fun preserve_insert :: "string \<Rightarrow> json \<Rightarrow> (string \<times> json) list \<Rightarrow> (string \<times> json) list" where
  "preserve_insert k v [] = [(k, v)]"
| "preserve_insert k v ((k', v') # m) =
     (if k = k' then (k, v) # m else (k', v') # preserve_insert k v m)"

type_synonym map_backing = "string \<Rightarrow> json \<Rightarrow> (string \<times> json) list \<Rightarrow> (string \<times> json) list"

definition entries_into :: "map_backing \<Rightarrow> (string \<times> json) list \<Rightarrow> (string \<times> json) list" where
  "entries_into ins es = foldl (\<lambda>m (k, v). ins k v m) [] es"

fun canonicalize :: "map_backing \<Rightarrow> json \<Rightarrow> (json, canonical_error) result" where
  "canonicalize ins (JObject m) =
     and_then
       (map_result (\<lambda>(k, child). and_then (canonicalize ins child) (\<lambda>c. Inr (k, c))) (sort_key fst m))
       (\<lambda>es. Inr (JObject (entries_into ins es)))"
| "canonicalize ins (JArray items) =
     and_then (map_result (canonicalize ins) items) (\<lambda>vs. Inr (JArray vs))"
| "canonicalize ins (JNumber n) = (if non_finite n then Inl NonFiniteNumber else Inr (JNumber n))"
| "canonicalize ins JNull = Inr JNull"
| "canonicalize ins (JBool b) = Inr (JBool b)"
| "canonicalize ins (JString s) = Inr (JString s)"

text \<open>\<open>canonical_bytes\<close>: canonicalise, then print compactly.\<close>

definition canonical_bytes ::
  "(json \<Rightarrow> string) \<Rightarrow> map_backing \<Rightarrow> json \<Rightarrow> (string, canonical_error) result" where
  "canonical_bytes print ins v = and_then (canonicalize ins v) (\<lambda>c. Inr (print c))"

section \<open>Digests\<close>

definition hex_digit :: "nat \<Rightarrow> char" where
  "hex_digit d = (if d < 10 then char_of (48 + d) else char_of (87 + d))"

definition hex_byte :: "char \<Rightarrow> string" where
  "hex_byte b = [hex_digit (of_char b div 16), hex_digit (of_char b mod 16)]"

definition format_sha256 :: "string \<Rightarrow> string" where
  "format_sha256 hash = ''sha256:'' @ concat (map hex_byte hash)"

definition digest_bytes :: "(string \<Rightarrow> string) \<Rightarrow> string \<Rightarrow> string" where
  "digest_bytes sha256 bytes = format_sha256 (sha256 bytes)"

definition canonical_digest ::
  "(string \<Rightarrow> string) \<Rightarrow> (json \<Rightarrow> string) \<Rightarrow> map_backing \<Rightarrow> json \<Rightarrow> (string, canonical_error) result" where
  "canonical_digest sha256 print ins v =
     and_then (canonical_bytes print ins v) (\<lambda>b. Inr (digest_bytes sha256 b))"

text \<open>
  The incremental hasher: its state is the bytes fed so far, and \<open>finalize\<close> hashes them.
\<close>

datatype io_error = ReadFailed | WriteFailed | WriteZero

text \<open>
  \<open>tee_digest\<close> reads until a read returns no bytes.  The reader is the list of its read results, the
  writer a state with its \<open>write_all\<close>.
\<close>

fun tee_loop ::
  "('w \<Rightarrow> string \<Rightarrow> ('w, io_error) result) \<Rightarrow> string \<Rightarrow> 'w \<Rightarrow> (string, io_error) result list
    \<Rightarrow> (string \<times> 'w, io_error) result" where
  "tee_loop write_all hasher w [] = Inr (hasher, w)"
| "tee_loop write_all hasher w (r # rs) =
     and_then r (\<lambda>buf. if buf = [] then Inr (hasher, w)
       else and_then (write_all w buf) (\<lambda>w'. tee_loop write_all (hasher @ buf) w' rs))"

definition tee_digest ::
  "(string \<Rightarrow> string) \<Rightarrow> ('w \<Rightarrow> string \<Rightarrow> ('w, io_error) result) \<Rightarrow> 'w
    \<Rightarrow> (string, io_error) result list \<Rightarrow> (string \<times> 'w, io_error) result" where
  "tee_digest sha256 write_all w rs =
     and_then (tee_loop write_all [] w rs) (\<lambda>(h, w'). Inr (format_sha256 (sha256 h), w'))"

text \<open>
  \<open>HashingWriter\<close>: the inner writer and the hasher.  A \<open>write\<close> returns the writer's next state with
  the number of bytes accepted or an error; the hasher takes the accepted prefix only.
\<close>

record 'w hashing_writer =
  hw_inner :: 'w
  hw_hasher :: string

type_synonym 'w write_fn = "'w \<Rightarrow> string \<Rightarrow> 'w \<times> (nat, io_error) result"

definition hashing_new :: "'w \<Rightarrow> 'w hashing_writer" where
  "hashing_new w = \<lparr>hw_inner = w, hw_hasher = []\<rparr>"

definition hashing_write :: "'w write_fn \<Rightarrow> 'w hashing_writer write_fn" where
  "hashing_write write hw buf =
     (case write (hw_inner hw) buf of
        (w', Inl e) \<Rightarrow> (hw\<lparr>hw_inner := w'\<rparr>, Inl e)
      | (w', Inr n) \<Rightarrow> (hw\<lparr>hw_inner := w', hw_hasher := hw_hasher hw @ take n buf\<rparr>, Inr n))"

definition hashing_finalize :: "(string \<Rightarrow> string) \<Rightarrow> 'w hashing_writer \<Rightarrow> string" where
  "hashing_finalize sha256 hw = format_sha256 (sha256 (hw_hasher hw))"

text \<open>
  \<open>Write::write_all\<close> of the standard library over any \<open>write\<close>: repeat until the buffer is gone, and
  fail when a write accepts nothing.  The writer's state is kept on failure, since the bytes are out.
\<close>

function write_all_with :: "'w write_fn \<Rightarrow> 'w \<Rightarrow> string \<Rightarrow> 'w \<times> (unit, io_error) result" where
  "write_all_with write w buf =
     (if buf = [] then (w, Inr ())
      else case write w buf of
          (w', Inl e) \<Rightarrow> (w', Inl e)
        | (w', Inr n) \<Rightarrow> if n = 0 then (w', Inl WriteZero) else write_all_with write w' (drop n buf))"
  by pat_completeness auto
termination
  by (relation "measure (\<lambda>(_, _, buf). length buf)") auto

declare write_all_with.simps [simp del]

section \<open>Canonicalisation is a normal form for logical values\<close>

text \<open>Values whose objects are in ascending key order all the way down.\<close>

fun json_canonical :: "json \<Rightarrow> bool" where
  "json_canonical (JArray vs) = list_all json_canonical vs"
| "json_canonical (JObject m) = (bt_ok m \<and> list_all (\<lambda>(k, v). json_canonical v) m)"
| "json_canonical (JNumber n) = (\<not> non_finite n)"
| "json_canonical _ = True"

lemma preserve_insert_fresh: "k \<notin> fst ` set m \<Longrightarrow> preserve_insert k v m = m @ [(k, v)]"
  by (induction m) auto

lemma entries_into_preserve_aux:
  "distinct (map fst (m @ es)) \<Longrightarrow> foldl (\<lambda>m (k, v). preserve_insert k v m) m es = m @ es"
proof (induction es arbitrary: m)
  case Nil
  then show ?case by simp
next
  case (Cons e es)
  obtain k v where e: "e = (k, v)" by (cases e)
  from Cons.prems e have "preserve_insert k v m = m @ [(k, v)]"
    by (intro preserve_insert_fresh) auto
  with Cons.IH [of "m @ [(k, v)]"] Cons.prems e show ?case by simp
qed

lemma entries_into_preserve: "bt_ok es \<Longrightarrow> entries_into preserve_insert es = es"
  using entries_into_preserve_aux [of "[]" es] bt_ok_distinct [of es] by (simp add: entries_into_def)

lemma entries_into_btree: "bt_ok es \<Longrightarrow> entries_into bt_insert es = es"
  using bt_of_list_sorted [of es] by (simp add: entries_into_def bt_of_list_def)

definition sound_backing :: "map_backing \<Rightarrow> bool" where
  "sound_backing ins \<longleftrightarrow> (\<forall>es. bt_ok es \<longrightarrow> entries_into ins es = es)"

lemma sound_backings [simp]: "sound_backing bt_insert" "sound_backing preserve_insert"
  by (simp_all add: sound_backing_def entries_into_btree entries_into_preserve)

lemma map_result_entries:
  "map_result (\<lambda>(k, child). and_then (f child) (\<lambda>c. Inr (k, c))) xs = Inr es \<longleftrightarrow>
     list_all2 (\<lambda>(k, v) (k', c). k = k' \<and> f v = Inr c) xs es"
proof (induction xs arbitrary: es)
  case Nil
  then show ?case by auto
next
  case (Cons x xs)
  then show ?case
    by (cases es; cases x) (auto simp: and_then_eq_Inr)
qed

lemma list_all2_keys:
  "list_all2 (\<lambda>(k, v) (k', c). k = k' \<and> R v c) xs es \<Longrightarrow> map fst es = map fst xs"
  by (induction rule: list_all2_induct) auto

lemma list_all2_map_of:
  "list_all2 (\<lambda>(k, v) (k', c). k = k' \<and> R v c) xs es \<Longrightarrow> rel_option R (map_of xs x) (map_of es x)"
  by (induction rule: list_all2_induct) auto

lemma bt_ok_keys: "bt_ok es \<longleftrightarrow> sorted_wrt (<) (map fst es)"
  by (simp add: bt_ok_def)

lemma map_of_sort_key:
  "distinct (map fst m) \<Longrightarrow> map_of (sort_key fst m) = map_of m"
  by (subst map_of_inject_set) (auto simp: distinct_map)

text \<open>With a map that keeps ascending entries as they are, canonicalisation builds the entries directly.\<close>

lemma canonicalize_object:
  assumes "sound_backing ins" "distinct (map fst m)"
  shows "canonicalize ins (JObject m) =
    and_then (map_result (\<lambda>(k, child). and_then (canonicalize ins child) (\<lambda>c. Inr (k, c))) (sort_key fst m))
      (\<lambda>es. Inr (JObject es))"
proof (cases "map_result (\<lambda>(k, child). and_then (canonicalize ins child) (\<lambda>c. Inr (k, c))) (sort_key fst m)")
  case (Inr es)
  then have "map fst es = map fst (sort_key fst m)"
    using list_all2_keys [of "\<lambda>v c. canonicalize ins v = Inr c"] by (auto simp: map_result_entries)
  with sort_key_bt_ok [OF assms(2)] have "bt_ok es" by (simp add: bt_ok_def)
  with assms(1) Inr show ?thesis by (simp add: sound_backing_def)
qed simp

lemma canonicalize_object_Inr:
  assumes "sound_backing ins" "distinct (map fst m)"
  shows "canonicalize ins (JObject m) = Inr c \<longleftrightarrow>
    (\<exists>es. c = JObject es \<and> list_all2 (\<lambda>(k, v) (k', c). k = k' \<and> canonicalize ins v = Inr c) (sort_key fst m) es)"
  unfolding canonicalize_object [OF assms]
  by (auto simp: and_then_eq_Inr map_result_entries)

lemma map_result_list_all2: "map_result f xs = Inr ys \<longleftrightarrow> list_all2 (\<lambda>x y. f x = Inr y) xs ys"
  by (auto simp: map_result_eq_Inr list_all2_conv_all_nth)

text \<open>The result is canonical and the same logical value.\<close>

lemma canonicalize_sound:
  assumes "sound_backing ins"
  shows "json_ok v \<Longrightarrow> canonicalize ins v = Inr c \<Longrightarrow> json_equiv v c \<and> json_canonical c"
proof (induction v arbitrary: c rule: json_ok.induct)
  case (1 vs)
  from "1.prems" obtain cs where c: "c = JArray cs"
    and cs: "list_all2 (\<lambda>v c. canonicalize ins v = Inr c) vs cs"
    by (auto simp: and_then_eq_Inr map_result_list_all2)
  from cs have "list_all2 (\<lambda>v c. json_equiv v c \<and> json_canonical c) vs cs"
    by (rule list.rel_mono_strong) (use 1 in \<open>auto simp: list_all_iff\<close>)
  then have "list_all2 json_equiv vs cs" "list_all json_canonical cs"
    by (auto simp: list_all2_conv_all_nth list_all_length)
  with c show ?case by (simp add: json_equiv.array)
next
  case (2 m)
  from "2.prems" have d: "distinct (map fst m)" by simp
  from "2.prems" canonicalize_object_Inr [OF assms d] obtain es where c: "c = JObject es"
    and es: "list_all2 (\<lambda>(k, v) (k', c). k = k' \<and> canonicalize ins v = Inr c) (sort_key fst m) es"
    by auto
  from es have es': "list_all2 (\<lambda>(k, v) (k', c). k = k' \<and> json_equiv v c \<and> json_canonical c) (sort_key fst m) es"
    by (rule list.rel_mono_strong) (use 2 in \<open>auto simp: list_all_iff\<close>)
  then have "list_all2 (\<lambda>(k, v) (k', c). k = k' \<and> json_equiv v c) (sort_key fst m) es"
    by (rule list.rel_mono_strong) auto
  then have "rel_option json_equiv (map_of (sort_key fst m) k) (map_of es k)" for k
    by (rule list_all2_map_of)
  then have "json_equiv (JObject m) c"
    using c map_of_sort_key [OF d] by (auto intro: json_equiv.object)
  moreover have "bt_ok es"
    using sort_key_bt_ok [OF d] list_all2_keys [OF es] by (simp add: bt_ok_def)
  moreover have "list_all (\<lambda>(k, v). json_canonical v) es"
    using es' by (auto simp: list_all2_conv_all_nth list_all_length split_beta)
  ultimately show ?case using c by simp
qed (auto split: if_splits)

text \<open>Two canonical values that are the same logical value are equal.\<close>

lemma json_canonical_unique:
  "json_equiv c d \<Longrightarrow> json_canonical c \<Longrightarrow> json_canonical d \<Longrightarrow> c = d"
proof (induction rule: json_equiv.induct)
  case (array vs ws)
  then have "list_all2 (=) vs ws"
    by (auto simp: list_all2_conv_all_nth list_all_length)
  then show ?case by (simp add: list.rel_eq)
next
  case (object m n)
  have "map_of m k = map_of n k" for k
    using object.IH [rule_format, of k] object.prems
    by (cases "map_of m k"; cases "map_of n k") (auto simp: list_all_iff dest!: map_of_SomeD)
  then have "bt_get m = bt_get n" by (simp add: bt_get_def fun_eq_iff)
  with object.prems show ?case by (auto intro: bt_extensional)
qed simp_all

lemma json_equiv_sym: "json_equiv v w \<Longrightarrow> json_equiv w v"
proof (induction rule: json_equiv.induct)
  case (array vs ws)
  then show ?case by (auto intro!: json_equiv.array simp: list_all2_conv_all_nth)
next
  case (object m n)
  have "rel_option json_equiv (map_of n k) (map_of m k)" for k
    using object.IH [rule_format, of k] by (cases "map_of m k"; cases "map_of n k") auto
  then show ?case by (blast intro: json_equiv.object)
qed (auto intro: json_equiv.intros)

lemma json_equiv_trans: "json_equiv u v \<Longrightarrow> json_equiv v w \<Longrightarrow> json_equiv u w"
proof (induction arbitrary: w rule: json_equiv.induct)
  case (array us vs)
  then show ?case
    by (auto elim!: json_equiv_arrayE intro!: json_equiv.array simp: list_all2_conv_all_nth)
next
  case (object m n)
  from object.prems obtain p where w: "w = JObject p"
    and p: "\<And>k. rel_option json_equiv (map_of n k) (map_of p k)"
    by (auto elim: json_equiv_objectE)
  have "rel_option json_equiv (map_of m k) (map_of p k)" for k
    using object.IH [rule_format, of k] p [of k]
    by (cases "map_of m k"; cases "map_of n k"; cases "map_of p k") auto
  with w show ?case by (blast intro: json_equiv.object)
qed (auto intro: json_equiv.intros)

lemma canonicalize_complete:
  assumes "sound_backing ins" "sound_backing ins'" "json_ok v" "json_ok w"
    and "canonicalize ins v = Inr c" "canonicalize ins' w = Inr d"
  shows "c = d \<longleftrightarrow> json_equiv v w"
  using canonicalize_sound [OF assms(1,3,5)] canonicalize_sound [OF assms(2,4,6)]
  by (metis json_equiv_sym json_equiv_trans json_canonical_unique)

section \<open>When canonicalisation fails\<close>

fun json_finite :: "json \<Rightarrow> bool" where
  "json_finite (JArray vs) = list_all json_finite vs"
| "json_finite (JObject m) = list_all (\<lambda>(k, v). json_finite v) m"
| "json_finite (JNumber n) = (\<not> non_finite n)"
| "json_finite _ = True"

lemma map_result_ok: "is_ok (map_result f xs) \<longleftrightarrow> (\<forall>x\<in>set xs. is_ok (f x))"
proof (induction xs)
  case Nil
  then show ?case by simp
next
  case (Cons x xs)
  then show ?case by (cases "f x"; cases "map_result f xs") auto
qed

lemma is_ok_and_then_Inr [simp]: "is_ok (and_then m (\<lambda>x. Inr (f x))) = is_ok m"
  by (cases m) auto

lemma canonicalize_ok_iff:
  "sound_backing ins \<Longrightarrow> json_ok v \<Longrightarrow> is_ok (canonicalize ins v) \<longleftrightarrow> json_finite v"
proof (induction v rule: json_ok.induct)
  case (1 vs)
  then show ?case by (auto simp: map_result_ok list_all_iff)
next
  case (2 m)
  then have "(\<forall>x\<in>set m. is_ok (case x of (k, child) \<Rightarrow> and_then (canonicalize ins child) (\<lambda>c. Inr (k, c))))
      \<longleftrightarrow> (\<forall>(k, v)\<in>set m. json_finite v)"
    by (fastforce simp: list_all_iff)
  then show ?case by (simp add: map_result_ok list_all_iff)
qed auto

lemma json_equiv_finite: "json_equiv v w \<Longrightarrow> json_ok v \<Longrightarrow> json_ok w \<Longrightarrow> json_finite v \<Longrightarrow> json_finite w"
proof (induction rule: json_equiv.induct)
  case (array vs ws)
  then show ?case by (auto simp: list_all2_conv_all_nth list_all_length)
next
  case (object m n)
  have "json_finite v" if kv: "(k, v) \<in> set n" for k v
  proof -
    from kv object.prems(2) have n: "map_of n k = Some v" by simp
    with object.IH [rule_format, of k] obtain u where u: "map_of m k = Some u"
      and P: "json_ok u \<Longrightarrow> json_ok v \<Longrightarrow> json_finite u \<Longrightarrow> json_finite v"
      by (auto simp: option_rel_Some2)
    from u have "(k, u) \<in> set m" by (rule map_of_SomeD)
    with object.prems kv have "json_ok u" "json_ok v" "json_finite u"
      by (auto simp: list_all_iff)
    with P show ?thesis by blast
  qed
  then show ?case by (auto simp: list_all_iff)
qed auto

lemma json_canonical_ok: "json_canonical c \<Longrightarrow> json_ok c \<and> json_finite c"
  by (induction c rule: json_canonical.induct) (auto simp: list_all_iff bt_ok_distinct)



text \<open>
  Canonicalisation is idempotent, whichever map backs the second pass: re-canonicalising a
  signed document cannot change its bytes.
\<close>

theorem canonicalize_idempotent:
  assumes "sound_backing ins" "sound_backing ins'" "json_ok v" "canonicalize ins v = Inr c"
  shows "canonicalize ins' c = Inr c"
proof -
  from canonicalize_sound [OF assms(1,3,4)] have c: "json_canonical c" by simp
  then have ok: "json_ok c" "json_finite c" by (simp_all add: json_canonical_ok)
  with assms(2) obtain d where d: "canonicalize ins' c = Inr d"
    by (auto simp: canonicalize_ok_iff [symmetric] is_ok_iff)
  from canonicalize_sound [OF assms(2) ok(1) d] have "c = d"
    by (auto intro: json_canonical_unique c)
  with d show ?thesis by simp
qed

lemma canonicalize_idempotent_witness:
  "canonicalize preserve_insert (JObject [(''a'', JNull), (''b'', JNull)])
     = Inr (JObject [(''a'', JNull), (''b'', JNull)])"
proof (rule canonicalize_idempotent)
  show "canonicalize bt_insert (JObject [(''b'', JNull), (''a'', JNull)])
      = Inr (JObject [(''a'', JNull), (''b'', JNull)])"
    by code_simp
qed simp_all

section \<open>The writers\<close>

text \<open>
  The contract of \<open>Write\<close> that the hashing writer relies on: a write that returns \<open>Ok(n)\<close> has taken
  exactly the first \<open>n\<close> bytes of the buffer, a write that fails has taken none.
\<close>

locale sink =
  fixes put :: "'w \<Rightarrow> string \<Rightarrow> 'w \<times> (nat, io_error) result"
    and contents :: "'w \<Rightarrow> string"
  assumes put_ok: "put w buf = (w', Inr n) \<Longrightarrow> n \<le> length buf \<and> contents w' = contents w @ take n buf"
    and put_err: "put w buf = (w', Inl e) \<Longrightarrow> contents w' = contents w"
begin

text \<open>\<open>write_all\<close> over a sink hands over a prefix of the buffer, and the whole of it on success.\<close>

lemma write_all_prefix:
  "write_all_with put w buf = (w', r) \<Longrightarrow>
    \<exists>k \<le> length buf. contents w' = contents w @ take k buf \<and> (is_ok r \<longrightarrow> k = length buf)"
proof (induction "length buf" arbitrary: w buf rule: less_induct)
  case less
  show ?case
  proof (cases "buf = []")
    case True
    with less.prems show ?thesis by (simp add: write_all_with.simps)
  next
    case False
    obtain w1 p where p: "put w buf = (w1, p)" by (cases "put w buf")
    show ?thesis
    proof (cases p)
      case (Inl e)
      with False p less.prems put_err [of w buf w1 e] show ?thesis
        by (intro exI [of _ 0]) (auto simp: write_all_with.simps [of put w buf])
    next
      case (Inr n)
      from put_ok [OF p [unfolded Inr]]
      have n: "n \<le> length buf" "contents w1 = contents w @ take n buf" by simp_all
      show ?thesis
      proof (cases "n = 0")
        case True
        with False p Inr n less.prems show ?thesis
          by (intro exI [of _ 0]) (auto simp: write_all_with.simps [of put w buf])
      next
        case n0: False
        with False p Inr less.prems have "write_all_with put w1 (drop n buf) = (w', r)"
          by (simp add: write_all_with.simps [of put w buf])
        with less.hyps [of "drop n buf" w1] n0 False n(1)
        obtain k where k: "k \<le> length buf - n" "contents w' = contents w1 @ take k (drop n buf)"
          "is_ok r \<Longrightarrow> k = length buf - n"
          by auto
        with n have "contents w' = contents w @ take (n + k) buf"
          by (simp add: take_add)
        with k(1,3) n(1) show ?thesis by (intro exI [of _ "n + k"]) auto
      qed
    qed
  qed
qed

lemma write_all_ok: "write_all_with put w buf = (w', Inr u) \<Longrightarrow> contents w' = contents w @ buf"
  using write_all_prefix [of w buf w' "Inr u"] by auto

text \<open>The hashing writer over a sink has hashed exactly the bytes the sink took.\<close>

lemma hashing_write_ok:
  assumes "hashing_write put hw buf = (hw', Inr n)"
  shows "n \<le> length buf \<and> hw_hasher hw' = hw_hasher hw @ take n buf
    \<and> contents (hw_inner hw') = contents (hw_inner hw) @ take n buf"
  using assms put_ok [of "hw_inner hw" buf]
  by (auto simp: hashing_write_def split: prod.splits sum.splits)

lemma hashing_write_err:
  assumes "hashing_write put hw buf = (hw', Inl e)"
  shows "hw_hasher hw' = hw_hasher hw \<and> contents (hw_inner hw') = contents (hw_inner hw)"
  using assms put_err [of "hw_inner hw" buf]
  by (auto simp: hashing_write_def split: prod.splits sum.splits)

text \<open>A hashing writer over a sink is itself a sink, whose contents are the bytes hashed.\<close>

lemma hashing_sink: "sink (hashing_write put) hw_hasher"
  by unfold_locales (use hashing_write_ok hashing_write_err in blast)+

lemma hashing_agrees:
  assumes "hashing_write put hw buf = (hw', r)" "hw_hasher hw = contents (hw_inner hw)"
  shows "hw_hasher hw' = contents (hw_inner hw')"
  using assms hashing_write_ok [of hw buf hw'] hashing_write_err [of hw buf hw']
  by (cases r) auto

end

text \<open>\<open>Write for Vec<u8>\<close> takes every byte; the producer writes its payload files through a buffered file.\<close>

definition vec_write :: "string write_fn" where
  "vec_write w buf = (w @ buf, Inr (length buf))"

interpretation vec: sink vec_write "\<lambda>w. w"
  by unfold_locales (auto simp: vec_write_def)

interpretation vec_hashing: sink "hashing_write vec_write" hw_hasher
  by (rule vec.hashing_sink)

text \<open>What every \<open>write\<close> keeps, every \<open>write_all\<close> keeps.\<close>

lemma write_all_invariant:
  assumes "\<And>w buf w' r. put w buf = (w', r) \<Longrightarrow> P w \<Longrightarrow> P w'"
  shows "write_all_with put w buf = (w', r) \<Longrightarrow> P w \<Longrightarrow> P w'"
proof (induction "length buf" arbitrary: w buf rule: less_induct)
  case less
  obtain w1 p where p: "put w buf = (w1, p)" by (cases "put w buf")
  with assms less.prems(2) have "P w1" by blast
  show ?case
  proof (cases "write_all_with put w buf = (w1, r)  \<or> buf = []")
    case True
    with less.prems \<open>P w1\<close> show ?thesis by (auto simp: write_all_with.simps)
  next
    case False
    with less.prems p obtain n where "0 < n" "buf \<noteq> []" "write_all_with put w1 (drop n buf) = (w', r)"
      by (auto simp: write_all_with.simps [of put w buf] split: if_splits sum.splits)
    with less.hyps [of "drop n buf" w1] \<open>P w1\<close> show ?thesis by simp
  qed
qed

text \<open>A payload file is written by a sequence of \<open>write_all\<close> calls, stopping at the first error.\<close>

fun write_chunks :: "'w write_fn \<Rightarrow> 'w \<Rightarrow> string list \<Rightarrow> 'w \<times> (unit, io_error) result" where
  "write_chunks put w [] = (w, Inr ())"
| "write_chunks put w (c # cs) =
     (case write_all_with put w c of
        (w', Inl e) \<Rightarrow> (w', Inl e)
      | (w', Inr _) \<Rightarrow> write_chunks put w' cs)"

lemma write_chunks_invariant:
  assumes "\<And>w buf w' r. put w buf = (w', r) \<Longrightarrow> P w \<Longrightarrow> P w'"
  shows "write_chunks put w cs = (w', r) \<Longrightarrow> P w \<Longrightarrow> P w'"
proof (induction cs arbitrary: w)
  case Nil
  then show ?case by simp
next
  case (Cons c cs)
  obtain w1 q where q: "write_all_with put w c = (w1, q)" by (cases "write_all_with put w c")
  have "P w1" by (rule write_all_invariant [of put P, OF assms q]) (use Cons.prems in auto)
  with q Cons show ?case by (cases q) auto
qed

context sink
begin

lemma write_chunks_ok:
  "write_chunks put w cs = (w', Inr u) \<Longrightarrow> contents w' = contents w @ concat cs"
  by (induction cs arbitrary: w) (auto split: prod.splits sum.splits dest!: write_all_ok)

end

text \<open>
  A payload written through a hashing writer over any sink, in any sequence of \<open>write_all\<close> calls
  with short writes and failures anywhere, always has the digest of exactly the bytes that reached
  the sink, and when every call succeeds those are the buffers in order.
\<close>

theorem hashing_writer_digest:
  assumes "sink put contents" "contents w = []"
    and "write_chunks (hashing_write put) (hashing_new w) cs = (hw, r)"
  shows "hashing_finalize sha256 hw = digest_bytes sha256 (contents (hw_inner hw))
    \<and> (is_ok r \<longrightarrow> contents (hw_inner hw) = concat cs)"
proof -
  have agree: "hw_hasher hw = contents (hw_inner hw)"
    by (rule write_chunks_invariant [of "hashing_write put" "\<lambda>hw. hw_hasher hw = contents (hw_inner hw)", OF _ assms(3)])
      (use sink.hashing_agrees [OF assms(1)] assms(2) in \<open>auto simp: hashing_new_def\<close>)
  moreover have "hw_hasher hw = concat cs" if "is_ok r"
    using that assms(3) sink.write_chunks_ok [OF sink.hashing_sink [OF assms(1)], of "hashing_new w" cs hw]
    by (auto simp: is_ok_iff hashing_new_def)
  ultimately show ?thesis by (simp add: hashing_finalize_def digest_bytes_def)
qed

lemma hashing_writer_digest_witness:
  "hashing_finalize (\<lambda>b. b) (fst (write_chunks (hashing_write vec_write) (hashing_new []) [''ab'', ''c'']))
     = digest_bytes (\<lambda>b. b) ''abc''"
proof -
  obtain hw r where hw: "write_chunks (hashing_write vec_write) (hashing_new []) [''ab'', ''c''] = (hw, r)"
    by (cases "write_chunks (hashing_write vec_write) (hashing_new []) [''ab'', ''c'']")
  then have "is_ok r"
    by (auto simp: write_all_with.simps hashing_write_def vec_write_def hashing_new_def)
  with hashing_writer_digest [OF vec.sink_axioms _ hw, of "\<lambda>b. b"] hw show ?thesis by simp
qed

text \<open>
  C40.  The streaming digest equals the buffered digest of the bytes read up to the end of input, and
  the writer has received those bytes verbatim, for every way the reader cuts them into chunks.
\<close>

definition read_bytes :: "(string, io_error) result list \<Rightarrow> string" where
  "read_bytes rs = concat (map (\<lambda>r. case r of Inr b \<Rightarrow> b | Inl _ \<Rightarrow> []) (takeWhile (\<lambda>r. r \<noteq> Inr []) rs))"

lemma tee_loop_reads:
  "tee_loop write_all h w rs = Inr (h', w') \<Longrightarrow>
    (\<And>u b u'. write_all u b = Inr u' \<Longrightarrow> contents u' = contents u @ b) \<Longrightarrow>
    h' = h @ read_bytes rs \<and> contents w' = contents w @ read_bytes rs"
proof (induction rs arbitrary: h w)
  case Nil
  then show ?case by (simp add: read_bytes_def)
next
  case (Cons r rs)
  show ?case
  proof (cases "r = Inr []")
    case True
    with Cons.prems show ?thesis by (simp add: read_bytes_def)
  next
    case False
    from Cons.prems(1) False have "\<exists>buf w1. r = Inr buf \<and> write_all w buf = Inr w1
        \<and> tee_loop write_all (h @ buf) w1 rs = Inr (h', w')"
      by (cases r) (auto simp: and_then_eq_Inr split: if_splits)
    then obtain buf w1 where r: "r = Inr buf" and w1: "write_all w buf = Inr w1"
      and t: "tee_loop write_all (h @ buf) w1 rs = Inr (h', w')"
      by blast
    have rb: "read_bytes (r # rs) = buf @ read_bytes rs" using False r by (simp add: read_bytes_def)
    show ?thesis using Cons.IH [OF t Cons.prems(2)] Cons.prems(2) [OF w1] by (simp add: rb)
  qed
qed

theorem tee_digest_streams:
  assumes "tee_digest sha256 write_all w rs = Inr (d, w')"
    and "\<And>u b u'. write_all u b = Inr u' \<Longrightarrow> contents u' = contents u @ b"
  shows "d = digest_bytes sha256 (read_bytes rs) \<and> contents w' = contents w @ read_bytes rs"
  using assms tee_loop_reads [of write_all "[]" w rs _ w' contents]
  by (auto simp: tee_digest_def and_then_eq_Inr digest_bytes_def)

lemma tee_digest_streams_witness:
  "\<exists>d w'. tee_digest (\<lambda>b. b) (\<lambda>u b. Inr (u @ b)) [] [Inr ''a'', Inr ''bc'', Inr []] = Inr (d, w')
     \<and> d = digest_bytes (\<lambda>b. b) (read_bytes [Inr ''a'', Inr ''bc'', Inr []]) \<and> w' = ''abc''"
proof -
  have t: "tee_digest (\<lambda>b. b) (\<lambda>u b. Inr (u @ b)) [] [Inr ''a'', Inr ''bc'', Inr []]
      = Inr (digest_bytes (\<lambda>b. b) ''abc'', ''abc'')"
    by (simp add: tee_digest_def digest_bytes_def)
  from tee_digest_streams [OF t, of "\<lambda>w. w"] t show ?thesis by (auto simp: read_bytes_def)
qed

end
