(* ===== verification/Contract.thy ===== *)
theory Contract
  imports Canonical
begin

text \<open>
  The vocabulary of \<open>jurisearch-package\<close>: reject codes, the two sequence layers, package and event
  kinds, versions and compatibility stamps, corpora, licences, identities and the artifact layout.
  An error value is its code; the human-readable detail text of the source is not modelled.
\<close>

section \<open>Reject codes (reject.rs)\<close>

datatype reject_code =
    ClientTooOld | SchemaAhead | MissingEntitlement | SequenceGap | WrongGeneration
  | EmbeddingFingerprintMismatch | BuilderVersionMismatch | SignatureInvalid | DigestMismatch
  | ExtensionMissing | BaselineRequired

fun reject_as_str :: "reject_code \<Rightarrow> string" where
  "reject_as_str ClientTooOld = ''client_too_old''"
| "reject_as_str SchemaAhead = ''schema_ahead''"
| "reject_as_str MissingEntitlement = ''missing_entitlement''"
| "reject_as_str SequenceGap = ''sequence_gap''"
| "reject_as_str WrongGeneration = ''wrong_generation''"
| "reject_as_str EmbeddingFingerprintMismatch = ''embedding_fingerprint_mismatch''"
| "reject_as_str BuilderVersionMismatch = ''builder_version_mismatch''"
| "reject_as_str SignatureInvalid = ''signature_invalid''"
| "reject_as_str DigestMismatch = ''digest_mismatch''"
| "reject_as_str ExtensionMissing = ''extension_missing''"
| "reject_as_str BaselineRequired = ''baseline_required''"

definition reject_all :: "reject_code list" where
  "reject_all = [ClientTooOld, SchemaAhead, MissingEntitlement, SequenceGap, WrongGeneration,
     EmbeddingFingerprintMismatch, BuilderVersionMismatch, SignatureInvalid, DigestMismatch,
     ExtensionMissing, BaselineRequired]"

section \<open>The two sequence layers (sequence.rs)\<close>

datatype change_seq = ChangeSeq (cs_get: u64)

datatype package_sequence = PackageSequence (ps_get: u64)

datatype negative_sequence = NegativeSequence int

definition change_seq_from_db :: "int \<Rightarrow> (change_seq, negative_sequence) result" where
  "change_seq_from_db v = ok_or (map_option ChangeSeq (u64_try_from v)) (NegativeSequence v)"

definition package_sequence_from_db :: "int \<Rightarrow> (package_sequence, negative_sequence) result" where
  "package_sequence_from_db v = ok_or (map_option PackageSequence (u64_try_from v)) (NegativeSequence v)"

text \<open>\<open>next\<close> adds in a \<open>u64\<close>: it wraps at the maximum (a debug build would panic there).\<close>

definition ps_next :: "package_sequence \<Rightarrow> package_sequence" where
  "ps_next s = PackageSequence (ps_get s + 1)"

definition ps_predecessor :: "package_sequence \<Rightarrow> package_sequence option" where
  "ps_predecessor s = (if ps_get s = 0 then None else Some (PackageSequence (ps_get s - 1)))"

instantiation package_sequence :: linorder
begin

definition less_eq_package_sequence :: "package_sequence \<Rightarrow> package_sequence \<Rightarrow> bool" where
  "less_eq_package_sequence a b \<longleftrightarrow> ps_get a \<le> ps_get b"

definition less_package_sequence :: "package_sequence \<Rightarrow> package_sequence \<Rightarrow> bool" where
  "less_package_sequence a b \<longleftrightarrow> ps_get a < ps_get b"

instance
  by standard (auto simp: less_eq_package_sequence_def less_package_sequence_def intro: package_sequence.expand)

end

section \<open>Package and event kinds (package\_kind.rs, event.rs)\<close>

datatype package_kind = Baseline | Rebaseline | Incremental

fun package_kind_as_str :: "package_kind \<Rightarrow> string" where
  "package_kind_as_str Baseline = ''baseline''"
| "package_kind_as_str Rebaseline = ''rebaseline''"
| "package_kind_as_str Incremental = ''incremental''"

fun requires_empty_generation :: "package_kind \<Rightarrow> bool" where
  "requires_empty_generation Incremental = False"
| "requires_empty_generation _ = True"

fun is_media :: "package_kind \<Rightarrow> bool" where
  "is_media Incremental = False"
| "is_media _ = True"

datatype event_kind = Upsert | Delete | ReplaceSetEvent

fun event_kind_as_str :: "event_kind \<Rightarrow> string" where
  "event_kind_as_str Upsert = ''upsert''"
| "event_kind_as_str Delete = ''delete''"
| "event_kind_as_str ReplaceSetEvent = ''replace_set''"

datatype replace_set_group = ZoneUnits | ChunksWithEmbeddings | ChunkEmbeddings | DecisionZones

fun replace_set_group_as_str :: "replace_set_group \<Rightarrow> string" where
  "replace_set_group_as_str ZoneUnits = ''zone_units''"
| "replace_set_group_as_str ChunksWithEmbeddings = ''chunks_with_embeddings''"
| "replace_set_group_as_str ChunkEmbeddings = ''chunk_embeddings''"
| "replace_set_group_as_str DecisionZones = ''decision_zones''"

fun rebuilds_bm25_rows :: "replace_set_group \<Rightarrow> bool" where
  "rebuilds_bm25_rows ChunksWithEmbeddings = True"
| "rebuilds_bm25_rows _ = False"

lemma package_kind_as_str_inject [simp]:
  "package_kind_as_str a = package_kind_as_str b \<longleftrightarrow> a = b"
  by (cases a; cases b) simp_all

section \<open>Versions and compatibility stamps (compat.rs)\<close>

datatype version = Version (major: u32) (minor: u32) (patch: u32)

datatype version_parse_error =
    Missing string
  | NotNumeric string string
  | TooManyComponents string

text \<open>One call of the closure \<open>next\<close>: the next component of the split text, parsed as a \<open>u32\<close>.\<close>

definition version_component ::
  "string \<Rightarrow> string list \<Rightarrow> string \<Rightarrow> (u32 \<times> string list, version_parse_error) result" where
  "version_component text parts field =
     (case parts of [] \<Rightarrow> Inl (Missing field)
      | p # rest \<Rightarrow> and_then (ok_or (parse_u32 p) (NotNumeric field text)) (\<lambda>v. Inr (v, rest)))"

definition version_parse :: "string \<Rightarrow> (version, version_parse_error) result" where
  "version_parse text =
     and_then (version_component text (split_on CHR ''.'' text) ''major'') (\<lambda>(ma, parts).
     and_then (version_component text parts ''minor'') (\<lambda>(mi, parts).
     and_then (version_component text parts ''patch'') (\<lambda>(pa, parts).
     and_then (ensure (parts = []) (TooManyComponents text)) (\<lambda>_.
     Inr (Version ma mi pa)))))"

definition version_show :: "version \<Rightarrow> string" where
  "version_show v = show_nat (unat (major v)) @ ''.'' @ show_nat (unat (minor v)) @ ''.'' @ show_nat (unat (patch v))"

text \<open>The order derived on the fields: major, then minor, then patch.\<close>

definition version_less :: "version \<Rightarrow> version \<Rightarrow> bool" where
  "version_less a b \<longleftrightarrow>
     major a < major b \<or> major a = major b \<and>
       (minor a < minor b \<or> minor a = minor b \<and> patch a < patch b)"

instantiation version :: linorder
begin

definition less_version :: "version \<Rightarrow> version \<Rightarrow> bool" where
  "less_version = version_less"

definition less_eq_version :: "version \<Rightarrow> version \<Rightarrow> bool" where
  "less_eq_version a b \<longleftrightarrow> a < b \<or> a = b"

instance
proof
  fix a b c :: version
  show "a < b \<longleftrightarrow> a \<le> b \<and> \<not> b \<le> a"
    by (auto simp: less_version_def version_less_def less_eq_version_def)
  show "a \<le> a" by (simp add: less_eq_version_def)
  show "a \<le> b \<Longrightarrow> b \<le> c \<Longrightarrow> a \<le> c"
    by (auto simp: less_version_def version_less_def less_eq_version_def)
  show "a \<le> b \<Longrightarrow> b \<le> a \<Longrightarrow> a = b"
    by (auto simp: less_version_def version_less_def less_eq_version_def)
  show "a \<le> b \<or> b \<le> a"
    by (cases a; cases b) (auto simp: less_version_def version_less_def less_eq_version_def)
qed

end

definition satisfies_minimum :: "version \<Rightarrow> version \<Rightarrow> bool" where
  "satisfies_minimum client minimum \<longleftrightarrow> client \<ge> minimum"

record compatibility_stamps =
  st_schema_version :: int
  st_embedding_fingerprint :: string
  st_builder_versions :: "(string, string) btree"

definition check_fingerprint_and_builders ::
  "compatibility_stamps \<Rightarrow> compatibility_stamps \<Rightarrow> (unit, reject_code) result" where
  "check_fingerprint_and_builders package current =
     and_then (ensure (st_embedding_fingerprint package = st_embedding_fingerprint current)
       EmbeddingFingerprintMismatch) (\<lambda>_.
     fold_result (\<lambda>(builder, version) _.
       case bt_get (st_builder_versions current) builder of
         Some current_version \<Rightarrow> ensure (current_version = version) BuilderVersionMismatch
       | None \<Rightarrow> Inl BuilderVersionMismatch)
       (st_builder_versions package) ())"

datatype schema_gate_outcome = Equal | AdditiveAhead

definition schema_gate :: "int \<Rightarrow> int \<Rightarrow> int \<Rightarrow> (schema_gate_outcome, reject_code) result" where
  "schema_gate package_schema corpus_schema client_binary_schema =
     (if corpus_schema > client_binary_schema then Inl SchemaAhead
      else if package_schema > client_binary_schema then Inl ClientTooOld
      else if package_schema = corpus_schema then Inr Equal
      else if package_schema > corpus_schema then Inr AdditiveAhead
      else Inl BaselineRequired)"

section \<open>Corpora (corpus.rs)\<close>

datatype corpus = Corpus (corpus_as_str: string)

datatype attribution_error = UnknownSource string | InvalidCorpus string

definition is_lower :: "char \<Rightarrow> bool" where
  "is_lower c \<longleftrightarrow> 97 \<le> (of_char c :: nat) \<and> (of_char c :: nat) \<le> 122"

definition corpus_valid :: "string \<Rightarrow> bool" where
  "corpus_valid name \<longleftrightarrow>
     name \<noteq> [] \<and> length name \<le> 48
     \<and> list_all (\<lambda>b. is_lower b \<or> is_digit b \<or> b = CHR ''_'') name
     \<and> (case name of b # _ \<Rightarrow> is_lower b | [] \<Rightarrow> False)"

definition corpus_new :: "string \<Rightarrow> (corpus, attribution_error) result" where
  "corpus_new name = (if corpus_valid name then Inr (Corpus name) else Inl (InvalidCorpus name))"

definition known_sources :: "(string \<times> string) list" where
  "known_sources = [(''legi'', ''core''), (''cass'', ''core''), (''capp'', ''core''),
     (''inca'', ''core''), (''jade'', ''core'')]"

definition corpus_for_source :: "string \<Rightarrow> (corpus, attribution_error) result" where
  "corpus_for_source source =
     (case List.find (\<lambda>(s, _). s = source) known_sources of
        None \<Rightarrow> Inl (UnknownSource source)
      | Some (_, c) \<Rightarrow> corpus_new c)"

section \<open>Licences (license.rs)\<close>

definition open_tiers :: "string list" where
  "open_tiers = [''all'', ''open'']"

definition tier_is_open :: "string \<Rightarrow> bool" where
  "tier_is_open tier \<longleftrightarrow> tier \<in> set open_tiers"

record license_token =
  lt_entitlement_corpus :: corpus
  lt_tier :: string
  lt_license_epoch :: u32
  lt_audience :: "string option"
  lt_not_after :: "string option"

definition token_covers :: "license_token \<Rightarrow> string \<Rightarrow> string \<Rightarrow> u32 \<Rightarrow> bool" where
  "token_covers token corpus tier required_epoch \<longleftrightarrow>
     corpus_as_str (lt_entitlement_corpus token) = corpus
     \<and> lt_tier token = tier
     \<and> lt_license_epoch token \<ge> required_epoch"

section \<open>Identities (identity.rs)\<close>

definition document_version_legi :: "string \<Rightarrow> string \<Rightarrow> string" where
  "document_version_legi source_uid valid_from = ''legi:'' @ source_uid @ ''@'' @ valid_from"

definition document_version_decision :: "string \<Rightarrow> string \<Rightarrow> string" where
  "document_version_decision source source_uid = source @ '':'' @ source_uid"

record logical_article_id =
  la_source :: string
  la_source_uid :: string
  la_version_group :: "string option"
  la_as_of_date :: string

definition group_key :: "logical_article_id \<Rightarrow> string" where
  "group_key a = (case la_version_group a of Some g \<Rightarrow> g | None \<Rightarrow> la_source_uid a)"

section \<open>Replace sets (event.rs)\<close>

record replace_set_scope =
  sc_document_id :: string
  sc_corpus :: "corpus option"

record replace_set =
  rs_table_group :: replace_set_group
  rs_scope :: replace_set_scope
  rs_rows :: "(string, json list) btree"
  rs_row_pks :: "string list"
  rs_builder_version :: string
  rs_source_text_hash :: "string option"
  rs_embedding_fingerprint :: string
  rs_set_digest :: string

text \<open>
  \<open>set_digest_over_rows\<close>: the digest of \<open>serde_json::to_string\<close> of the row map (the printer is a
  parameter; on a map of JSON rows it does not fail).
\<close>

definition set_digest_over_rows ::
  "(string \<Rightarrow> string) \<Rightarrow> (json \<Rightarrow> string) \<Rightarrow> (string, json list) btree \<Rightarrow> string" where
  "set_digest_over_rows sha256 print rows =
     digest_bytes sha256 (print (JObject (map (\<lambda>(t, vs). (t, JArray vs)) rows)))"

section \<open>Artifact layout (artifact.rs)\<close>

definition baseline_file_name :: "string \<Rightarrow> string" where
  "baseline_file_name table = table @ ''.copybin''"

definition incremental_file_name :: "string \<Rightarrow> event_kind \<Rightarrow> string" where
  "incremental_file_name table_or_group op = table_or_group @ ''.'' @ event_kind_as_str op @ ''.jsonl''"

definition digest_pairs :: "(string, string) btree \<Rightarrow> string" where
  "digest_pairs per_file = join_with ''|'' (map (\<lambda>(name, digest). name @ ''='' @ digest) per_file)"

definition aggregate_payload_digest :: "(string \<Rightarrow> string) \<Rightarrow> (string, string) btree \<Rightarrow> string" where
  "aggregate_payload_digest sha256 per_file = digest_bytes sha256 (digest_pairs per_file)"

section \<open>The closed vocabularies\<close>

lemma reject_all_complete: "set reject_all = UNIV \<and> distinct reject_all"
proof -
  have "c \<in> set reject_all" for c by (cases c) (simp_all add: reject_all_def)
  then show ?thesis by (auto simp: reject_all_def)
qed

lemma reject_as_str_inject: "reject_as_str a = reject_as_str b \<longleftrightarrow> a = b"
  by (cases a; cases b) simp_all

lemma replace_set_group_as_str_inject:
  "replace_set_group_as_str a = replace_set_group_as_str b \<longleftrightarrow> a = b"
  by (cases a; cases b) simp_all

lemma ps_next_predecessor:
  assumes "ps_get s < u"
  shows "ps_predecessor (ps_next s) = Some s"
proof -
  have "ps_get s + 1 \<noteq> 0"
    using word_less_imp_Suc_le [OF assms] by (metis unat_0 nat.distinct(1))
  then show ?thesis by (cases s) (simp add: ps_predecessor_def ps_next_def)
qed

lemma ps_less_next: "t < u \<Longrightarrow> PackageSequence t < ps_next (PackageSequence t)"
  using word_less_imp_Suc_le [of t u] by (simp add: less_package_sequence_def ps_next_def word_less_nat_alt)

lemma corpus_new_Inr: "corpus_new name = Inr c \<longleftrightarrow> corpus_valid name \<and> c = Corpus name"
  by (auto simp: corpus_new_def)

lemma corpus_for_source_cases:
  "corpus_for_source source =
     (if source \<in> fst ` set known_sources then Inr (Corpus ''core'') else Inl (UnknownSource source))"
  by (auto simp: corpus_for_source_def known_sources_def corpus_new_def corpus_valid_def is_lower_def)

section \<open>Version strings\<close>

lemma split_version_show:
  "split_on CHR ''.'' (version_show v) =
     [show_nat (unat (major v)), show_nat (unat (minor v)), show_nat (unat (patch v))]"
proof -
  have "split_on CHR ''.'' (a @ CHR ''.'' # b @ CHR ''.'' # c) = [a, b, c]"
    if "CHR ''.'' \<notin> set a" "CHR ''.'' \<notin> set b" "CHR ''.'' \<notin> set c" for a b c
    using that by (simp add: split_on_append split_on_no_sep)
  then show ?thesis by (simp add: version_show_def)
qed

text \<open>A version read as one number, its components as base-\<open>2^32\<close> digits.\<close>

definition version_number :: "version \<Rightarrow> nat" where
  "version_number v = (unat (major v) * 2 ^ 32 + unat (minor v)) * 2 ^ 32 + unat (patch v)"

lemma digit_pair_less:
  fixes a b x y N :: nat
  assumes "b < N" "y < N"
  shows "a * N + b < x * N + y \<longleftrightarrow> a < x \<or> a = x \<and> b < y"
proof (cases a x rule: linorder_cases)
  case less
  then have "Suc a * N \<le> x * N" by (intro mult_le_mono1) simp
  with assms less show ?thesis by simp
next
  case greater
  then have "Suc x * N \<le> a * N" by (intro mult_le_mono1) simp
  with assms greater show ?thesis by simp
qed simp

lemma version_less_number: "v < w \<longleftrightarrow> version_number v < version_number w"
proof -
  have b: "unat (x::u32) < 2 ^ 32" for x
    using unsigned_less [of x, where 'a = nat] by simp
  have eq: "unat x = unat y \<longleftrightarrow> x = y" for x y :: u32
    by (simp only: word_unat_eq_iff)
  have pair: "a * 2 ^ 32 + unat b = x * 2 ^ 32 + unat y \<longleftrightarrow> a = x \<and> b = y"
    for a x :: nat and b y :: u32
    using digit_pair_less [of "unat b" "2 ^ 32" "unat y" a x] digit_pair_less [of "unat y" "2 ^ 32" "unat b" x a]
      b [of b] b [of y] by (auto simp: eq)
  show ?thesis
    unfolding version_number_def
    by (subst digit_pair_less, rule b, rule b, subst digit_pair_less, rule b, rule b)
      (simp only: less_version_def version_less_def word_less_nat_alt eq pair, blast)
qed

text \<open>
  Printing a version and parsing it back gives the same version for all component values, and
  the version gate compares numerically: a client satisfies a minimum exactly when its components,
  read as the digits of one number, are at least the minimum's.
\<close>

theorem version_roundtrip:
  "version_parse (version_show v) = Inr v
   \<and> satisfies_minimum v m = (version_number m \<le> version_number v)"
proof
  show "version_parse (version_show v) = Inr v"
    by (simp add: version_parse_def split_version_show version_component_def parse_u32_show_u32)
  show "satisfies_minimum v m = (version_number m \<le> version_number v)"
    using version_less_number [of v m] by (simp add: satisfies_minimum_def flip: not_less)
qed

section \<open>Compatibility stamps\<close>

lemma check_builders_iff:
  assumes "bt_ok m"
  shows "fold_result (\<lambda>(builder, version) _.
       case bt_get current builder of
         Some current_version \<Rightarrow> ensure (current_version = version) BuilderVersionMismatch
       | None \<Rightarrow> Inl BuilderVersionMismatch) m () = Inr ()
     \<longleftrightarrow> (\<forall>b v. bt_get m b = Some v \<longrightarrow> bt_get current b = Some v)"
proof -
  have "bt_get m b = Some v \<longleftrightarrow> (b, v) \<in> set m" for b v
    using bt_ok_distinct [OF assms] by (simp add: bt_get_def)
  then show ?thesis
    using fold_result_check [of "\<lambda>(builder, version).
       case bt_get current builder of
         Some current_version \<Rightarrow> ensure (current_version = version) BuilderVersionMismatch
       | None \<Rightarrow> Inl BuilderVersionMismatch" m]
    by (auto simp: case_prod_unfold split: option.splits)
qed

section \<open>The aggregate digest binds the file names and digests\<close>

lemma hex_digit_inject: "a < 16 \<Longrightarrow> b < 16 \<Longrightarrow> hex_digit a = hex_digit b \<longleftrightarrow> a = b"
proof -
  assume ab: "a < 16" "b < 16"
  have v: "(of_char (hex_digit d) :: nat) = (if d < 10 then 48 + d else 87 + d)" if "d < 16" for d
    using that by (simp add: hex_digit_def)
  have "a = b" if "hex_digit a = hex_digit b"
  proof -
    from that have "(if a < 10 then 48 + a else 87 + a) = (if b < 10 then 48 + b else 87 + b)"
      unfolding v [OF ab(1), symmetric] v [OF ab(2), symmetric] by (rule arg_cong)
    then show ?thesis by (cases "a < 10"; cases "b < 10") simp_all
  qed
  then show ?thesis by auto
qed

lemma hex_byte_inject [simp]: "hex_byte a = hex_byte b \<longleftrightarrow> a = b"
proof
  assume eq: "hex_byte a = hex_byte b"
  have bound: "(of_char c :: nat) div 16 < 16" for c
    by (rule less_mult_imp_div_less) simp
  from eq have "(of_char a :: nat) div 16 = of_char b div 16" "(of_char a :: nat) mod 16 = of_char b mod 16"
    using bound [of a] bound [of b] by (simp_all add: hex_byte_def hex_digit_inject)
  then have "(of_char a :: nat) = of_char b" by (metis div_mult_mod_eq)
  then show "a = b" by (simp add: of_char_eq_iff)
qed simp

lemma length_hex_byte [simp]: "length (hex_byte b) = 2"
  by (simp add: hex_byte_def)

lemma concat_hex_inject: "concat (map hex_byte xs) = concat (map hex_byte ys) \<longleftrightarrow> xs = ys"
proof (induction xs arbitrary: ys)
  case Nil
  have "concat (map hex_byte ys) = [] \<longleftrightarrow> ys = []"
    by (cases ys) (auto simp: hex_byte_def)
  then show ?case by auto
next
  case (Cons x xs)
  show ?case
  proof (cases ys)
    case Nil
    then show ?thesis by (auto simp: hex_byte_def)
  next
    case (Cons z zs)
    then show ?thesis by (simp add: Cons.IH)
  qed
qed

lemma format_sha256_inject [simp]: "format_sha256 a = format_sha256 b \<longleftrightarrow> a = b"
  by (simp add: format_sha256_def concat_hex_inject)

lemma split_on_join:
  "xs \<noteq> [] \<Longrightarrow> \<forall>x\<in>set xs. c \<notin> set x \<Longrightarrow> split_on c (join_with [c] xs) = xs"
proof (induction xs)
  case (Cons x xs)
  then show ?case by (cases xs) (auto simp: split_on_no_sep split_on_append)
qed simp

lemma append_sep_inject:
  "c \<notin> set a \<Longrightarrow> c \<notin> set a' \<Longrightarrow> a @ c # b = a' @ c # b' \<longleftrightarrow> a = a' \<and> b = b'"
proof (induction a arbitrary: a')
  case Nil
  then show ?case by (cases a') auto
next
  case (Cons x a)
  then show ?case by (cases a') auto
qed

definition separator_free :: "(string, string) btree \<Rightarrow> bool" where
  "separator_free m \<longleftrightarrow>
     (\<forall>(name, digest)\<in>set m. CHR ''='' \<notin> set name \<and> CHR ''|'' \<notin> set name \<and> CHR ''|'' \<notin> set digest)"

lemma digest_pairs_inject:
  assumes "separator_free a" "separator_free b" "digest_pairs a = digest_pairs b"
  shows "a = b"
proof -
  let ?f = "\<lambda>(name, digest). name @ ''='' @ digest"
  have clean: "\<forall>x\<in>set (map ?f m). CHR ''|'' \<notin> set x" if "separator_free m" for m
    using that by (fastforce simp: separator_free_def)
  have empty: "digest_pairs m = [] \<longleftrightarrow> m = []" for m
  proof (cases m)
    case (Cons x m')
    then show ?thesis by (cases m'; cases x) (auto simp: digest_pairs_def split: prod.splits)
  qed (simp add: digest_pairs_def)
  have "map ?f a = map ?f b"
  proof (cases "a = [] \<or> b = []")
    case True
    with empty [of a] empty [of b] assms(3) show ?thesis by auto
  next
    case False
    have "split_on CHR ''|'' (digest_pairs m) = map ?f m" if "m \<noteq> []" "separator_free m" for m
      unfolding digest_pairs_def using that clean by (intro split_on_join) auto
    with False assms show ?thesis by metis
  qed
  moreover have "inj_on ?f (set a \<union> set b)"
  proof (rule inj_onI)
    fix x y
    assume "x \<in> set a \<union> set b" "y \<in> set a \<union> set b" and f: "?f x = ?f y"
    then have "CHR ''='' \<notin> set (fst x)" "CHR ''='' \<notin> set (fst y)"
      using assms(1,2) by (auto simp: separator_free_def)
    with f show "x = y"
      by (cases x; cases y) (simp add: append_sep_inject)
  qed
  ultimately show ?thesis by (simp add: inj_on_map_eq_map)
qed



end
