(* ===== verification/Crypto.thy ===== *)
theory Crypto
  imports Contract "HOL-Library.Product_Lexorder"
begin

text \<open>
  The trust seam of \<open>jurisearch-package\<close> (\<open>crypto.rs\<close>, \<open>signed.rs\<close>): signatures, signers, the
  rotation-tolerant Ed25519 verifier and signed documents.  The crates \<open>hex\<close> and \<open>ed25519\_dalek\<close> are
  the record \<open>crypto_lib\<close> of functions, a parameter of the definitions that call them;
  \<open>crypto_lib_ok\<close> states their documented behaviour.
\<close>

section \<open>Signatures and errors\<close>

type_synonym key_id = string
type_synonym key_epoch = u32

record signature =
  sig_algorithm :: string
  sig_key_id :: key_id
  sig_key_epoch :: key_epoch
  sig_hex :: string

datatype sign_error = SignCanonical canonical_error | Backend

datatype verify_error =
    VerifyCanonical canonical_error
  | Invalid
  | UnknownKey string
  | UnsupportedAlgorithm string
  | MalformedKey

text \<open>A \<open>dyn Verifier\<close> is its \<open>verify_bytes\<close>; a \<open>dyn Signer\<close> its algorithm name and \<open>sign_bytes\<close>.\<close>

type_synonym verifier = "string \<Rightarrow> signature \<Rightarrow> (unit, verify_error) result"

record signer =
  sg_algorithm :: string
  sg_sign_bytes :: "string \<Rightarrow> (signature, sign_error) result"

text \<open>
  How a value becomes canonical bytes: \<open>canonical_bytes\<close> of its JSON form, with serde's conversion,
  the printer and the map backing fixed.
\<close>

record 'a codec =
  cd_to_json :: "'a \<Rightarrow> (json, canonical_error) result"
  cd_print :: "json \<Rightarrow> string"
  cd_backing :: map_backing

definition value_bytes :: "'a codec \<Rightarrow> 'a \<Rightarrow> (string, canonical_error) result" where
  "value_bytes cd v = and_then (cd_to_json cd v) (canonical_bytes (cd_print cd) (cd_backing cd))"

definition sign_value :: "signer \<Rightarrow> 'a codec \<Rightarrow> 'a \<Rightarrow> (signature, sign_error) result" where
  "sign_value sg cd v = and_then (map_err SignCanonical (value_bytes cd v)) (sg_sign_bytes sg)"

definition verify_value :: "verifier \<Rightarrow> 'a codec \<Rightarrow> 'a \<Rightarrow> signature \<Rightarrow> (unit, verify_error) result" where
  "verify_value vf cd v sig = and_then (map_err VerifyCanonical (value_bytes cd v)) (\<lambda>bytes. vf bytes sig)"

definition accept_all_verify_bytes :: verifier where
  "accept_all_verify_bytes canonical sig = Inr ()"

definition stub_signer :: signer where
  "stub_signer = \<lparr>sg_algorithm = ''stub'',
     sg_sign_bytes = (\<lambda>canonical. Inr \<lparr>sig_algorithm = ''stub'', sig_key_id = ''stub'', sig_key_epoch = 0,
       sig_hex = []\<rparr>)\<rparr>"

section \<open>Ed25519\<close>

record ('k, 's) crypto_lib =
  cl_hex_encode :: "string \<Rightarrow> string"
  cl_hex_decode :: "string \<Rightarrow> string option"
  cl_key_from_bytes :: "string \<Rightarrow> 'k option"
  cl_sig_from_slice :: "string \<Rightarrow> 's option"
  cl_verify_strict :: "'k \<Rightarrow> string \<Rightarrow> 's \<Rightarrow> bool"
  cl_verifying_key :: "string \<Rightarrow> string"
  cl_sign :: "string \<Rightarrow> string \<Rightarrow> string"

definition ed25519_algorithm :: string where
  "ed25519_algorithm = ''ed25519''"

definition lower_hex_byte :: "char \<Rightarrow> bool" where
  "lower_hex_byte b \<longleftrightarrow> is_digit b \<or> 97 \<le> (of_char b :: nat) \<and> (of_char b :: nat) \<le> 102"

definition decode_lower_hex_exact :: "('k, 's) crypto_lib \<Rightarrow> string \<Rightarrow> nat \<Rightarrow> string option" where
  "decode_lower_hex_exact lib text expected_bytes =
     (if length text \<noteq> expected_bytes * 2 then None
      else if \<not> list_all lower_hex_byte text then None
      else cl_hex_decode lib text)"

record trust_anchor =
  ta_key_id :: key_id
  ta_key_epoch :: key_epoch
  ta_algorithm :: string
  ta_public_key_hex :: string

record ed25519_signer =
  es_seed :: string
  es_key_id :: key_id
  es_key_epoch :: key_epoch

definition ed25519_from_seed :: "string \<Rightarrow> key_id \<Rightarrow> key_epoch \<Rightarrow> ed25519_signer" where
  "ed25519_from_seed seed key_id key_epoch = \<lparr>es_seed = seed, es_key_id = key_id, es_key_epoch = key_epoch\<rparr>"

definition public_key_hex :: "('k, 's) crypto_lib \<Rightarrow> ed25519_signer \<Rightarrow> string" where
  "public_key_hex lib s = cl_hex_encode lib (cl_verifying_key lib (es_seed s))"

definition signer_trust_anchor :: "('k, 's) crypto_lib \<Rightarrow> ed25519_signer \<Rightarrow> trust_anchor" where
  "signer_trust_anchor lib s = \<lparr>ta_key_id = es_key_id s, ta_key_epoch = es_key_epoch s,
     ta_algorithm = ed25519_algorithm, ta_public_key_hex = public_key_hex lib s\<rparr>"

definition ed25519_sign_bytes ::
  "('k, 's) crypto_lib \<Rightarrow> ed25519_signer \<Rightarrow> string \<Rightarrow> (signature, sign_error) result" where
  "ed25519_sign_bytes lib s canonical = Inr \<lparr>sig_algorithm = ed25519_algorithm, sig_key_id = es_key_id s,
     sig_key_epoch = es_key_epoch s, sig_hex = cl_hex_encode lib (cl_sign lib (es_seed s) canonical)\<rparr>"

definition ed25519_signer_dyn :: "('k, 's) crypto_lib \<Rightarrow> ed25519_signer \<Rightarrow> signer" where
  "ed25519_signer_dyn lib s = \<lparr>sg_algorithm = ed25519_algorithm, sg_sign_bytes = ed25519_sign_bytes lib s\<rparr>"

text \<open>The verifier's \<open>BTreeMap\<close> from key identity to public key.\<close>

type_synonym 'k trust_map = "(key_id \<times> key_epoch, 'k) btree"

definition anchor_key :: "('k, 's) crypto_lib \<Rightarrow> trust_anchor \<Rightarrow> ('k, verify_error) result" where
  "anchor_key lib anchor =
     and_then (ensure (ta_algorithm anchor = ed25519_algorithm) (UnsupportedAlgorithm (ta_algorithm anchor))) (\<lambda>_.
     and_then (ok_or (decode_lower_hex_exact lib (ta_public_key_hex anchor) 32) MalformedKey) (\<lambda>bytes.
     ok_or (cl_key_from_bytes lib bytes) MalformedKey))"

definition from_anchors :: "('k, 's) crypto_lib \<Rightarrow> trust_anchor list \<Rightarrow> ('k trust_map, verify_error) result" where
  "from_anchors lib anchors =
     fold_result (\<lambda>anchor trust_anchors.
       and_then (anchor_key lib anchor) (\<lambda>key.
         Inr (bt_insert (ta_key_id anchor, ta_key_epoch anchor) key trust_anchors)))
       anchors []"

definition anchor_count :: "'k trust_map \<Rightarrow> nat" where
  "anchor_count m = length m"

definition ed25519_verify_bytes :: "('k, 's) crypto_lib \<Rightarrow> 'k trust_map \<Rightarrow> verifier" where
  "ed25519_verify_bytes lib anchors canonical sig =
     and_then (ensure (sig_algorithm sig = ed25519_algorithm) (UnsupportedAlgorithm (sig_algorithm sig))) (\<lambda>_.
     and_then (ok_or (bt_get anchors (sig_key_id sig, sig_key_epoch sig)) (UnknownKey (sig_key_id sig))) (\<lambda>key.
     and_then (ok_or (decode_lower_hex_exact lib (sig_hex sig) 64) Invalid) (\<lambda>sig_bytes.
     and_then (ok_or (cl_sig_from_slice lib sig_bytes) Invalid) (\<lambda>dalek_sig.
     ensure (cl_verify_strict lib key canonical dalek_sig) Invalid))))"

section \<open>Signed documents (signed.rs)\<close>

record 'a signed =
  sd_payload :: 'a
  sd_signature :: signature

definition seal :: "signer \<Rightarrow> 'a codec \<Rightarrow> 'a \<Rightarrow> ('a signed, sign_error) result" where
  "seal sg cd payload =
     and_then (sign_value sg cd payload) (\<lambda>sig. Inr \<lparr>sd_payload = payload, sd_signature = sig\<rparr>)"

definition signed_verify :: "verifier \<Rightarrow> 'a codec \<Rightarrow> 'a signed \<Rightarrow> (unit, verify_error) result" where
  "signed_verify vf cd doc = verify_value vf cd (sd_payload doc) (sd_signature doc)"

definition canonical_payload :: "'a codec \<Rightarrow> 'a signed \<Rightarrow> (string, canonical_error) result" where
  "canonical_payload cd doc = value_bytes cd (sd_payload doc)"

section \<open>Documented behaviour of the libraries\<close>

definition crypto_lib_ok :: "('k, 's) crypto_lib \<Rightarrow> string \<Rightarrow> bool" where
  "crypto_lib_ok lib seed \<longleftrightarrow>
     (\<forall>b. list_all lower_hex_byte (cl_hex_encode lib b) \<and> length (cl_hex_encode lib b) = 2 * length b
        \<and> cl_hex_decode lib (cl_hex_encode lib b) = Some b)
     \<and> length (cl_verifying_key lib seed) = 32
     \<and> (\<forall>m. length (cl_sign lib seed m) = 64)
     \<and> (\<exists>k. cl_key_from_bytes lib (cl_verifying_key lib seed) = Some k
          \<and> (\<forall>m. \<exists>s. cl_sig_from_slice lib (cl_sign lib seed m) = Some s \<and> cl_verify_strict lib k m s))"

section \<open>What a verifier accepts\<close>

lemma from_anchors_snoc:
  "from_anchors lib (as @ [a]) =
     and_then (from_anchors lib as) (\<lambda>m. and_then (anchor_key lib a) (\<lambda>key.
       Inr (bt_insert (ta_key_id a, ta_key_epoch a) key m)))"
  by (cases "from_anchors lib as"; cases "anchor_key lib a") (simp_all add: from_anchors_def fold_result_append)

text \<open>The last anchor installed for a key identity, which is the one the map keeps.\<close>

definition last_anchor :: "trust_anchor list \<Rightarrow> key_id \<Rightarrow> key_epoch \<Rightarrow> trust_anchor option" where
  "last_anchor anchors key_id epoch =
     List.find (\<lambda>a. ta_key_id a = key_id \<and> ta_key_epoch a = epoch) (rev anchors)"

lemma from_anchors_get:
  assumes "from_anchors lib anchors = Inr m"
  shows "bt_ok m \<and>
    bt_get m (key_id, epoch) =
      (case last_anchor anchors key_id epoch of None \<Rightarrow> None
       | Some a \<Rightarrow> (case anchor_key lib a of Inl _ \<Rightarrow> None | Inr k \<Rightarrow> Some k))"
  using assms
proof (induction anchors arbitrary: m rule: rev_induct)
  case Nil
  then show ?case by (simp add: from_anchors_def last_anchor_def bt_get_def)
next
  case (snoc a anchors)
  then obtain m' k where m': "from_anchors lib anchors = Inr m'" "anchor_key lib a = Inr k"
    "m = bt_insert (ta_key_id a, ta_key_epoch a) k m'"
    by (auto simp: from_anchors_snoc and_then_eq_Inr)
  with snoc.IH [OF m'(1)] show ?case
    by (auto simp: bt_ok_insert bt_get_insert last_anchor_def)
qed

lemma from_anchors_all_usable:
  "from_anchors lib anchors = Inr m \<Longrightarrow> a \<in> set anchors \<Longrightarrow> is_ok (anchor_key lib a)"
  by (induction anchors arbitrary: m rule: rev_induct)
    (auto simp: from_anchors_snoc and_then_eq_Inr is_ok_iff)

lemma from_anchors_usable_ok:
  assumes "\<forall>a\<in>set anchors. is_ok (anchor_key lib a)"
  shows "is_ok (from_anchors lib anchors)"
  using assms
proof (induction anchors rule: rev_induct)
  case (snoc a anchors)
  then show ?case by (auto simp: from_anchors_snoc is_ok_iff and_then_eq_Inr)
qed (simp add: from_anchors_def)

lemma ed25519_verify_bytes_Inr:
  "ed25519_verify_bytes lib m b sig = Inr u \<longleftrightarrow>
     sig_algorithm sig = ed25519_algorithm \<and>
     (\<exists>key raw s. bt_get m (sig_key_id sig, sig_key_epoch sig) = Some key
        \<and> decode_lower_hex_exact lib (sig_hex sig) 64 = Some raw
        \<and> cl_sig_from_slice lib raw = Some s \<and> cl_verify_strict lib key b s)"
  by (auto simp: ed25519_verify_bytes_def and_then_eq_Inr ok_or_eq_Inr)

lemma signed_verify_Inr:
  "signed_verify vf cd doc = Inr () \<longleftrightarrow>
     (\<exists>bytes. canonical_payload cd doc = Inr bytes \<and> vf bytes (sd_signature doc) = Inr ())"
  by (auto simp: signed_verify_def verify_value_def canonical_payload_def and_then_eq_Inr map_err_eq_Inr)

text \<open>
  C30.  A signed document is accepted exactly when the anchor installed last under the signature's
  \<open>(key_id, epoch)\<close> exists and its key strictly verifies the decoded signature over the canonical
  bytes of the payload, under the one supported algorithm.  So an empty store rejects everything, a
  key whose anchor is gone (or superseded under the same identity) verifies nothing, and no other
  anchor's key can vouch for the document.
\<close>

theorem verifier_accepts_iff:
  assumes "from_anchors lib anchors = Inr m"
  shows "signed_verify (ed25519_verify_bytes lib m) cd doc = Inr () \<longleftrightarrow>
    sig_algorithm (sd_signature doc) = ed25519_algorithm
    \<and> (\<exists>a key bytes raw s.
        last_anchor anchors (sig_key_id (sd_signature doc)) (sig_key_epoch (sd_signature doc)) = Some a
        \<and> anchor_key lib a = Inr key
        \<and> canonical_payload cd doc = Inr bytes
        \<and> decode_lower_hex_exact lib (sig_hex (sd_signature doc)) 64 = Some raw
        \<and> cl_sig_from_slice lib raw = Some s
        \<and> cl_verify_strict lib key bytes s)"
  using from_anchors_get [OF assms, of "sig_key_id (sd_signature doc)" "sig_key_epoch (sd_signature doc)"]
  by (auto simp: signed_verify_Inr ed25519_verify_bytes_Inr split: option.splits sum.splits)

text \<open>A small instance of the libraries, for the witnesses: keyed checksums over the message length.\<close>

fun unhex :: "string \<Rightarrow> string option" where
  "unhex [] = Some []"
| "unhex [c] = None"
| "unhex (c # d # r) =
     (let v = (\<lambda>x. if is_digit x then digit_val x else of_char x - 87)
      in map_option (Cons (char_of (16 * v c + v d))) (unhex r))"

definition sample_lib :: "(string, string) crypto_lib" where
  "sample_lib = \<lparr>cl_hex_encode = (\<lambda>b. concat (map hex_byte b)), cl_hex_decode = unhex,
     cl_key_from_bytes = Some, cl_sig_from_slice = Some,
     cl_verify_strict = (\<lambda>k m s. s = take 64 (k @ k @ m)),
     cl_verifying_key = (\<lambda>seed. seed), cl_sign = (\<lambda>seed m. take 64 (seed @ seed @ m))\<rparr>"

definition sample_codec :: "string codec" where
  "sample_codec = \<lparr>cd_to_json = (\<lambda>s. Inr (JString s)), cd_print = (\<lambda>j. case j of JString s \<Rightarrow> s | _ \<Rightarrow> []),
     cd_backing = bt_insert\<rparr>"

definition sample_signer :: ed25519_signer where
  "sample_signer = ed25519_from_seed (replicate 32 CHR ''k'') ''producer'' 1"

lemma lower_hex_digit: "d < 16 \<Longrightarrow> lower_hex_byte (hex_digit d)"
  by (auto simp: lower_hex_byte_def is_digit_def hex_digit_def)

lemma nat_of_char_div: "(of_char c :: nat) div 16 < 16"
  by (rule less_mult_imp_div_less) simp

lemma unhex_hex_byte: "unhex (hex_byte b @ r) = map_option (Cons b) (unhex r)"
proof -
  have v: "(if is_digit (hex_digit d) then digit_val (hex_digit d) else of_char (hex_digit d) - 87) = d"
    if "d < 16" for d :: nat
    using that by (auto simp: hex_digit_def is_digit_def digit_val_def)
  show ?thesis
    using nat_of_char_div [of b] by (simp add: hex_byte_def v)
qed

lemma sample_lib_hex:
  "unhex (concat (map hex_byte b)) = Some b
   \<and> list_all lower_hex_byte (concat (map hex_byte b)) \<and> length (concat (map hex_byte b)) = 2 * length b"
proof (induction b)
  case (Cons x b)
  have "list_all lower_hex_byte (hex_byte x)"
    using nat_of_char_div [of x] by (simp add: hex_byte_def lower_hex_digit)
  with Cons show ?case by (simp add: unhex_hex_byte)
qed simp

lemma sample_lib_ok: "crypto_lib_ok sample_lib (es_seed sample_signer)"
  using sample_lib_hex by (simp add: crypto_lib_ok_def sample_lib_def sample_signer_def ed25519_from_seed_def)

lemma verifier_accepts_iff_witness:
  "signed_verify (ed25519_verify_bytes sample_lib []) sample_codec
     \<lparr>sd_payload = ''manifest'', sd_signature = \<lparr>sig_algorithm = ''ed25519'', sig_key_id = ''producer'',
       sig_key_epoch = 1, sig_hex = ''00''\<rparr>\<rparr> \<noteq> Inr ()"
  using verifier_accepts_iff [of sample_lib "[]" "[]" sample_codec
     "\<lparr>sd_payload = ''manifest'', sd_signature = \<lparr>sig_algorithm = ''ed25519'', sig_key_id = ''producer'',
       sig_key_epoch = 1, sig_hex = ''00''\<rparr>\<rparr>"]
  by (simp add: from_anchors_def last_anchor_def)

section \<open>Sealed documents verify\<close>

lemma decode_encode:
  assumes "crypto_lib_ok lib seed" "length b = n"
  shows "decode_lower_hex_exact lib (cl_hex_encode lib b) n = Some b"
  using assms by (simp add: decode_lower_hex_exact_def crypto_lib_ok_def)

lemma signer_anchor_key:
  assumes "crypto_lib_ok lib (es_seed s)"
  obtains k where "anchor_key lib (signer_trust_anchor lib s) = Inr k"
    "\<forall>m. \<exists>d. cl_sig_from_slice lib (cl_sign lib (es_seed s) m) = Some d \<and> cl_verify_strict lib k m d"
proof -
  from assms obtain k where k: "cl_key_from_bytes lib (cl_verifying_key lib (es_seed s)) = Some k"
    "\<forall>m. \<exists>d. cl_sig_from_slice lib (cl_sign lib (es_seed s) m) = Some d \<and> cl_verify_strict lib k m d"
    and len: "length (cl_verifying_key lib (es_seed s)) = 32"
    by (auto simp: crypto_lib_ok_def)
  have "anchor_key lib (signer_trust_anchor lib s) = Inr k"
    using decode_encode [OF assms len] k(1)
    by (simp add: anchor_key_def signer_trust_anchor_def public_key_hex_def)
  with k(2) that show ?thesis by blast
qed

text \<open>
  C38.  Seal-then-verify: a document sealed by an Ed25519 signer is accepted by every verifier built
  from anchors whose last entry for the signer's identity is the signer's own published anchor,
  whatever other anchors (other keys, other epochs: a rotation in progress) are installed.
\<close>

theorem sealed_document_verifies:
  assumes lib: "crypto_lib_ok lib (es_seed s)"
    and sealed: "seal (ed25519_signer_dyn lib s) cd payload = Inr doc"
    and anchors: "from_anchors lib anchors = Inr m"
    and last: "last_anchor anchors (es_key_id s) (es_key_epoch s) = Some (signer_trust_anchor lib s)"
  shows "signed_verify (ed25519_verify_bytes lib m) cd doc = Inr () \<and> sd_payload doc = payload"
proof -
  from sealed obtain bytes where b: "value_bytes cd payload = Inr bytes"
    and doc: "doc = \<lparr>sd_payload = payload, sd_signature = \<lparr>sig_algorithm = ed25519_algorithm,
      sig_key_id = es_key_id s, sig_key_epoch = es_key_epoch s,
      sig_hex = cl_hex_encode lib (cl_sign lib (es_seed s) bytes)\<rparr>\<rparr>"
    by (auto simp: seal_def sign_value_def ed25519_signer_dyn_def ed25519_sign_bytes_def
        and_then_eq_Inr map_err_eq_Inr)
  obtain k where k: "anchor_key lib (signer_trust_anchor lib s) = Inr k"
    "\<forall>m. \<exists>d. cl_sig_from_slice lib (cl_sign lib (es_seed s) m) = Some d \<and> cl_verify_strict lib k m d"
    by (rule signer_anchor_key [OF lib])
  have "length (cl_sign lib (es_seed s) bytes) = 64"
    using lib by (simp add: crypto_lib_ok_def)
  from decode_encode [OF lib this] k(2) b
    from_anchors_get [OF anchors, of "es_key_id s" "es_key_epoch s"] last k(1)
  show ?thesis
    by (auto simp: doc signed_verify_Inr canonical_payload_def ed25519_verify_bytes_Inr)
qed

lemma sealed_document_verifies_witness:
  "\<exists>doc m. from_anchors sample_lib [signer_trust_anchor sample_lib sample_signer] = Inr m
     \<and> signed_verify (ed25519_verify_bytes sample_lib m) sample_codec doc = Inr ()
     \<and> sd_payload doc = ''manifest''"
proof -
  let ?a = "signer_trust_anchor sample_lib sample_signer"
  obtain doc where doc: "seal (ed25519_signer_dyn sample_lib sample_signer) sample_codec ''manifest'' = Inr doc"
    by (simp add: seal_def sign_value_def value_bytes_def sample_codec_def canonical_bytes_def
        ed25519_signer_dyn_def ed25519_sign_bytes_def)
  obtain k where "anchor_key sample_lib ?a = Inr k"
    using signer_anchor_key [OF sample_lib_ok] by blast
  then obtain m where m: "from_anchors sample_lib [?a] = Inr m"
    by (simp add: from_anchors_def)
  have "last_anchor [?a] (es_key_id sample_signer) (es_key_epoch sample_signer) = Some ?a"
    by (simp add: last_anchor_def signer_trust_anchor_def)
  from sealed_document_verifies [OF sample_lib_ok doc m this] m show ?thesis by blast
qed

end
