(* ===== verification/Manifest.thy ===== *)
theory Manifest
  imports Crypto
begin

text \<open>
  The two manifests of the package contract: the embedded manifest that travels in every artifact
  (\<open>manifest/embedded.rs\<close>) and the remote manifest a client polls (\<open>manifest/remote.rs\<close>).  Field
  names carry a prefix per struct.
\<close>

section \<open>The embedded manifest\<close>

record identity =
  id_package_format_version :: u32
  id_package_id :: string
  id_corpus :: corpus
  id_package_kind :: package_kind
  id_from_sequence :: package_sequence
  id_to_sequence :: package_sequence
  id_previous_package_id :: "string option"
  id_previous_package_sha256 :: "string option"
  id_baseline_id :: string
  id_generation :: string
  id_created_at :: string
  id_builder_run_id :: string

record extension_requirement =
  er_name :: string
  er_minimum_version :: "string option"

record compatibility =
  co_minimum_client_version :: version
  co_maximum_client_version :: "version option"
  co_schema_version :: int
  co_schema_migration_bundle_digest :: string
  co_requires_extensions :: "extension_requirement list"
  co_embedding_fingerprint :: string
  co_embedding_model :: string
  co_embedding_dimension :: u32
  co_embedding_normalize :: bool
  co_builder_versions :: "(string, string) btree"
  co_postgres_major_min :: "u32 option"
  co_postgres_major_max :: "u32 option"

record entitlement =
  en_corpus :: corpus
  en_tier :: string
  en_license_epoch :: u32
  en_audience :: "string option"
  en_policy_digest :: string

record integrity =
  in_artifact_sha256 :: string
  in_uncompressed_payload_digest :: string
  in_per_file_digests :: "(string, string) btree"
  in_canonicalisation_algorithm :: string
  in_signature_algorithm :: string
  in_transparency_log_index :: "u64 option"

record operation_count =
  oc_table :: string
  oc_op :: event_kind
  oc_count :: u64

record replace_scope_count =
  rc_table_group :: replace_set_group
  rc_scope_count :: u64
  rc_scopes_digest :: "string option"

record preconditions =
  pre_schema_version :: int
  pre_embedding_fingerprint :: string
  pre_builder_versions :: "(string, string) btree"
  pre_active_baseline_id :: "string option"
  pre_active_generation :: "string option"

record postconditions =
  post_row_counts :: "(string, u64) btree"
  post_table_digests :: "(string, string) btree"

record ivfflat_finalize =
  iv_index :: string
  iv_lists :: u32
  iv_probes :: u32

record index_build_contract =
  ib_bm25_indexes :: "string list"
  ib_ivfflat_finalize :: "ivfflat_finalize list"
  ib_row_level_maintenance_only :: bool
  ib_queryable_before_finalize :: bool

datatype rollback_policy = TransactionRollback | KeepPreviousGenerationUntilValidated

record apply_contract =
  ap_expected_client_from_sequence :: package_sequence
  ap_result_sequence :: package_sequence
  ap_requires_empty_generation :: bool
  ap_schema_ops_digest :: string
  ap_operations :: "operation_count list"
  ap_replace_scopes :: "replace_scope_count list"
  ap_preconditions :: preconditions
  ap_postconditions :: postconditions
  ap_index_build :: index_build_contract
  ap_idempotency_key :: string
  ap_rollback_policy :: rollback_policy

datatype payload_format = CopyBinary | Jsonl | Parquet

datatype compression = NoCompression | Zstd | Gzip

record payload_file =
  pf_file_name :: string
  pf_table :: string
  pf_columns :: "string list"
  pf_op :: event_kind
  pf_format :: payload_format
  pf_compression :: compression
  pf_row_count :: u64
  pf_digest :: string

record payload_layout =
  pl_files :: "payload_file list"
  pl_apply_order :: "string list"

record embedded_manifest =
  em_identity :: identity
  em_compatibility :: compatibility
  em_entitlement :: entitlement
  em_integrity :: integrity
  em_apply :: apply_contract
  em_payload :: payload_layout

text \<open>\<open>Iterator::position\<close>.\<close>

fun position :: "('a \<Rightarrow> bool) \<Rightarrow> 'a list \<Rightarrow> nat option" where
  "position P [] = None"
| "position P (x # xs) = (if P x then Some 0 else map_option Suc (position P xs))"

definition citation_fk_tables :: "string list" where
  "citation_fk_tables = [''decision_legislation_citations'', ''legislation_citation_resolutions'']"

definition citation_order_holds :: "payload_layout \<Rightarrow> bool" where
  "citation_order_holds layout =
     (let pos = (\<lambda>name. position (\<lambda>f. f = name) (pl_apply_order layout))
      in case pos ''official_api_responses'' of
           None \<Rightarrow> True
         | Some responses \<Rightarrow>
             list_all (\<lambda>fk_table. case pos fk_table of None \<Rightarrow> True | Some fk \<Rightarrow> \<not> fk < responses)
               citation_fk_tables)"

section \<open>The remote manifest\<close>

record baseline_ref =
  br_baseline_id :: string
  br_generation :: string
  br_package_kind :: package_kind
  br_sequence :: package_sequence
  br_schema_version :: int
  br_minimum_client_version :: version
  br_artifact_uri :: string
  br_compressed_size_bytes :: u64
  br_uncompressed_size_bytes :: u64
  br_estimated_load_seconds :: u32
  br_sha256 :: string
  br_signature :: signature

record remote_package_entry =
  re_package_id :: string
  re_from_sequence :: package_sequence
  re_to_sequence :: package_sequence
  re_artifact_uri :: string
  re_compressed_size_bytes :: u64
  re_uncompressed_size_bytes :: u64
  re_estimated_apply_seconds :: u32
  re_row_counts :: "(string, u64) btree"
  re_requires_baseline :: bool
  re_minimum_client_version :: version
  re_schema_version :: int
  re_embedding_fingerprint :: string
  re_builder_versions :: "(string, string) btree"
  re_sha256 :: string
  re_signature :: signature

datatype catchup_mode = IncrementalOk | RequiresBaseline

record catchup_range =
  cr_from_sequence :: package_sequence
  cr_to_sequence :: "package_sequence option"
  cr_mode :: catchup_mode
  cr_baseline_id :: "string option"

record catchup_policy =
  cp_max_incremental_packages :: u32
  cp_max_diff_permille :: u32
  cp_max_uncompressed_permille :: u32
  cp_max_apply_seconds_budget :: u32

datatype entitlement_tier = OpenTier | Subscription

record entitlement_listing =
  el_corpus :: corpus
  el_tier :: entitlement_tier
  el_license_epoch :: u32
  el_audience :: "string option"

record signing_info =
  si_key_id :: key_id
  si_algorithm :: string

record remote_manifest =
  rm_manifest_version :: u32
  rm_generated_at :: string
  rm_publisher :: string
  rm_corpus :: corpus
  rm_environment :: string
  rm_head_sequence :: package_sequence
  rm_min_available_sequence :: package_sequence
  rm_active_baseline :: baseline_ref
  rm_packages :: "remote_package_entry list"
  rm_catchup_ranges :: "catchup_range list"
  rm_catchup_policy :: catchup_policy
  rm_entitlement :: entitlement_listing
  rm_signing :: signing_info

definition head_package :: "remote_manifest \<Rightarrow> remote_package_entry option" where
  "head_package m = List.find (\<lambda>p. re_to_sequence p = rm_head_sequence m) (rm_packages m)"

definition requires_baseline_for :: "remote_manifest \<Rightarrow> package_sequence \<Rightarrow> bool" where
  "requires_baseline_for m client_sequence \<longleftrightarrow> client_sequence < rm_min_available_sequence m"

section \<open>The apply order\<close>

lemma position_takeWhile:
  "position P xs = (if \<exists>x\<in>set xs. P x then Some (length (takeWhile (\<lambda>x. \<not> P x) xs)) else None)"
  by (induction xs) auto

lemma takeWhile_shorter_iff:
  assumes "t \<in> set xs" "t \<noteq> r"
  shows "length (takeWhile (\<lambda>f. f \<noteq> t) xs) < length (takeWhile (\<lambda>f. f \<noteq> r) xs)
     \<longleftrightarrow> t \<in> set (takeWhile (\<lambda>f. f \<noteq> r) xs)"
  using assms by (induction xs) auto

text \<open>
  The check says what it is for: it passes exactly when no citation file stands before the first
  official-responses file, if there is one.
\<close>

lemma citation_order_holds_iff:
  "citation_order_holds layout \<longleftrightarrow>
     ''official_api_responses'' \<in> set (pl_apply_order layout)
     \<longrightarrow> set (takeWhile (\<lambda>f. f \<noteq> ''official_api_responses'') (pl_apply_order layout)) \<inter> set citation_fk_tables = {}"
  (is "_ \<longleftrightarrow> ?r \<in> set ?o \<longrightarrow> _")
proof -
  have "(case position (\<lambda>f. f = t) ?o of None \<Rightarrow> True | Some fk \<Rightarrow> \<not> fk < length (takeWhile (\<lambda>f. f \<noteq> ?r) ?o))
      \<longleftrightarrow> t \<notin> set (takeWhile (\<lambda>f. f \<noteq> ?r) ?o)" if "t \<in> set citation_fk_tables" for t
  proof -
    have "t \<noteq> ?r" using that by (auto simp: citation_fk_tables_def)
    then show ?thesis
      using takeWhile_shorter_iff [of t ?o ?r] by (auto simp: position_takeWhile dest: set_takeWhileD)
  qed
  then show ?thesis
    by (auto simp: citation_order_holds_def position_takeWhile list_all_iff)
qed

end
