(* ===== verification/Errors.thy ===== *)
theory Errors
  imports Contract
begin

text \<open>
  The error types of the storage layer (\<open>runtime.rs\<close>) and of the consumer (\<open>syncd/error.rs\<close>), with the
  retry classification.  Constructors that carry only a text carry nothing here.
\<close>

datatype storage_error =
    MissingHome | MissingPgConfig | StorageLockBusy | AdvisoryLockBusy | ApplyLockBusy
  | MissingExtensionAssets | Command | PostgresStart | PostgresStop | Psql | SchemaVersionAhead
  | MigrationPlan | ExtensionPrivilege | Projection | DenseRebuild | Retrieval | IngestAccounting
  | OutboxError | GenerationsError | PackageCatalogError | StorageJson | PostgresClient | StorageIo

datatype sync_error =
    Storage storage_error
  | SyncIo
  | SyncJson
  | SyncPostgres
  | Reject reject_code
  | LockBusy

fun is_retryable :: "sync_error \<Rightarrow> bool" where
  "is_retryable LockBusy = True"
| "is_retryable (Storage ApplyLockBusy) = True"
| "is_retryable (Storage AdvisoryLockBusy) = True"
| "is_retryable (Storage StorageLockBusy) = True"
| "is_retryable SyncIo = True"
| "is_retryable _ = False"

lemma is_retryable_iff:
  "is_retryable e \<longleftrightarrow>
     e \<in> {LockBusy, Storage ApplyLockBusy, Storage AdvisoryLockBusy, Storage StorageLockBusy, SyncIo}"
  by (cases e rule: is_retryable.cases) auto

lemma reject_not_retryable [simp]: "\<not> is_retryable (Reject c)"
  by simp

end
