(* ===== verification/Planner.thy ===== *)
theory Planner
  imports Manifest Errors
begin

text \<open>
  The size-driven catch-up planner of \<open>jurisearch-syncd\<close> (\<open>planner.rs\<close>): from a verified remote
  manifest and the local cursor to an incremental chain, a fresh baseline or a refusal; fetching and
  verifying the remote manifest; resolving artifact addresses under the published root.
\<close>

section \<open>The cursor and the plan\<close>

definition client_version :: version where
  "client_version = Version 0 1 0"

definition current_schema_version :: int where
  "current_schema_version = 24"

text \<open>
  \<open>builder_versions\<close> is the parsed JSON of the cursor row: an object is the sorted list of its entries
  (\<open>serde_json\<close>'s map is a \<open>BTreeMap\<close> in this workspace), so JSON equality is equality.
\<close>

record client_cursor =
  cc_corpus :: string
  cc_sequence :: u64
  cc_active_generation :: string
  cc_baseline_id :: string
  cc_schema_version :: int
  cc_embedding_fingerprint :: string
  cc_builder_versions :: json
  cc_last_package_id :: "string option"
  cc_last_package_digest :: "string option"

datatype catchup_plan =
    UpToDate
  | FreshBaseline baseline_ref
  | IncrementalChain "remote_package_entry list"
  | Blocked reject_code

definition check_manifest_corpus :: "remote_manifest \<Rightarrow> string \<Rightarrow> (unit, sync_error) result" where
  "check_manifest_corpus manifest corpus =
     (if corpus_as_str (rm_corpus manifest) \<noteq> corpus then Inl (Reject WrongGeneration) else Inr ())"

definition baseline_compat_or_blocked :: "baseline_ref \<Rightarrow> catchup_plan" where
  "baseline_compat_or_blocked baseline =
     (if \<not> satisfies_minimum client_version (br_minimum_client_version baseline) then Blocked ClientTooOld
      else if br_schema_version baseline > current_schema_version then Blocked SchemaAhead
      else FreshBaseline baseline)"

definition installed_baseline_or_blocked :: "baseline_ref \<Rightarrow> client_cursor \<Rightarrow> catchup_plan" where
  "installed_baseline_or_blocked baseline cursor =
     (if br_package_kind baseline \<noteq> Rebaseline then Blocked BaselineRequired
      else if ps_get (br_sequence baseline) \<le> cc_sequence cursor then Blocked BaselineRequired
      else baseline_compat_or_blocked baseline)"

text \<open>The loop of \<open>build_chain\<close>, from its current sequence.\<close>

function build_chain :: "remote_manifest \<Rightarrow> u64 \<Rightarrow> u64 \<Rightarrow> remote_package_entry list option" where
  "build_chain manifest current to =
     (if current < to then
        (case filter (\<lambda>p. ps_get (re_from_sequence p) = current) (rm_packages manifest) of
           [] \<Rightarrow> None
         | entry # others \<Rightarrow>
             if others \<noteq> [] then None
             else if ps_get (re_to_sequence entry) \<noteq> current + 1 then None
             else map_option (Cons entry) (build_chain manifest (ps_get (re_to_sequence entry)) to))
      else if current = to then Some [] else None)"
  by pat_completeness auto
termination
proof (relation "measure (\<lambda>(m, current, to). unat to - unat current)")
  fix manifest current to entry
  assume "current < to" "\<not> ps_get (re_to_sequence entry) \<noteq> current + 1"
  then show "((manifest, ps_get (re_to_sequence entry), to), manifest, current, to)
      \<in> measure (\<lambda>(m, current, to). unat to - unat current)"
    using word_less_imp_Suc_le [of current to] by (simp add: word_less_nat_alt)
qed simp

declare build_chain.simps [simp del]

definition requires_baseline_range :: "remote_manifest \<Rightarrow> u64 \<Rightarrow> bool" where
  "requires_baseline_range manifest seq \<longleftrightarrow>
     list_ex (\<lambda>r. cr_mode r = RequiresBaseline \<and> ps_get (cr_from_sequence r) \<le> seq
       \<and> (case cr_to_sequence r of None \<Rightarrow> False | Some to \<Rightarrow> seq \<le> ps_get to))
       (rm_catchup_ranges manifest)"

definition saturating_mul :: "u128 \<Rightarrow> u128 \<Rightarrow> u128" where
  "saturating_mul a b = (if uint a * uint b < 2 ^ 128 then a * b else - 1)"

definition ratio_exceeds :: "u128 \<Rightarrow> u128 \<Rightarrow> u32 \<Rightarrow> bool" where
  "ratio_exceeds cumulative baseline permille =
     (if baseline = 0 then cumulative > 0
      else saturating_mul cumulative 1000 > saturating_mul baseline (ucast permille))"

definition prefer_baseline :: "remote_manifest \<Rightarrow> client_cursor \<Rightarrow> remote_package_entry list \<Rightarrow> bool" where
  "prefer_baseline manifest cursor chain =
     (let policy = rm_catchup_policy manifest in
      if list_ex re_requires_baseline chain then True
      else if list_ex (\<lambda>e. re_embedding_fingerprint e \<noteq> cc_embedding_fingerprint cursor
             \<or> json_of_string_map (re_builder_versions e) \<noteq> cc_builder_versions cursor) chain then True
      else if length chain > unat (cp_max_incremental_packages policy) then True
      else
        let cum_compressed = sum_list (map (\<lambda>e. ucast (re_compressed_size_bytes e) :: u128) chain) in
        if ratio_exceeds cum_compressed (ucast (br_compressed_size_bytes (rm_active_baseline manifest)))
             (cp_max_diff_permille policy) then True
        else
          let cum_uncompressed = sum_list (map (\<lambda>e. ucast (re_uncompressed_size_bytes e) :: u128) chain) in
          if ratio_exceeds cum_uncompressed (ucast (br_uncompressed_size_bytes (rm_active_baseline manifest)))
               (cp_max_uncompressed_permille policy) then True
          else
            let cum_apply = sum_list (map (\<lambda>e. ucast (re_estimated_apply_seconds e) :: u64) chain) in
            if cum_apply > ucast (cp_max_apply_seconds_budget policy) then True
            else if cum_apply > ucast (br_estimated_load_seconds (rm_active_baseline manifest)) then True
            else False)"

definition plan_catchup :: "remote_manifest \<Rightarrow> client_cursor option \<Rightarrow> catchup_plan" where
  "plan_catchup manifest cursor =
     (let head = ps_get (rm_head_sequence manifest); baseline = rm_active_baseline manifest in
      if ps_get (br_sequence baseline) > head then Blocked WrongGeneration
      else case cursor of
        None \<Rightarrow> baseline_compat_or_blocked baseline
      | Some cursor \<Rightarrow>
          if cc_sequence cursor = head then UpToDate
          else if cc_sequence cursor > head then Blocked WrongGeneration
          else if requires_baseline_for manifest (PackageSequence (cc_sequence cursor))
          then installed_baseline_or_blocked baseline cursor
          else case build_chain manifest (cc_sequence cursor) head of
            None \<Rightarrow> installed_baseline_or_blocked baseline cursor
          | Some chain \<Rightarrow>
              if requires_baseline_range manifest (cc_sequence cursor)
              then installed_baseline_or_blocked baseline cursor
              else if list_ex (\<lambda>e. \<not> satisfies_minimum client_version (re_minimum_client_version e)) chain
              then Blocked ClientTooOld
              else if list_ex (\<lambda>e. re_schema_version e > current_schema_version) chain
              then (case installed_baseline_or_blocked baseline cursor of
                      FreshBaseline b \<Rightarrow> FreshBaseline b
                    | _ \<Rightarrow> Blocked SchemaAhead)
              else if prefer_baseline manifest cursor chain
              then installed_baseline_or_blocked baseline cursor
              else IncrementalChain chain)"

section \<open>The remote manifest and the artifact source\<close>

definition fetch_verify_manifest ::
  "(string \<Rightarrow> (remote_manifest signed, sync_error) result) \<Rightarrow> verifier \<Rightarrow> remote_manifest codec \<Rightarrow>
   string \<Rightarrow> (remote_manifest, sync_error) result" where
  "fetch_verify_manifest fetch_manifest verifier cd corpus =
     and_then (fetch_manifest corpus) (\<lambda>signed.
     and_then (map_err (\<lambda>_. Reject SignatureInvalid) (signed_verify verifier cd signed)) (\<lambda>_.
     and_then (check_manifest_corpus (sd_payload signed) corpus) (\<lambda>_.
     Inr (sd_payload signed))))"

text \<open>
  \<open>Path::components\<close> on a Unix path: a leading \<open>/\<close> is the root; empty pieces and every \<open>.\<close> but a
  leading one disappear.
\<close>

datatype path_component = RootDir | CurDir | ParentDir | NormalComponent string

definition piece_component :: "string \<Rightarrow> path_component list" where
  "piece_component p =
     (if p = '''' \<or> p = ''.'' then [] else if p = ''..'' then [ParentDir] else [NormalComponent p])"

definition path_components :: "string \<Rightarrow> path_component list" where
  "path_components path =
     (let pieces = split_on CHR ''/'' path
      in (case path of c # _ \<Rightarrow> if c = CHR ''/'' then [RootDir] else [] | [] \<Rightarrow> [])
         @ (case pieces of p # _ \<Rightarrow> if p = ''.'' then [CurDir] else [] | [] \<Rightarrow> [])
         @ concat (map piece_component pieces))"

text \<open>\<open>Path::join\<close>: an absolute argument replaces the path.\<close>

definition path_join :: "string \<Rightarrow> string \<Rightarrow> string" where
  "path_join root rel =
     (if RootDir \<in> set (path_components rel) then rel
      else if root = [] \<or> last root = CHR ''/'' then root @ rel
      else root @ ''/'' @ rel)"

fun is_normal :: "path_component \<Rightarrow> bool" where
  "is_normal (NormalComponent _) = True"
| "is_normal _ = False"

record directory_source =
  ds_root :: string
  ds_uri_base :: string

definition resolve :: "directory_source \<Rightarrow> string \<Rightarrow> (string, sync_error) result" where
  "resolve ds artifact_uri =
     and_then (ok_or (strip_prefix artifact_uri (ds_uri_base ds)) (Reject DigestMismatch)) (\<lambda>relative.
     and_then (ensure (list_all is_normal (path_components relative)) (Reject DigestMismatch)) (\<lambda>_.
     Inr (path_join (ds_root ds) relative)))"

definition ds_fetch_baseline :: "directory_source \<Rightarrow> baseline_ref \<Rightarrow> (string, sync_error) result" where
  "ds_fetch_baseline ds baseline = resolve ds (br_artifact_uri baseline)"

definition ds_fetch_package :: "directory_source \<Rightarrow> remote_package_entry \<Rightarrow> (string, sync_error) result" where
  "ds_fetch_package ds entry = resolve ds (re_artifact_uri entry)"

definition ds_fetch_manifest ::
  "(string \<Rightarrow> string option) \<Rightarrow> (string \<Rightarrow> remote_manifest signed option) \<Rightarrow> directory_source \<Rightarrow> string \<Rightarrow>
   (remote_manifest signed, sync_error) result" where
  "ds_fetch_manifest read_file from_slice ds corpus =
     and_then (ok_or (read_file (path_join (path_join (ds_root ds) corpus) ''manifest.json'')) SyncIo) (\<lambda>bytes.
     ok_or (from_slice bytes) SyncJson)"

section \<open>The chain loop\<close>

text \<open>
  A chain from a sequence: its \<open>i\<close>-th entry is the only entry of the manifest that leaves
  \<open>from + i\<close>, and it leads to \<open>from + i + 1\<close>.
\<close>

fun linked_chain :: "remote_manifest \<Rightarrow> u64 \<Rightarrow> remote_package_entry list \<Rightarrow> bool" where
  "linked_chain m current [] = True"
| "linked_chain m current (e # es) =
     (filter (\<lambda>p. ps_get (re_from_sequence p) = current) (rm_packages m) = [e]
      \<and> ps_get (re_to_sequence e) = current + 1 \<and> linked_chain m (current + 1) es)"

lemma build_chain_step:
  assumes "current < to"
  shows "build_chain m current to = Some chain \<longleftrightarrow>
    (\<exists>e es. chain = e # es
       \<and> filter (\<lambda>p. ps_get (re_from_sequence p) = current) (rm_packages m) = [e]
       \<and> ps_get (re_to_sequence e) = current + 1
       \<and> build_chain m (current + 1) to = Some es)"
  using assms by (subst build_chain.simps) (auto split: list.splits)

lemma build_chain_iff:
  "build_chain m current to = Some chain \<longleftrightarrow>
     unat current + length chain = unat to \<and> linked_chain m current chain"
proof (induction chain arbitrary: current)
  case Nil
  show ?case
  proof (cases "current < to")
    case True
    then show ?thesis using build_chain_step [OF True] by (auto simp: word_less_nat_alt)
  next
    case False
    then show ?thesis by (subst build_chain.simps) (auto simp: word_unat_eq_iff)
  qed
next
  case (Cons e es)
  show ?case
  proof (cases "current < to")
    case True
    then show ?thesis
      using build_chain_step [OF True] Cons.IH [of "current + 1"] word_less_imp_Suc_le [OF True] by auto
  next
    case False
    then show ?thesis by (subst build_chain.simps) (auto simp: word_less_nat_alt)
  qed
qed

lemma linked_chain_nth:
  "linked_chain m current chain \<Longrightarrow> i < length chain \<Longrightarrow>
     chain ! i \<in> set (rm_packages m)
     \<and> ps_get (re_from_sequence (chain ! i)) = current + of_nat i
     \<and> ps_get (re_to_sequence (chain ! i)) = current + of_nat i + 1"
proof (induction chain arbitrary: current i)
  case (Cons e es)
  have e: "e \<in> set (rm_packages m) \<and> ps_get (re_from_sequence e) = current"
    using Cons.prems(1) filter_eq_ConsD by force
  with Cons show ?case by (cases i) (auto simp: algebra_simps)
qed simp

section \<open>The size and cost policy\<close>

lemma unat_sum_list_bounded:
  fixes f :: "'b \<Rightarrow> 'a::len word"
  assumes "\<forall>x\<in>set xs. unat (f x) \<le> B" "length xs * B < 2 ^ LENGTH('a)"
  shows "unat (sum_list (map f xs)) = sum_list (map (\<lambda>x. unat (f x)) xs)
     \<and> sum_list (map (\<lambda>x. unat (f x)) xs) \<le> length xs * B"
  using assms
proof (induction xs)
  case (Cons x xs)
  then have IH: "unat (sum_list (map f xs)) = sum_list (map (\<lambda>x. unat (f x)) xs)"
    "sum_list (map (\<lambda>x. unat (f x)) xs) \<le> length xs * B"
    by auto
  have "unat (f x) + sum_list (map (\<lambda>x. unat (f x)) xs) \<le> Suc (length xs) * B"
    using IH(2) Cons.prems(1) by auto
  with Cons.prems(2) IH show ?case by (simp add: unat_word_ariths)
qed simp

lemma unat_saturating_mul:
  assumes "unat a * unat b < 2 ^ 128"
  shows "unat (saturating_mul a b) = unat a * unat b"
proof -
  have "uint a * uint b = int (unat a * unat b)" by simp
  also have "\<dots> < int (2 ^ 128)" using assms by (simp only: of_nat_less_iff)
  finally have "uint a * uint b < 2 ^ 128" by simp
  then show ?thesis using assms by (simp add: saturating_mul_def unat_word_ariths)
qed

lemma unat_u64_bound: "unat (w::u64) < 2 ^ 64"
  using unsigned_less [of w, where 'a = nat] by simp

lemma unat_u32_bound: "unat (w::u32) < 2 ^ 32"
  using unsigned_less [of w, where 'a = nat] by simp

lemma unat_ucast_wider [simp]:
  "unat (ucast (w::u64) :: u128) = unat w"
  "unat (ucast (v::u32) :: u128) = unat v"
  "unat (ucast (v::u32) :: u64) = unat v"
  using unat_u64_bound [of w] unat_u32_bound [of v]
  by (simp_all add: unsigned_ucast_eq take_bit_nat_eq_self)

text \<open>The comparison of the ratio in exact arithmetic.\<close>

definition ratio_above :: "nat \<Rightarrow> nat \<Rightarrow> nat \<Rightarrow> bool" where
  "ratio_above cumulative baseline permille \<longleftrightarrow>
     (if baseline = 0 then cumulative > 0 else cumulative * 1000 > baseline * permille)"

lemma ratio_exceeds_exact:
  assumes "unat c \<le> 2 ^ 96" "unat b < 2 ^ 64"
  shows "ratio_exceeds c b p \<longleftrightarrow> ratio_above (unat c) (unat b) (unat p)"
proof -
  have "unat c * 1000 < 2 ^ 128" using assms(1) by simp
  then have c: "unat (saturating_mul c 1000) = unat c * 1000"
    using unat_saturating_mul [of c 1000] by simp
  have "unat b * unat p < 2 ^ 64 * 2 ^ 32"
    using assms(2) unat_u32_bound [of p] by (intro mult_strict_mono) simp_all
  then have b: "unat (saturating_mul b (ucast p)) = unat b * unat p"
    using unat_saturating_mul [of b "ucast p"] by simp
  show ?thesis
    using c b by (simp add: ratio_exceeds_def ratio_above_def word_less_nat_alt unat_eq_zero)
qed

text \<open>The whole policy in exact arithmetic, as the design states it: any one reason prefers a baseline.\<close>

definition exact_total :: "('b \<Rightarrow> 'a::len word) \<Rightarrow> 'b list \<Rightarrow> nat" where
  "exact_total f xs = sum_list (map (\<lambda>x. unat (f x)) xs)"

definition baseline_preferred :: "remote_manifest \<Rightarrow> client_cursor \<Rightarrow> remote_package_entry list \<Rightarrow> bool" where
  "baseline_preferred manifest cursor chain \<longleftrightarrow>
     (let policy = rm_catchup_policy manifest; baseline = rm_active_baseline manifest in
      (\<exists>e\<in>set chain. re_requires_baseline e)
      \<or> (\<exists>e\<in>set chain. re_embedding_fingerprint e \<noteq> cc_embedding_fingerprint cursor)
      \<or> (\<exists>e\<in>set chain. json_of_string_map (re_builder_versions e) \<noteq> cc_builder_versions cursor)
      \<or> length chain > unat (cp_max_incremental_packages policy)
      \<or> ratio_above (exact_total re_compressed_size_bytes chain) (unat (br_compressed_size_bytes baseline))
          (unat (cp_max_diff_permille policy))
      \<or> ratio_above (exact_total re_uncompressed_size_bytes chain) (unat (br_uncompressed_size_bytes baseline))
          (unat (cp_max_uncompressed_permille policy))
      \<or> exact_total re_estimated_apply_seconds chain > unat (cp_max_apply_seconds_budget policy)
      \<or> exact_total re_estimated_apply_seconds chain > unat (br_estimated_load_seconds baseline))"

lemma unat_sum_u64s:
  fixes f :: "'b \<Rightarrow> u64"
  assumes "length xs < 2 ^ 32"
  shows "unat (sum_list (map (\<lambda>x. ucast (f x) :: u128) xs)) = exact_total f xs \<and> exact_total f xs \<le> 2 ^ 96"
proof -
  have b: "unat (f x) \<le> 2 ^ 64" for x using unat_u64_bound [of "f x"] by simp
  have l: "length xs * 2 ^ 64 \<le> 2 ^ 32 * 2 ^ 64" using assms by (intro mult_le_mono1) simp
  have l': "length xs * 2 ^ 64 < 2 ^ LENGTH(128)" using l by simp
  show ?thesis
    using unat_sum_list_bounded [OF _ l', of "\<lambda>x. ucast (f x)"] b l by (simp add: exact_total_def)
qed

lemma unat_sum_u32s:
  fixes f :: "'b \<Rightarrow> u32"
  assumes "length xs < 2 ^ 32"
  shows "unat (sum_list (map (\<lambda>x. ucast (f x) :: u64) xs)) = exact_total f xs"
proof -
  have b: "unat (f x) \<le> 2 ^ 32 - 1" for x using unat_u32_bound [of "f x"] by simp
  have "length xs * (2 ^ 32 - 1) \<le> 2 ^ 32 * (2 ^ 32 - 1)" using assms by (intro mult_le_mono1) simp
  then have l: "length xs * (2 ^ 32 - 1) < 2 ^ LENGTH(64)" by simp
  show ?thesis
    using unat_sum_list_bounded [OF _ l, of "\<lambda>x. ucast (f x)"] b by (simp add: exact_total_def)
qed

lemma prefer_baseline_iff:
  "prefer_baseline manifest cursor chain = baseline_preferred manifest cursor chain"
proof (cases "length chain > unat (cp_max_incremental_packages (rm_catchup_policy manifest))")
  case True
  then show ?thesis
    by (auto simp: prefer_baseline_def baseline_preferred_def list_ex_iff Let_def)
next
  case False
  then have len: "length chain < 2 ^ 32"
    using unat_u32_bound [of "cp_max_incremental_packages (rm_catchup_policy manifest)"] by linarith
  have compressed: "ratio_exceeds (sum_list (map (\<lambda>e. ucast (f e) :: u128) chain)) (ucast b) p
      \<longleftrightarrow> ratio_above (exact_total f chain) (unat b) (unat p)" for f :: "remote_package_entry \<Rightarrow> u64" and b :: u64 and p
    using unat_sum_u64s [OF len, of f] unat_u64_bound [of b] by (subst ratio_exceeds_exact) simp_all
  have seconds: "sum_list (map (\<lambda>e. ucast (re_estimated_apply_seconds e) :: u64) chain) > ucast b
      \<longleftrightarrow> exact_total re_estimated_apply_seconds chain > unat b" for b :: u32
    using unat_sum_u32s [OF len, of re_estimated_apply_seconds] by (simp add: word_less_nat_alt)
  show ?thesis
    using False
    by (auto simp: prefer_baseline_def baseline_preferred_def list_ex_iff Let_def compressed seconds)
qed

text \<open>
  C31.  The fixed-width policy computes the exact one: for every manifest, cursor and chain, the sums
  in \<open>u128\<close> and \<open>u64\<close> and the saturating products decide exactly as unbounded arithmetic would.  The
  order of the tests is what makes this so: the chain-length cap (a \<open>u32\<close>) is tested before the sums
  are taken.
\<close>

theorem prefer_baseline_exact:
  "prefer_baseline manifest cursor chain = baseline_preferred manifest cursor chain"
  by (rule prefer_baseline_iff)

section \<open>What a plan promises\<close>

lemma baseline_compat_cases:
  "baseline_compat_or_blocked b = FreshBaseline b' \<longleftrightarrow>
     b' = b \<and> br_minimum_client_version b \<le> client_version \<and> br_schema_version b \<le> current_schema_version"
  "baseline_compat_or_blocked b \<noteq> UpToDate"
  "baseline_compat_or_blocked b \<noteq> IncrementalChain es"
  by (auto simp: baseline_compat_or_blocked_def satisfies_minimum_def)

lemma installed_baseline_cases:
  "installed_baseline_or_blocked b c = FreshBaseline b' \<longleftrightarrow>
     b' = b \<and> br_package_kind b = Rebaseline \<and> cc_sequence c < ps_get (br_sequence b)
     \<and> br_minimum_client_version b \<le> client_version \<and> br_schema_version b \<le> current_schema_version"
  "installed_baseline_or_blocked b c \<noteq> UpToDate"
  "installed_baseline_or_blocked b c \<noteq> IncrementalChain es"
  by (auto simp: installed_baseline_or_blocked_def baseline_compat_cases not_le)

lemmas plan_cases = baseline_compat_cases installed_baseline_cases

lemma plan_chain_iff:
  "plan_catchup manifest (Some cursor) = IncrementalChain chain \<longleftrightarrow>
     br_sequence (rm_active_baseline manifest) \<le> rm_head_sequence manifest
     \<and> cc_sequence cursor < ps_get (rm_head_sequence manifest)
     \<and> ps_get (rm_min_available_sequence manifest) \<le> cc_sequence cursor
     \<and> unat (cc_sequence cursor) + length chain = unat (ps_get (rm_head_sequence manifest))
     \<and> linked_chain manifest (cc_sequence cursor) chain
     \<and> \<not> requires_baseline_range manifest (cc_sequence cursor)
     \<and> list_all (\<lambda>e. re_minimum_client_version e \<le> client_version
          \<and> re_schema_version e \<le> current_schema_version) chain
     \<and> \<not> baseline_preferred manifest cursor chain"
  (is "?L \<longleftrightarrow> ?R")
proof -
  let ?h = "ps_get (rm_head_sequence manifest)" and ?c = "cc_sequence cursor"
  have chain: "build_chain manifest ?c ?h = Some chain \<longleftrightarrow>
      unat ?c + length chain = unat ?h \<and> linked_chain manifest ?c chain"
    by (rule build_chain_iff)
  show ?thesis
  proof (cases "build_chain manifest ?c ?h")
    case None
    then have "\<not> ?R" using chain by auto
    moreover have "\<not> ?L"
      using None by (auto simp: plan_catchup_def Let_def plan_cases)
    ultimately show ?thesis by blast
  next
    case (Some es)
    then have eq: "(unat ?c + length chain = unat ?h \<and> linked_chain manifest ?c chain) \<longleftrightarrow> es = chain"
      using chain by simp
    have "?L \<longleftrightarrow> es = chain
        \<and> br_sequence (rm_active_baseline manifest) \<le> rm_head_sequence manifest
        \<and> ?c < ?h \<and> ps_get (rm_min_available_sequence manifest) \<le> ?c
        \<and> \<not> requires_baseline_range manifest ?c
        \<and> list_all (\<lambda>e. re_minimum_client_version e \<le> client_version
             \<and> re_schema_version e \<le> current_schema_version) chain
        \<and> \<not> baseline_preferred manifest cursor chain"
      unfolding prefer_baseline_iff [symmetric]
      using Some
      by (auto simp: plan_catchup_def Let_def plan_cases list_ex_iff list_all_iff satisfies_minimum_def not_le not_less
          requires_baseline_for_def less_package_sequence_def less_eq_package_sequence_def
          split: if_splits catchup_plan.splits)
    then show ?thesis using eq by blast
  qed
qed

text \<open>
  C22.  The planner returns an incremental chain exactly when one is due and everything about it holds:
  the client is behind the head but inside the retained window, the chain is the gap-free and
  unambiguous \<open>+1\<close> path from the cursor to the head, no signed routing range demands a baseline, this
  binary satisfies every entry's minimum version and schema, and the exact policy does not prefer a
  baseline.
\<close>

theorem plan_incremental_iff:
  "plan_catchup manifest (Some cursor) = IncrementalChain chain \<longleftrightarrow>
     br_sequence (rm_active_baseline manifest) \<le> rm_head_sequence manifest
     \<and> cc_sequence cursor < ps_get (rm_head_sequence manifest)
     \<and> ps_get (rm_min_available_sequence manifest) \<le> cc_sequence cursor
     \<and> unat (cc_sequence cursor) + length chain = unat (ps_get (rm_head_sequence manifest))
     \<and> linked_chain manifest (cc_sequence cursor) chain
     \<and> \<not> requires_baseline_range manifest (cc_sequence cursor)
     \<and> list_all (\<lambda>e. re_minimum_client_version e \<le> client_version
          \<and> re_schema_version e \<le> current_schema_version) chain
     \<and> \<not> baseline_preferred manifest cursor chain"
  by (rule plan_chain_iff)

text \<open>The sequence a plan leads to.\<close>

fun plan_target :: "remote_manifest \<Rightarrow> catchup_plan \<Rightarrow> u64 option" where
  "plan_target m (FreshBaseline b) = Some (ps_get (br_sequence b))"
| "plan_target m (IncrementalChain es) = Some (ps_get (rm_head_sequence m))"
| "plan_target m UpToDate = None"
| "plan_target m (Blocked code) = None"

lemma plan_fresh_baseline:
  assumes "plan_catchup m (Some c) = FreshBaseline b"
  shows "b = rm_active_baseline m \<and> br_package_kind b = Rebaseline
    \<and> cc_sequence c < ps_get (br_sequence b) \<and> br_sequence b \<le> rm_head_sequence m
    \<and> br_minimum_client_version b \<le> client_version \<and> br_schema_version b \<le> current_schema_version"
  using assms
  by (auto simp: plan_catchup_def Let_def plan_cases not_less less_eq_package_sequence_def
      split: if_splits option.splits catchup_plan.splits)

lemma plan_forward:
  assumes "plan_catchup manifest (Some cursor) = plan"
  shows "(plan = UpToDate \<longleftrightarrow> br_sequence (rm_active_baseline manifest) \<le> rm_head_sequence manifest
            \<and> cc_sequence cursor = ps_get (rm_head_sequence manifest))
    \<and> (case plan_target manifest plan of None \<Rightarrow> True
        | Some target \<Rightarrow> cc_sequence cursor < target \<and> target \<le> ps_get (rm_head_sequence manifest))
    \<and> (case plan of FreshBaseline b \<Rightarrow> b = rm_active_baseline manifest \<and> br_package_kind b = Rebaseline
        \<and> satisfies_minimum client_version (br_minimum_client_version b)
        \<and> br_schema_version b \<le> current_schema_version | _ \<Rightarrow> True)"
proof (intro conjI)
  show "plan = UpToDate \<longleftrightarrow> br_sequence (rm_active_baseline manifest) \<le> rm_head_sequence manifest
            \<and> cc_sequence cursor = ps_get (rm_head_sequence manifest)"
    unfolding assms [symmetric]
    by (auto simp: plan_catchup_def Let_def plan_cases not_less less_eq_package_sequence_def
        split: option.splits catchup_plan.splits)
  show "case plan_target manifest plan of None \<Rightarrow> True
        | Some target \<Rightarrow> cc_sequence cursor < target \<and> target \<le> ps_get (rm_head_sequence manifest)"
  proof (cases plan)
    case (FreshBaseline b)
    with plan_fresh_baseline [of manifest cursor b] assms show ?thesis
      by (auto simp: less_eq_package_sequence_def)
  next
    case (IncrementalChain es)
    have "cc_sequence cursor < ps_get (rm_head_sequence manifest)"
      using assms unfolding IncrementalChain
      by (auto simp: plan_catchup_def Let_def plan_cases
          split: if_splits option.splits catchup_plan.splits)
    with IncrementalChain show ?thesis by simp
  qed simp_all
  show "case plan of FreshBaseline b \<Rightarrow> b = rm_active_baseline manifest \<and> br_package_kind b = Rebaseline
        \<and> satisfies_minimum client_version (br_minimum_client_version b)
        \<and> br_schema_version b \<le> current_schema_version | _ \<Rightarrow> True"
    using plan_fresh_baseline [of manifest cursor] assms
    by (auto simp: satisfies_minimum_def split: catchup_plan.splits)
qed

text \<open>
  C23.  A plan for an installed client only ever moves forward and never past the published head: it
  does nothing exactly when the client is at the head of a well-formed manifest, and any other
  non-refusing plan leads to a sequence strictly above the cursor and at most the head.  A media plan
  is the active baseline, a re-baseline this binary can apply.
\<close>

theorem plan_moves_forward:
  "let plan = plan_catchup manifest (Some cursor) in
    (plan = UpToDate \<longleftrightarrow> br_sequence (rm_active_baseline manifest) \<le> rm_head_sequence manifest
            \<and> cc_sequence cursor = ps_get (rm_head_sequence manifest))
    \<and> (case plan_target manifest plan of None \<Rightarrow> True
        | Some target \<Rightarrow> cc_sequence cursor < target \<and> target \<le> ps_get (rm_head_sequence manifest))
    \<and> (case plan of FreshBaseline b \<Rightarrow> b = rm_active_baseline manifest \<and> br_package_kind b = Rebaseline
        \<and> satisfies_minimum client_version (br_minimum_client_version b)
        \<and> br_schema_version b \<le> current_schema_version | _ \<Rightarrow> True)"
  unfolding Let_def by (rule plan_forward) simp

section \<open>Resolving an address never leaves the root\<close>

lemma path_components_normal:
  assumes "list_all is_normal (path_components rel)"
  shows "''..'' \<notin> set (split_on CHR ''/'' rel)" "RootDir \<notin> set (path_components rel)"
proof -
  have "set (piece_component p) \<subseteq> set (path_components rel)" if "p \<in> set (split_on CHR ''/'' rel)" for p
    using that by (auto simp: path_components_def Let_def)
  then show "''..'' \<notin> set (split_on CHR ''/'' rel)"
    using assms by (fastforce simp: list_all_iff piece_component_def)
  show "RootDir \<notin> set (path_components rel)"
    using assms by (auto simp: list_all_iff)
qed

lemma split_on_append_sep: "split_on c (p @ c # r) = split_on c p @ split_on c r"
proof (induction p)
  case (Cons x p)
  then show ?case by (cases "split_on c p") auto
qed simp

text \<open>
  C32.  An artifact address resolves only under the published root: the address carries the configured
  base, and the path found is the root followed by pieces none of which is \<open>..\<close>, so lexically it
  cannot leave the root (whose own pieces are a prefix of it).
\<close>

theorem resolve_stays_under_root:
  assumes "resolve ds artifact_uri = Inr path"
    and "ds_root ds \<noteq> []" and "last (ds_root ds) \<noteq> CHR ''/''"
  shows "\<exists>pieces. split_on CHR ''/'' path = split_on CHR ''/'' (ds_root ds) @ pieces
    \<and> ''..'' \<notin> set pieces \<and> artifact_uri = ds_uri_base ds @ join_with ''/'' pieces"
proof -
  from assms(1) obtain rel where rel: "artifact_uri = ds_uri_base ds @ rel"
    "list_all is_normal (path_components rel)" "path = path_join (ds_root ds) rel"
    by (auto simp: resolve_def and_then_eq_Inr ok_or_eq_Inr strip_prefix_eq)
  from path_components_normal [OF rel(2)] assms(2,3) rel(3)
  have "path = ds_root ds @ CHR ''/'' # rel" "''..'' \<notin> set (split_on CHR ''/'' rel)"
    by (auto simp: path_join_def)
  with rel(1) show ?thesis
    by (intro exI [of _ "split_on CHR ''/'' rel"]) (simp add: split_on_append_sep join_split)
qed

lemma resolve_stays_under_root_witness:
  "\<exists>pieces. split_on CHR ''/'' ''/srv/pub/core/packages/p1'' = split_on CHR ''/'' ''/srv/pub'' @ pieces
    \<and> ''..'' \<notin> set pieces \<and> ''https://x/core/packages/p1'' = ''https://x/'' @ join_with ''/'' pieces"
  using resolve_stays_under_root [of "\<lparr>ds_root = ''/srv/pub'', ds_uri_base = ''https://x/''\<rparr>"
      "''https://x/core/packages/p1''" "''/srv/pub/core/packages/p1''"]
  by (simp add: resolve_def path_components_def piece_component_def path_join_def)

end
