(* ===== verification/Actions.thy ===== *)
theory Actions
  imports Prelude
begin

text \<open>
  Stateful code as explicit state passing: an action takes the state and returns the new state and a
  result.  Outside a transaction an error keeps what was done before it; \<open>transaction\<close> rolls back.
  The frame predicate \<open>keeps\<close> and its rules carry the proofs that an operation leaves a part of the
  state alone.
\<close>

named_theorems action_simps \<open>inversion rules for actions\<close>
named_theorems keeps_intros \<open>frame rules for actions\<close>

type_synonym ('s, 'a, 'e) action = "'s \<Rightarrow> 's \<times> ('a, 'e) result"

definition ret :: "'a \<Rightarrow> ('s, 'a, 'e) action" where
  "ret a s = (s, Inr a)"

definition fail :: "'e \<Rightarrow> ('s, 'a, 'e) action" where
  "fail e s = (s, Inl e)"

definition bind_act :: "('s, 'a, 'e) action \<Rightarrow> ('a \<Rightarrow> ('s, 'b, 'e) action) \<Rightarrow> ('s, 'b, 'e) action" where
  "bind_act m f s = (case m s of (s', Inl e) \<Rightarrow> (s', Inl e) | (s', Inr a) \<Rightarrow> f a s')"

definition lift_res :: "('a, 'e) result \<Rightarrow> ('s, 'a, 'e) action" where
  "lift_res r s = (s, r)"

definition gets :: "('s \<Rightarrow> 'a) \<Rightarrow> ('s, 'a, 'e) action" where
  "gets f s = (s, Inr (f s))"

definition modify :: "('s \<Rightarrow> 's) \<Rightarrow> ('s, unit, 'e) action" where
  "modify f s = (f s, Inr ())"

definition check_act :: "bool \<Rightarrow> 'e \<Rightarrow> ('s, unit, 'e) action" where
  "check_act c e = lift_res (ensure c e)"

definition map_err_act :: "('e \<Rightarrow> 'f) \<Rightarrow> ('s, 'a, 'e) action \<Rightarrow> ('s, 'a, 'f) action" where
  "map_err_act g m s = (case m s of (s', r) \<Rightarrow> (s', map_err g r))"

text \<open>A statement: a function of the state that fails with no effect or returns the new state.\<close>

definition statement :: "('s \<Rightarrow> ('s \<times> 'a, 'e) result) \<Rightarrow> ('s, 'a, 'e) action" where
  "statement f s = (case f s of Inl e \<Rightarrow> (s, Inl e) | Inr (s', a) \<Rightarrow> (s', Inr a))"

text \<open>\<open>client.transaction() \<dots> tx.commit()\<close>: dropping the transaction on an error rolls it back.\<close>

definition transaction :: "('s, 'a, 'e) action \<Rightarrow> ('s, 'a, 'e) action" where
  "transaction m s = (case m s of (s', Inr a) \<Rightarrow> (s', Inr a) | (_, Inl e) \<Rightarrow> (s, Inl e))"

fun for_each :: "'x list \<Rightarrow> ('x \<Rightarrow> ('s, unit, 'e) action) \<Rightarrow> ('s, unit, 'e) action" where
  "for_each [] f = ret ()"
| "for_each (x # xs) f = bind_act (f x) (\<lambda>_. for_each xs f)"

text \<open>A loop with an accumulator.\<close>

fun fold_act :: "'x list \<Rightarrow> ('x \<Rightarrow> 'acc \<Rightarrow> ('s, 'acc, 'e) action) \<Rightarrow> 'acc \<Rightarrow> ('s, 'acc, 'e) action" where
  "fold_act [] f acc = ret acc"
| "fold_act (x # xs) f acc = bind_act (f x acc) (fold_act xs f)"

section \<open>Inversion\<close>

lemma ret_eq [action_simps]: "ret a s = (s', r) \<longleftrightarrow> s' = s \<and> r = Inr a"
  by (auto simp: ret_def)

lemma fail_eq [action_simps]: "fail e s = (s', r) \<longleftrightarrow> s' = s \<and> r = Inl e"
  by (auto simp: fail_def)

lemma lift_res_eq: "lift_res x s = (s', r) \<longleftrightarrow> s' = s \<and> r = x"
  by (auto simp: lift_res_def)

lemma lift_res_eq_Inr [action_simps]: "lift_res x s = (s', Inr a) \<longleftrightarrow> s' = s \<and> x = Inr a"
  by (auto simp: lift_res_def)

lemma lift_res_eq_Inl [action_simps]: "lift_res x s = (s', Inl e) \<longleftrightarrow> s' = s \<and> x = Inl e"
  by (auto simp: lift_res_def)

lemma gets_eq [action_simps]: "gets f s = (s', r) \<longleftrightarrow> s' = s \<and> r = Inr (f s)"
  by (auto simp: gets_def)

lemma modify_eq [action_simps]: "modify f s = (s', r) \<longleftrightarrow> s' = f s \<and> r = Inr ()"
  by (auto simp: modify_def)

lemma check_act_eq_Inr [action_simps]: "check_act c e s = (s', Inr u) \<longleftrightarrow> s' = s \<and> c"
  by (auto simp: check_act_def lift_res_def)

lemma check_act_eq_Inl [action_simps]: "check_act c e s = (s', Inl e') \<longleftrightarrow> s' = s \<and> \<not> c \<and> e' = e"
  by (auto simp: check_act_def lift_res_def)

lemma bind_act_eq_Inr [action_simps]:
  "bind_act m f s = (s', Inr b) \<longleftrightarrow> (\<exists>a s1. m s = (s1, Inr a) \<and> f a s1 = (s', Inr b))"
  by (auto simp: bind_act_def split: prod.splits sum.splits)

lemma bind_act_eq_Inl [action_simps]:
  "bind_act m f s = (s', Inl e) \<longleftrightarrow>
     m s = (s', Inl e) \<or> (\<exists>a s1. m s = (s1, Inr a) \<and> f a s1 = (s', Inl e))"
  by (auto simp: bind_act_def split: prod.splits sum.splits)

lemma map_err_act_eq_Inr [action_simps]:
  "map_err_act g m s = (s', Inr a) \<longleftrightarrow> m s = (s', Inr a)"
  by (auto simp: map_err_act_def map_err_eq_Inr split: prod.splits)

lemma map_err_act_eq_Inl [action_simps]:
  "map_err_act g m s = (s', Inl e) \<longleftrightarrow> (\<exists>e'. m s = (s', Inl e') \<and> e = g e')"
  by (auto simp: map_err_act_def map_err_eq_Inl split: prod.splits)

lemma statement_eq_Inr [action_simps]:
  "statement f s = (s', Inr a) \<longleftrightarrow> f s = Inr (s', a)"
  by (auto simp: statement_def split: sum.splits)

lemma statement_eq_Inl [action_simps]:
  "statement f s = (s', Inl e) \<longleftrightarrow> s' = s \<and> f s = Inl e"
  by (auto simp: statement_def split: sum.splits)

lemma transaction_eq_Inr [action_simps]:
  "transaction m s = (s', Inr a) \<longleftrightarrow> m s = (s', Inr a)"
  by (auto simp: transaction_def split: prod.splits sum.splits)

lemma transaction_eq_Inl [action_simps]:
  "transaction m s = (s', Inl e) \<longleftrightarrow> s' = s \<and> (\<exists>t. m s = (t, Inl e))"
  by (auto simp: transaction_def split: prod.splits sum.splits)

lemma transaction_atomic: "snd (transaction m s) = Inl e \<Longrightarrow> fst (transaction m s) = s"
  by (auto simp: transaction_def split: prod.splits sum.splits)

section \<open>Frames\<close>

text \<open>\<open>keeps R m\<close>: whatever \<open>m\<close> returns, it relates the state before and after by \<open>R\<close>.\<close>

definition keeps :: "('s \<Rightarrow> 's \<Rightarrow> bool) \<Rightarrow> ('s, 'a, 'e) action \<Rightarrow> bool" where
  "keeps R m \<longleftrightarrow> (\<forall>s. R s (fst (m s)))"

lemma keepsD: "keeps R m \<Longrightarrow> m s = (s', r) \<Longrightarrow> R s s'"
  by (metis keeps_def fst_conv)

lemma keeps_ret [keeps_intros]: "reflp R \<Longrightarrow> keeps R (ret a)"
  by (simp add: keeps_def ret_def reflp_def)

lemma keeps_fail [keeps_intros]: "reflp R \<Longrightarrow> keeps R (fail e)"
  by (simp add: keeps_def fail_def reflp_def)

lemma keeps_lift_res [keeps_intros]: "reflp R \<Longrightarrow> keeps R (lift_res r)"
  by (simp add: keeps_def lift_res_def reflp_def)

lemma keeps_check_act [keeps_intros]: "reflp R \<Longrightarrow> keeps R (check_act c e)"
  by (simp add: check_act_def keeps_lift_res)

lemma keeps_gets [keeps_intros]: "reflp R \<Longrightarrow> keeps R (gets f)"
  by (simp add: keeps_def gets_def reflp_def)

lemma keeps_modify: "(\<And>s. R s (f s)) \<Longrightarrow> keeps R (modify f)"
  by (simp add: keeps_def modify_def)

lemma keeps_statement:
  assumes "reflp R" "\<And>s s' a. f s = Inr (s', a) \<Longrightarrow> R s s'"
  shows "keeps R (statement f)"
  using assms by (auto simp: keeps_def statement_def reflp_def split: sum.splits)

lemma keeps_bind [keeps_intros]:
  assumes "transp R" "keeps R m" "\<And>a. keeps R (f a)"
  shows "keeps R (bind_act m f)"
  unfolding keeps_def
proof
  fix s
  obtain s1 r where m: "m s = (s1, r)" by (cases "m s")
  with assms(2) have "R s s1" by (simp add: keepsD)
  show "R s (fst (bind_act m f s))"
  proof (cases r)
    case (Inl e)
    with m \<open>R s s1\<close> show ?thesis by (simp add: bind_act_def)
  next
    case (Inr a)
    obtain s2 r2 where f: "f a s1 = (s2, r2)" by (cases "f a s1")
    with assms(3) have "R s1 s2" by (metis keepsD)
    with \<open>R s s1\<close> assms(1) have "R s s2" by (blast dest: transpD)
    with m Inr f show ?thesis by (simp add: bind_act_def)
  qed
qed

lemma keeps_map_err [keeps_intros]: "keeps R m \<Longrightarrow> keeps R (map_err_act g m)"
  by (auto simp: keeps_def map_err_act_def split: prod.splits) (metis fst_conv)

lemma keeps_transaction [keeps_intros]: "reflp R \<Longrightarrow> keeps R m \<Longrightarrow> keeps R (transaction m)"
  unfolding keeps_def
proof
  fix s
  assume "reflp R" "\<forall>s. R s (fst (m s))"
  then show "R s (fst (transaction m s))"
    by (cases "m s"; cases "snd (m s)") (auto simp: transaction_def reflp_def dest: spec [of _ s])
qed

lemma keeps_for_each [keeps_intros]:
  "reflp R \<Longrightarrow> transp R \<Longrightarrow> (\<And>x. keeps R (f x)) \<Longrightarrow> keeps R (for_each xs f)"
  by (induction xs) (auto intro: keeps_intros)

lemma keeps_fold_act [keeps_intros]:
  "reflp R \<Longrightarrow> transp R \<Longrightarrow> (\<And>x acc. keeps R (f x acc)) \<Longrightarrow> keeps R (fold_act xs f acc)"
  by (induction xs arbitrary: acc) (auto intro: keeps_intros)

lemma keeps_if [keeps_intros]: "keeps R m \<Longrightarrow> keeps R n \<Longrightarrow> keeps R (if c then m else n)"
  by simp

lemma keeps_case_option [keeps_intros]:
  "keeps R m \<Longrightarrow> (\<And>a. keeps R (n a)) \<Longrightarrow> keeps R (case x of None \<Rightarrow> m | Some a \<Rightarrow> n a)"
  by (cases x) simp_all

text \<open>The relation of agreeing on a projection of the state.\<close>

definition same :: "('s \<Rightarrow> 'p) \<Rightarrow> 's \<Rightarrow> 's \<Rightarrow> bool" where
  "same f s t \<longleftrightarrow> f t = f s"

lemma reflp_same [simp, keeps_intros]: "reflp (same f)"
  by (simp add: reflp_def same_def)

lemma transp_same [simp, keeps_intros]: "transp (same f)"
  by (auto simp: transp_def same_def)

section \<open>Triples\<close>

text \<open>From a state with \<open>P\<close>, the action ends in \<open>Q a\<close> with its value \<open>a\<close>, or in \<open>E\<close> with an error.\<close>

definition triple ::
  "('s \<Rightarrow> bool) \<Rightarrow> ('s, 'a, 'e) action \<Rightarrow> ('a \<Rightarrow> 's \<Rightarrow> bool) \<Rightarrow> ('s \<Rightarrow> bool) \<Rightarrow> bool" where
  "triple P m Q E \<longleftrightarrow> (\<forall>s. P s \<longrightarrow> (case m s of (s', Inl e) \<Rightarrow> E s' | (s', Inr a) \<Rightarrow> Q a s'))"

lemma tripleI:
  "(\<And>s s' a. P s \<Longrightarrow> m s = (s', Inr a) \<Longrightarrow> Q a s') \<Longrightarrow> (\<And>s s' e. P s \<Longrightarrow> m s = (s', Inl e) \<Longrightarrow> E s') \<Longrightarrow>
     triple P m Q E"
  by (auto simp: triple_def split: prod.splits sum.splits)

lemma triple_Inr: "triple P m Q E \<Longrightarrow> P s \<Longrightarrow> m s = (s', Inr a) \<Longrightarrow> Q a s'"
  by (auto simp: triple_def)

lemma triple_Inl: "triple P m Q E \<Longrightarrow> P s \<Longrightarrow> m s = (s', Inl e) \<Longrightarrow> E s'"
  by (auto simp: triple_def)

lemma triple_bind:
  assumes "triple P m R E" "\<And>a. triple (R a) (f a) Q E"
  shows "triple P (bind_act m f) Q E"
  using assms by (intro tripleI) (auto simp: bind_act_eq_Inr bind_act_eq_Inl dest: triple_Inr triple_Inl)

lemma triple_map_err: "triple P m Q E \<Longrightarrow> triple P (map_err_act g m) Q E"
  by (intro tripleI) (auto simp: map_err_act_eq_Inr map_err_act_eq_Inl dest: triple_Inr triple_Inl)

text \<open>A step that only looks at the state.\<close>

lemma triple_test:
  assumes "\<And>s. P s \<Longrightarrow> E s"
  shows "triple P (\<lambda>s. (s, f s)) (\<lambda>a s. P s \<and> f s = Inr a) E"
  using assms by (intro tripleI) auto

lemma triple_keeps:
  assumes "keeps R m" "\<And>s t. P s \<Longrightarrow> R s t \<Longrightarrow> P t" "\<And>s. P s \<Longrightarrow> E s"
  shows "triple P m (\<lambda>_. P) E"
  using assms by (intro tripleI) (blast dest: keepsD)+

end
