(* ===== verification/Database.thy ===== *)
theory Database
  imports Complex_Main Actions Errors Manifest
begin

text \<open>
  The database a client works on, as the SQL of the sources sees it: the replicated tables of each
  physical schema with their keys and foreign keys, the control tables (\<open>corpus_state\<close>,
  \<open>generation_registry\<close>, the trust tables), \<open>index_manifest\<close>, the stable views and the locks.  Each
  statement the code sends is a function here.  A row maps column names to JSON values (\<open>JNull\<close> is
  SQL's NULL); text orders bytewise.
\<close>

section \<open>Rows, keys and foreign keys\<close>

type_synonym row = "string \<Rightarrow> json"

datatype fk_action = Cascade | SetNull

record foreign_key =
  fk_table :: string
  fk_column :: string
  fk_ref_table :: string
  fk_ref_column :: string
  fk_on_delete :: fk_action

text \<open>An index as \<open>pg_index\<close>/\<open>pg_class\<close>/\<open>pg_am\<close> describe it.\<close>

record index_shape =
  is_access_method :: string
  is_table :: string
  is_indexed_column :: "string option"
  is_lists :: "string option"

text \<open>One physical schema: the rows of its tables, and what has been built over them.\<close>

record schema_tables =
  sch_rows :: "string \<Rightarrow> row list"
  sch_keyed :: "string list"
  sch_fks :: "foreign_key list"
  sch_indexes :: "(string \<times> index_shape) list"

definition replicated_tables :: "string list" where
  "replicated_tables = [''documents'', ''chunks'', ''chunk_embeddings'', ''graph_edges'',
     ''legi_metadata_roots'', ''zone_units'', ''zone_unit_embeddings'', ''decision_zones'',
     ''decision_legislation_citations'', ''legislation_citation_resolutions'', ''official_api_responses'']"

definition is_replicated_table :: "string \<Rightarrow> bool" where
  "is_replicated_table t \<longleftrightarrow> t \<in> set replicated_tables"

text \<open>
  The foreign keys among the replicated tables (\<open>migrations.rs\<close>), as \<open>public\<close> has them.
\<close>

definition fkey :: "string \<Rightarrow> string \<Rightarrow> string \<Rightarrow> string \<Rightarrow> fk_action \<Rightarrow> foreign_key" where
  "fkey t c rt rc a = \<lparr>fk_table = t, fk_column = c, fk_ref_table = rt, fk_ref_column = rc, fk_on_delete = a\<rparr>"

definition public_foreign_keys :: "foreign_key list" where
  "public_foreign_keys =
     [fkey ''chunks'' ''document_id'' ''documents'' ''document_id'' Cascade,
      fkey ''chunk_embeddings'' ''chunk_id'' ''chunks'' ''chunk_id'' Cascade,
      fkey ''graph_edges'' ''from_document_id'' ''documents'' ''document_id'' Cascade,
      fkey ''graph_edges'' ''to_document_id'' ''documents'' ''document_id'' Cascade,
      fkey ''decision_zones'' ''document_id'' ''documents'' ''document_id'' Cascade,
      fkey ''zone_units'' ''document_id'' ''documents'' ''document_id'' Cascade,
      fkey ''zone_unit_embeddings'' ''zone_unit_id'' ''zone_units'' ''zone_unit_id'' Cascade,
      fkey ''decision_legislation_citations'' ''decision_document_id'' ''documents'' ''document_id'' Cascade,
      fkey ''decision_legislation_citations'' ''source_response_id'' ''official_api_responses'' ''response_id'' Cascade,
      fkey ''legislation_citation_resolutions'' ''legifrance_response_id'' ''official_api_responses'' ''response_id'' SetNull]"

section \<open>The server and its catalog\<close>

text \<open>
  What is fixed while the client works: the shape of the \<open>public\<close> tables (non-generated columns in
  order, primary keys), the non-dense indexes of \<open>public\<close>, the applied schema version, extensions and
  server version; \<open>sv_table_ok\<close> is every per-table check of PostgreSQL beyond keys (types, NOT NULL,
  CHECK), \<open>sv_table_digest\<close> the md5 aggregate of a table's rows.
\<close>

record server =
  sv_columns :: "string \<Rightarrow> string list"
  sv_pk :: "string \<Rightarrow> string list"
  sv_indexes :: "string \<Rightarrow> (string \<times> index_shape) list"
  sv_constraint_count :: "string \<Rightarrow> u32"
  sv_table_ok :: "string \<Rightarrow> row list \<Rightarrow> bool"
  sv_table_digest :: "string \<Rightarrow> string \<Rightarrow> row list \<Rightarrow> string"
  sv_schema_version :: int
  sv_bundle_digest :: string
  sv_extensions :: "string list"
  sv_version_num :: string
  sv_view_owner :: string
  sv_read_grants :: "string list"

section \<open>Control state\<close>

datatype generation_state = Building | Active | Retired | Failed

record generation_row =
  gr_corpus :: string
  gr_generation :: string
  gr_physical_schema :: string
  gr_state :: generation_state
  gr_source_baseline_id :: "string option"
  gr_source_package_id :: "string option"
  gr_validation_digest :: "string option"

record corpus_row =
  cs_active_generation :: string
  cs_sequence :: int
  cs_baseline_id :: string
  cs_schema_version :: int
  cs_embedding_fingerprint :: string
  cs_builder_versions :: json
  cs_last_package_id :: "string option"
  cs_last_package_digest :: "string option"

record coverage_metric =
  cm_covered :: int
  cm_total :: int
  cm_percentage :: "rat option"

record readiness_report =
  rr_projection_coverage :: coverage_metric
  rr_embedding_coverage :: coverage_metric

record dense_entry =
  de_embedding_fingerprint :: string
  de_model :: string
  de_dimension :: int
  de_normalize :: bool
  de_index_name :: string
  de_lists :: u32
  de_default_probes :: u32
  de_parents :: int
  de_embeddings :: int

text \<open>
  The values of \<open>index_manifest\<close> the modelled code writes (JSON documents in the source), and any
  other document, which does not parse as one of them.
\<close>

datatype manifest_value =
    DenseManifest dense_entry
  | CachedReadiness string readiness_report
  | OtherValue json

record db =
  db_server :: server
  db_registry :: "generation_row list"
  db_corpora :: "(string, corpus_row) btree"
  db_schemas :: "string \<Rightarrow> schema_tables option"
  db_views :: "string list option"
  db_manifest :: "string \<Rightarrow> manifest_value option"
  db_grants :: "(string \<times> string) list"
  db_anchors :: "(string \<times> int \<times> string, string \<times> string) btree"
  db_tokens :: "(string \<times> string \<times> int \<times> string, string option \<times> string) btree"
  db_apply_lock_busy :: bool
  db_corpus_locks :: "string list"

type_synonym ('a, 'e) dbact = "(db, 'a, 'e) action"

section \<open>Statements on the rows of a schema\<close>

definition set_rows :: "string \<Rightarrow> row list \<Rightarrow> schema_tables \<Rightarrow> schema_tables" where
  "set_rows t rows sch = sch\<lparr>sch_rows := (sch_rows sch)(t := rows)\<rparr>"

text \<open>\<open>jsonb_populate_record(null::table, j)\<close>: absent fields are NULL.\<close>

definition populate :: "json \<Rightarrow> row" where
  "populate j = (\<lambda>c. case json_field c j of None \<Rightarrow> JNull | Some v \<Rightarrow> v)"

text \<open>The row \<open>INSERT INTO t (columns) SELECT rec.columns\<close> stores.\<close>

definition project :: "string list \<Rightarrow> row \<Rightarrow> row" where
  "project columns r = (\<lambda>c. if c \<in> set columns then r c else JNull)"

text \<open>SQL equality on key columns: NULL equals nothing.\<close>

definition same_key :: "string list \<Rightarrow> row \<Rightarrow> row \<Rightarrow> bool" where
  "same_key pk r q \<longleftrightarrow> list_all (\<lambda>c. r c = q c \<and> r c \<noteq> JNull) pk"

definition fk_holds :: "schema_tables \<Rightarrow> foreign_key \<Rightarrow> row \<Rightarrow> bool" where
  "fk_holds sch fk r \<longleftrightarrow>
     r (fk_column fk) = JNull \<or> list_ex (\<lambda>p. p (fk_ref_column fk) = r (fk_column fk)) (sch_rows sch (fk_ref_table fk))"

definition row_fks_ok :: "schema_tables \<Rightarrow> string \<Rightarrow> row \<Rightarrow> bool" where
  "row_fks_ok sch t r \<longleftrightarrow> list_all (\<lambda>fk. fk_table fk = t \<longrightarrow> fk_holds sch fk r) (sch_fks sch)"

text \<open>The referential actions of a \<open>DELETE\<close>; the recursion is as deep as the foreign-key graph.\<close>

fun delete_where :: "nat \<Rightarrow> string \<Rightarrow> (row \<Rightarrow> bool) \<Rightarrow> schema_tables \<Rightarrow> schema_tables" where
  "delete_where depth t P sch =
     (let gone = filter P (sch_rows sch t);
          sch' = set_rows t (filter (\<lambda>r. \<not> P r) (sch_rows sch t)) sch;
          hit = (\<lambda>fk r. r (fk_column fk) \<noteq> JNull
                  \<and> list_ex (\<lambda>g. g (fk_ref_column fk) = r (fk_column fk)) gone)
      in case depth of
           0 \<Rightarrow> sch'
         | Suc d \<Rightarrow>
             foldl (\<lambda>s fk. if fk_ref_table fk = t
                 then (case fk_on_delete fk of
                     Cascade \<Rightarrow> delete_where d (fk_table fk) (hit fk) s
                   | SetNull \<Rightarrow> set_rows (fk_table fk)
                       (map (\<lambda>r. if hit fk r then r(fk_column fk := JNull) else r) (sch_rows s (fk_table fk))) s)
                 else s) sch' (sch_fks sch))"

declare delete_where.simps [simp del]

definition sql_delete :: "string \<Rightarrow> (row \<Rightarrow> bool) \<Rightarrow> schema_tables \<Rightarrow> schema_tables" where
  "sql_delete t P sch = delete_where (Suc (length (sch_fks sch))) t P sch"

definition columns_ok :: "server \<Rightarrow> string \<Rightarrow> string list \<Rightarrow> bool" where
  "columns_ok sv t columns \<longleftrightarrow>
     is_replicated_table t \<and> columns \<noteq> [] \<and> distinct columns \<and> set columns \<subseteq> set (sv_columns sv t)"

text \<open>\<open>INSERT INTO t (columns) \<dots>\<close> of one row, with the primary key enforced once it is built.\<close>

definition sql_insert ::
  "server \<Rightarrow> string \<Rightarrow> string list \<Rightarrow> row \<Rightarrow> schema_tables \<Rightarrow> (schema_tables, storage_error) result" where
  "sql_insert sv t columns rec sch =
     (let new = project columns rec; rows = sch_rows sch t @ [new] in
      if columns_ok sv t columns
         \<and> \<not> (t \<in> set (sch_keyed sch) \<and> list_ex (same_key (sv_pk sv t) new) (sch_rows sch t))
         \<and> row_fks_ok (set_rows t rows sch) t new \<and> sv_table_ok sv t rows
      then Inr (set_rows t rows sch) else Inl PostgresClient)"

text \<open>\<open>INSERT \<dots> ON CONFLICT (pk) DO UPDATE SET \<dots>\<close> of one row; the count is the rows affected.\<close>

definition merge_row :: "string list \<Rightarrow> string list \<Rightarrow> row \<Rightarrow> row \<Rightarrow> row" where
  "merge_row columns pk new old = (\<lambda>c. if c \<in> set columns \<and> c \<notin> set pk then new c else old c)"

definition sql_upsert ::
  "server \<Rightarrow> string \<Rightarrow> string list \<Rightarrow> string list \<Rightarrow> row \<Rightarrow> schema_tables \<Rightarrow> (schema_tables \<times> u64, storage_error) result" where
  "sql_upsert sv t columns pk rec sch =
     (let new = project columns rec in
      if \<not> columns_ok sv t columns \<or> pk = [] \<or> set pk \<noteq> set (sv_pk sv t) then Inl PostgresClient
      else if list_ex (same_key pk new) (sch_rows sch t) then
        if set columns \<subseteq> set pk then Inr (sch, 0)
        else
          let rows = map (\<lambda>r. if same_key pk new r then merge_row columns pk new r else r) (sch_rows sch t);
              sch' = set_rows t rows sch
          in if list_all (row_fks_ok sch' t) rows \<and> sv_table_ok sv t rows then Inr (sch', 1) else Inl PostgresClient
      else and_then (sql_insert sv t columns rec sch) (\<lambda>sch'. Inr (sch', 1)))"

text \<open>The value of a key column, bytewise, for \<open>ORDER BY\<close> on it.\<close>

definition text_key :: "string \<Rightarrow> row \<Rightarrow> string" where
  "text_key c r = (case r c of JString s \<Rightarrow> s | _ \<Rightarrow> [])"

text \<open>\<open>jsonb_build_object('c1', t.c1, \<dots>)\<close> as the client reads it: an object with sorted keys.\<close>

definition row_object :: "string list \<Rightarrow> row \<Rightarrow> json" where
  "row_object columns r = JObject (sort_key fst (map (\<lambda>c. (c, r c)) columns))"

section \<open>Looking at the database\<close>

definition schema_rows :: "db \<Rightarrow> string \<Rightarrow> string \<Rightarrow> row list" where
  "schema_rows s schema t = (case db_schemas s schema of None \<Rightarrow> [] | Some sch \<Rightarrow> sch_rows sch t)"

text \<open>
  What a reader sees through the stable view of a table: \<open>UNION ALL\<close> over the view's schemas (nothing
  if \<open>DROP SCHEMA \<dots> CASCADE\<close> took the views with it, which is the value \<open>None\<close>).
\<close>

definition view_rows :: "db \<Rightarrow> string \<Rightarrow> row list" where
  "view_rows s t = concat (map (\<lambda>schema. schema_rows s schema t) (case db_views s of None \<Rightarrow> [] | Some vs \<Rightarrow> vs))"

text \<open>A statement on the tables of one schema.\<close>

definition on_schema ::
  "string \<Rightarrow> (server \<Rightarrow> schema_tables \<Rightarrow> (schema_tables \<times> 'a, storage_error) result) \<Rightarrow> ('a, storage_error) dbact" where
  "on_schema schema f = statement (\<lambda>s.
     case db_schemas s schema of
       None \<Rightarrow> Inl PostgresClient
     | Some sch \<Rightarrow> and_then (f (db_server s) sch) (\<lambda>(sch', a).
         Inr (s\<lparr>db_schemas := (db_schemas s)(schema := Some sch')\<rparr>, a)))"

text \<open>The state outside the contents of one schema.\<close>

definition outside :: "string \<Rightarrow> db \<Rightarrow> db" where
  "outside schema s = s\<lparr>db_schemas := (db_schemas s)(schema := None)\<rparr>"

lemma keeps_on_schema [keeps_intros]: "keeps (same (outside schema)) (on_schema schema f)"
  unfolding on_schema_def
  by (intro keeps_statement)
    (auto simp: same_def outside_def and_then_eq_Inr split: option.splits)

section \<open>Rows of a delete and of an upsert\<close>

lemma sch_rows_set_rows [simp]: "sch_rows (set_rows t rows sch) u = (if u = t then rows else sch_rows sch u)"
  by (simp add: set_rows_def)

lemma set_rows_fields [simp]:
  "sch_fks (set_rows t rows sch) = sch_fks sch"
  "sch_keyed (set_rows t rows sch) = sch_keyed sch"
  "sch_indexes (set_rows t rows sch) = sch_indexes sch"
  by (simp_all add: set_rows_def)

lemma delete_where_fields [simp]:
  "sch_fks (delete_where d t P sch) = sch_fks sch"
  "sch_keyed (delete_where d t P sch) = sch_keyed sch"
  "sch_indexes (delete_where d t P sch) = sch_indexes sch"
proof (induction d arbitrary: t P sch)
  case 0
  case 1 show ?case by (subst delete_where.simps) simp
  case 2 show ?case by (subst delete_where.simps) simp
  case 3 show ?case by (subst delete_where.simps) simp
next
  case (Suc d)
  case 1 show ?case
    by (subst delete_where.simps)
      (simp add: Let_def foldl_invariant [where f = sch_fks] Suc.IH split: fk_action.split)
  case 2 show ?case
    by (subst delete_where.simps)
      (simp add: Let_def foldl_invariant [where f = sch_keyed] Suc.IH split: fk_action.split)
  case 3 show ?case
    by (subst delete_where.simps)
      (simp add: Let_def foldl_invariant [where f = sch_indexes] Suc.IH split: fk_action.split)
qed

section \<open>A small database, for the witnesses\<close>

definition sample_row :: "(string \<times> string) list \<Rightarrow> row" where
  "sample_row entries = (\<lambda>c. case map_of entries c of None \<Rightarrow> JNull | Some v \<Rightarrow> JString v)"

definition sample_columns :: "string \<Rightarrow> string list" where
  "sample_columns t =
     (if t = ''documents'' then [''document_id'', ''corpus'', ''title'']
      else if t = ''chunks'' then [''chunk_id'', ''document_id'', ''embedding_fingerprint'']
      else if t = ''chunk_embeddings'' then [''chunk_id'', ''embedding_fingerprint'']
      else [''id''])"

definition sample_pk :: "string \<Rightarrow> string list" where
  "sample_pk t = [if t = ''documents'' then ''document_id''
     else if t = ''chunks'' \<or> t = ''chunk_embeddings'' then ''chunk_id'' else ''id'']"

definition sample_server :: server where
  "sample_server = \<lparr>sv_columns = sample_columns, sv_pk = sample_pk, sv_indexes = (\<lambda>t. []),
     sv_constraint_count = (\<lambda>t. 1), sv_table_ok = (\<lambda>t rows. True),
     sv_table_digest = (\<lambda>corpus t rows. ''md5:'' @ t @ show_nat (length rows)),
     sv_schema_version = 24, sv_bundle_digest = ''bundle'', sv_extensions = [''vector'', ''pg_search''],
     sv_version_num = ''170004'', sv_view_owner = ''owner'', sv_read_grants = [''reader'']\<rparr>"

definition sample_schema :: schema_tables where
  "sample_schema = \<lparr>sch_rows = (\<lambda>t.
       if t = ''documents'' then [sample_row [(''document_id'', ''d1''), (''corpus'', ''core''), (''title'', ''T'')]]
       else if t = ''chunks'' then [sample_row [(''chunk_id'', ''c1''), (''document_id'', ''d1''), (''embedding_fingerprint'', ''fp'')]]
       else if t = ''chunk_embeddings'' then [sample_row [(''chunk_id'', ''c1''), (''embedding_fingerprint'', ''fp'')]]
       else []),
     sch_keyed = replicated_tables, sch_fks = public_foreign_keys, sch_indexes = []\<rparr>"

definition sample_corpus_row :: corpus_row where
  "sample_corpus_row = \<lparr>cs_active_generation = ''core_g0001'', cs_sequence = 7, cs_baseline_id = ''b1'',
     cs_schema_version = 24, cs_embedding_fingerprint = ''fp'', cs_builder_versions = JObject [],
     cs_last_package_id = Some ''p7'', cs_last_package_digest = Some ''sha256:7''\<rparr>"

definition sample_db :: db where
  "sample_db = \<lparr>db_server = sample_server,
     db_registry = [\<lparr>gr_corpus = ''core'', gr_generation = ''core_g0001'',
       gr_physical_schema = ''jurisearch_server_core_g0001'', gr_state = Active,
       gr_source_baseline_id = Some ''b1'', gr_source_package_id = Some ''p7'', gr_validation_digest = Some ''sha256:7''\<rparr>],
     db_corpora = [(''core'', sample_corpus_row)],
     db_schemas = [''public'' \<mapsto> sample_schema, ''jurisearch_server_core_g0001'' \<mapsto> sample_schema],
     db_views = Some [''jurisearch_server_core_g0001''],
     db_manifest = Map.empty, db_grants = [], db_anchors = [], db_tokens = [],
     db_apply_lock_busy = False, db_corpus_locks = []\<rparr>"

lemma sample_db_fields [simp]:
  "db_server sample_db = sample_server"
  "db_corpora sample_db = [(''core'', sample_corpus_row)]"
  "db_schemas sample_db = [''public'' \<mapsto> sample_schema, ''jurisearch_server_core_g0001'' \<mapsto> sample_schema]"
  "db_views sample_db = Some [''jurisearch_server_core_g0001'']"
  "db_manifest sample_db = Map.empty"
  "db_grants sample_db = []"
  "db_apply_lock_busy sample_db = False"
  "db_corpus_locks sample_db = []"
  by (simp_all add: sample_db_def)

lemma sample_corpus_row_fields [simp]:
  "cs_active_generation sample_corpus_row = ''core_g0001''"
  "cs_sequence sample_corpus_row = 7"
  "cs_baseline_id sample_corpus_row = ''b1''"
  "cs_schema_version sample_corpus_row = 24"
  "cs_embedding_fingerprint sample_corpus_row = ''fp''"
  "cs_builder_versions sample_corpus_row = JObject []"
  "cs_last_package_id sample_corpus_row = Some ''p7''"
  "cs_last_package_digest sample_corpus_row = Some ''sha256:7''"
  by (simp_all add: sample_corpus_row_def)

text \<open>A package for the sample database: from sequence 7 to 8, on top of package \<open>p7\<close>.\<close>

definition sample_generation_of :: "package_kind \<Rightarrow> string" where
  "sample_generation_of kind = (if kind = Incremental then ''core_g0001'' else ''core_g0002'')"

definition sample_post :: postconditions where
  "sample_post = \<lparr>post_row_counts = [(''chunk_embeddings'', 1), (''chunks'', 1), (''documents'', 1)],
     post_table_digests = bt_of_list (map (\<lambda>t. (t, ''md5:'' @ t @
       show_nat (if t \<in> {''chunk_embeddings'', ''chunks'', ''documents''} then 1 else 0))) replicated_tables)\<rparr>"

definition sample_package ::
  "package_kind \<Rightarrow> string \<Rightarrow> payload_file list \<Rightarrow> (string, string) btree \<Rightarrow> string \<Rightarrow> embedded_manifest" where
  "sample_package kind tier files digests aggregate = \<lparr>
     em_identity = \<lparr>id_package_format_version = 1, id_package_id = ''p8'', id_corpus = Corpus ''core'',
       id_package_kind = kind, id_from_sequence = PackageSequence 7, id_to_sequence = PackageSequence 8,
       id_previous_package_id = Some ''p7'', id_previous_package_sha256 = Some ''sha256:7'',
       id_baseline_id = ''b1'', id_generation = sample_generation_of kind, id_created_at = ''now'',
       id_builder_run_id = ''run''\<rparr>,
     em_compatibility = \<lparr>co_minimum_client_version = Version 0 1 0, co_maximum_client_version = None,
       co_schema_version = 24, co_schema_migration_bundle_digest = ''bundle'',
       co_requires_extensions = [\<lparr>er_name = ''vector'', er_minimum_version = None\<rparr>],
       co_embedding_fingerprint = ''fp'', co_embedding_model = ''m'', co_embedding_dimension = 2,
       co_embedding_normalize = True, co_builder_versions = [], co_postgres_major_min = Some 17,
       co_postgres_major_max = Some 17\<rparr>,
     em_entitlement = \<lparr>en_corpus = Corpus ''core'', en_tier = tier, en_license_epoch = 1,
       en_audience = None, en_policy_digest = ''policy''\<rparr>,
     em_integrity = \<lparr>in_artifact_sha256 = aggregate, in_uncompressed_payload_digest = aggregate,
       in_per_file_digests = digests, in_canonicalisation_algorithm = ''c'',
       in_signature_algorithm = ''ed25519'', in_transparency_log_index = None\<rparr>,
     em_apply = \<lparr>ap_expected_client_from_sequence = PackageSequence 7, ap_result_sequence = PackageSequence 8,
       ap_requires_empty_generation = False, ap_schema_ops_digest = ''ops'', ap_operations = [],
       ap_replace_scopes = [],
       ap_preconditions = \<lparr>pre_schema_version = 24, pre_embedding_fingerprint = ''fp'',
         pre_builder_versions = [], pre_active_baseline_id = Some ''b1'',
         pre_active_generation = Some ''core_g0001''\<rparr>,
       ap_postconditions = sample_post,
       ap_index_build = \<lparr>ib_bm25_indexes = [], ib_ivfflat_finalize = [],
         ib_row_level_maintenance_only = True, ib_queryable_before_finalize = True\<rparr>,
       ap_idempotency_key = ''p8'', ap_rollback_policy = TransactionRollback\<rparr>,
     em_payload = \<lparr>pl_files = files, pl_apply_order = map pf_table files\<rparr>\<rparr>"

end
