(* ===== verification/Readiness.thy ===== *)
theory Readiness
  imports Database
begin

text \<open>
  Query readiness (\<open>ingest_accounting/readiness.rs\<close>): coverage metrics of a generation, the writer-owned
  stamp that an apply or switch writes inside its transaction, the read paths that only look it up,
  and the legacy compute-on-read cache of the \<open>public\<close> working set.  The percentage is the exact
  quotient (the code rounds it to an \<open>f64\<close>).
\<close>

section \<open>Signatures and generation names\<close>

definition schema_for_generation :: "string \<Rightarrow> string" where
  "schema_for_generation generation = ''jurisearch_server_'' @ generation"

definition corpus_signature :: "string \<Rightarrow> string \<Rightarrow> int \<Rightarrow> string" where
  "corpus_signature corpus generation seq = corpus @ '':'' @ generation @ '':'' @ show_int seq"

definition active_read_signature :: "db \<Rightarrow> string" where
  "active_read_signature s =
     (if db_corpora s = [] then ''public''
      else join_with '','' (map (\<lambda>(corpus, r). corpus_signature corpus (cs_active_generation r) (cs_sequence r))
             (db_corpora s)))"

section \<open>Coverage\<close>

definition percentage :: "int \<Rightarrow> int \<Rightarrow> rat option" where
  "percentage covered t = (if t = 0 then None else Some (of_int covered / of_int t * 100))"

definition coverage :: "int \<Rightarrow> int \<Rightarrow> coverage_metric" where
  "coverage covered t = \<lparr>cm_covered = covered, cm_total = t, cm_percentage = percentage covered t\<rparr>"

definition coverage_is_complete :: "coverage_metric \<Rightarrow> bool" where
  "coverage_is_complete m \<longleftrightarrow> cm_total m > 0 \<and> cm_covered m = cm_total m"

text \<open>\<open>count(DISTINCT column)\<close>: NULLs do not count.\<close>

definition count_distinct :: "string \<Rightarrow> row list \<Rightarrow> int" where
  "count_distinct c rows = int (length (remdups (filter (\<lambda>v. v \<noteq> JNull) (map (\<lambda>r. r c) rows))))"

text \<open>\<open>d LEFT JOIN c ON c.document_id = d.document_id\<close>, keeping the documents with a chunk.\<close>

definition projection_coverage :: "row list \<Rightarrow> row list \<Rightarrow> coverage_metric" where
  "projection_coverage documents chunks =
     coverage
       (count_distinct ''document_id'' (filter (\<lambda>d. list_ex (\<lambda>c. same_key [''document_id''] d c
          \<and> c ''chunk_id'' \<noteq> JNull) chunks) documents))
       (count_distinct ''document_id'' documents)"

text \<open>The rows of \<open>chunks c LEFT JOIN chunk_embeddings ce ON ce.chunk_id = c.chunk_id\<close>.\<close>

definition join_embeddings :: "row list \<Rightarrow> row list \<Rightarrow> (row \<times> row option) list" where
  "join_embeddings chunks embeddings =
     concat (map (\<lambda>c. case filter (same_key [''chunk_id''] c) embeddings of
         [] \<Rightarrow> [(c, None)] | es \<Rightarrow> map (\<lambda>e. (c, Some e)) es) chunks)"

definition embedding_coverage :: "(json \<Rightarrow> json \<Rightarrow> bool) \<Rightarrow> row list \<Rightarrow> row list \<Rightarrow> coverage_metric" where
  "embedding_coverage current chunks embeddings =
     (let rows = join_embeddings chunks embeddings in
      coverage
        (int (length (filter (\<lambda>(c, ce). case ce of None \<Rightarrow> False
           | Some e \<Rightarrow> current (c ''embedding_fingerprint'') (e ''embedding_fingerprint'')) rows)))
        (int (length rows)))"

definition compute_generation_coverage :: "db \<Rightarrow> string \<Rightarrow> string \<Rightarrow> (readiness_report, storage_error) result" where
  "compute_generation_coverage s schema active_fingerprint =
     (case db_schemas s schema of
        None \<Rightarrow> Inl PostgresClient
      | Some sch \<Rightarrow> Inr
          \<lparr>rr_projection_coverage = projection_coverage (sch_rows sch ''documents'') (sch_rows sch ''chunks''),
           rr_embedding_coverage = embedding_coverage
             (\<lambda>c e. c = JString active_fingerprint \<and> e = JString active_fingerprint)
             (sch_rows sch ''chunks'') (sch_rows sch ''chunk_embeddings'')\<rparr>)"

section \<open>The writer's stamp\<close>

definition query_readiness_key :: string where
  "query_readiness_key = ''query_readiness''"

definition metric_ok :: "bool \<Rightarrow> coverage_metric \<Rightarrow> bool" where
  "metric_ok is_just_applied m = (if is_just_applied then coverage_is_complete m else cm_covered m = cm_total m)"

type_synonym totals = "(int \<times> int) \<times> (int \<times> int)"

definition stamp_corpus :: "db \<Rightarrow> string \<Rightarrow> string \<times> corpus_row \<Rightarrow> totals \<Rightarrow> (totals, storage_error) result" where
  "stamp_corpus s generation = (\<lambda>(corpus, r) ((pc, pt), (ec, et)).
     and_then (compute_generation_coverage s (schema_for_generation (cs_active_generation r))
       (cs_embedding_fingerprint r)) (\<lambda>report.
     let is_just_applied = (cs_active_generation r = generation);
         p = rr_projection_coverage report; e = rr_embedding_coverage report in
     and_then (ensure (metric_ok is_just_applied p) IngestAccounting) (\<lambda>_.
     and_then (ensure (metric_ok is_just_applied e) IngestAccounting) (\<lambda>_.
     Inr ((pc + cm_covered p, pt + cm_total p), (ec + cm_covered e, et + cm_total e))))))"

definition put_manifest :: "string \<Rightarrow> manifest_value \<Rightarrow> db \<Rightarrow> db" where
  "put_manifest key v s = s\<lparr>db_manifest := (db_manifest s)(key := Some v)\<rparr>"

definition stamp_query_readiness :: "string \<Rightarrow> (readiness_report, storage_error) dbact" where
  "stamp_query_readiness generation = statement (\<lambda>s.
     let signature = active_read_signature s in
     and_then (ensure (list_ex (\<lambda>(_, r). cs_active_generation r = generation) (db_corpora s)) IngestAccounting) (\<lambda>_.
     and_then (fold_result (stamp_corpus s generation) (db_corpora s) ((0, 0), (0, 0))) (\<lambda>((pc, pt), (ec, et)).
     let report = \<lparr>rr_projection_coverage = coverage pc pt, rr_embedding_coverage = coverage ec et\<rparr> in
     Inr (put_manifest query_readiness_key (CachedReadiness signature report) s, report))))"

section \<open>The read paths\<close>

definition load_query_readiness_with_client :: "db \<Rightarrow> (readiness_report, storage_error) result" where
  "load_query_readiness_with_client s =
     (let signature = active_read_signature s in
      and_then (ensure (signature \<noteq> ''public'') IngestAccounting) (\<lambda>_.
      case db_manifest s query_readiness_key of
        None \<Rightarrow> Inl IngestAccounting
      | Some (CachedReadiness stamped report) \<Rightarrow>
          if stamped \<noteq> signature then Inl IngestAccounting else Inr report
      | Some _ \<Rightarrow> Inl IngestAccounting))"

text \<open>
  The same lookup inside a read snapshot: the signature is built from the snapshot's resolved corpora,
  and the stamp is read from the snapshot.
\<close>

definition load_query_readiness_in_snapshot ::
  "(string \<times> string \<times> int) list \<Rightarrow> manifest_value option \<Rightarrow> (readiness_report, storage_error) result" where
  "load_query_readiness_in_snapshot active_corpora stamp =
     (let signature = join_with '','' (map (\<lambda>(c, g, n). corpus_signature c g n) active_corpora) in
      and_then (ensure (length active_corpora \<noteq> 0) IngestAccounting) (\<lambda>_.
      case stamp of
        None \<Rightarrow> Inl IngestAccounting
      | Some (CachedReadiness stamped report) \<Rightarrow>
          if stamped \<noteq> signature then Inl IngestAccounting else Inr report
      | Some _ \<Rightarrow> Inl IngestAccounting))"

definition resolve_active_corpora :: "db \<Rightarrow> (string \<times> string \<times> int) list" where
  "resolve_active_corpora s = map (\<lambda>(c, r). (c, cs_active_generation r, cs_sequence r)) (db_corpora s)"

text \<open>
  The legacy path.  The search path is \<open>public\<close> with no corpus, the generation's schema with one, the
  stable views with more; \<open>public\<close> is the fallback for a missing relation.
\<close>

definition read_rows :: "db \<Rightarrow> string \<Rightarrow> row list" where
  "read_rows s t =
     (case db_corpora s of
        [] \<Rightarrow> schema_rows s ''public'' t
      | [(_, r)] \<Rightarrow>
          (let schema = schema_for_generation (cs_active_generation r)
           in schema_rows s (if db_schemas s schema = None then ''public'' else schema) t)
      | _ \<Rightarrow> view_rows s t)"

definition load_projection_coverage :: "db \<Rightarrow> coverage_metric" where
  "load_projection_coverage s = projection_coverage (read_rows s ''documents'') (read_rows s ''chunks'')"

definition load_embedding_coverage :: "db \<Rightarrow> coverage_metric" where
  "load_embedding_coverage s =
     embedding_coverage (\<lambda>c e. c \<noteq> JNull \<and> e = c) (read_rows s ''chunks'') (read_rows s ''chunk_embeddings'')"

definition load_ingest_readiness :: "db \<Rightarrow> readiness_report" where
  "load_ingest_readiness s =
     \<lparr>rr_projection_coverage = load_projection_coverage s, rr_embedding_coverage = load_embedding_coverage s\<rparr>"

definition load_cached_query_readiness :: "db \<Rightarrow> readiness_report option" where
  "load_cached_query_readiness s =
     (case db_manifest s query_readiness_key of
        Some (CachedReadiness stamped report) \<Rightarrow> if stamped = active_read_signature s then Some report else None
      | _ \<Rightarrow> None)"

definition store_query_readiness :: "readiness_report \<Rightarrow> db \<Rightarrow> db" where
  "store_query_readiness report s =
     put_manifest query_readiness_key (CachedReadiness (active_read_signature s) report) s"

definition invalidate_query_readiness :: "db \<Rightarrow> db" where
  "invalidate_query_readiness s = s\<lparr>db_manifest := (db_manifest s)(query_readiness_key := None)\<rparr>"

definition load_or_compute_query_readiness :: "(readiness_report \<times> bool, storage_error) dbact" where
  "load_or_compute_query_readiness s =
     (case load_cached_query_readiness s of
        Some report \<Rightarrow> (s, Inr (report, True))
      | None \<Rightarrow>
          let report = load_ingest_readiness s;
              fully_ready = coverage_is_complete (rr_projection_coverage report)
                \<and> coverage_is_complete (rr_embedding_coverage report)
          in (if fully_ready then store_query_readiness report s else s, Inr (report, False)))"

definition resolve_query_readiness :: "(readiness_report, storage_error) dbact" where
  "resolve_query_readiness s =
     (if active_read_signature s = ''public'' then bind_act load_or_compute_query_readiness (\<lambda>(r, _). ret r) s
      else (s, load_query_readiness_with_client s))"

section \<open>A stamp is scoped to its topology\<close>

definition clean_name :: "string \<Rightarrow> bool" where
  "clean_name n \<longleftrightarrow> CHR '':'' \<notin> set n \<and> CHR '','' \<notin> set n"

definition clean_topology :: "db \<Rightarrow> bool" where
  "clean_topology s \<longleftrightarrow>
     (\<forall>(c, g, n)\<in>set (resolve_active_corpora s). clean_name c \<and> clean_name g)"

lemma corpus_signature_inject:
  assumes "clean_name c" "clean_name g" "clean_name c'" "clean_name g'"
  shows "corpus_signature c g n = corpus_signature c' g' n' \<longleftrightarrow> c = c' \<and> g = g' \<and> n = n'"
  using assms by (simp add: corpus_signature_def clean_name_def append_sep_inject)

lemma comma_notin_signature:
  "clean_name c \<Longrightarrow> clean_name g \<Longrightarrow> CHR '','' \<notin> set (corpus_signature c g n)"
  using show_int_chars [of "CHR '',''" n] by (simp add: corpus_signature_def clean_name_def is_digit_def)

lemma signature_pieces:
  "active_read_signature s = (if db_corpora s = [] then ''public''
     else join_with '','' (map (\<lambda>(c, g, n). corpus_signature c g n) (resolve_active_corpora s)))"
  by (simp add: active_read_signature_def resolve_active_corpora_def comp_def case_prod_unfold)

lemma colon_in_join: "xs \<noteq> [] \<Longrightarrow> \<forall>x\<in>set xs. c \<in> set x \<Longrightarrow> c \<in> set (join_with sep xs)"
  by (cases "(sep, xs)" rule: join_with.cases) auto

lemma signature_not_public:
  assumes "db_corpora s \<noteq> []"
  shows "active_read_signature s \<noteq> ''public''"
proof -
  have "CHR '':'' \<in> set (active_read_signature s)"
    using assms unfolding signature_pieces
    by (auto intro!: colon_in_join simp: resolve_active_corpora_def corpus_signature_def)
  then show ?thesis by auto
qed

lemma signature_inject:
  assumes "clean_topology s" "clean_topology t" "active_read_signature s = active_read_signature t"
  shows "resolve_active_corpora s = resolve_active_corpora t"
proof (cases "db_corpora s = [] \<or> db_corpora t = []")
  case True
  then have "db_corpora s = [] \<and> db_corpora t = []"
    using assms(3) signature_not_public by (metis active_read_signature_def)
  then show ?thesis by (simp add: resolve_active_corpora_def)
next
  case False
  let ?f = "\<lambda>(c, g, n). corpus_signature c g n"
  have split: "split_on CHR '','' (active_read_signature u) = map ?f (resolve_active_corpora u)"
    if "db_corpora u \<noteq> []" "clean_topology u" for u
    unfolding signature_pieces using that
    by (fastforce intro!: split_on_join simp: clean_topology_def resolve_active_corpora_def comma_notin_signature)
  with False assms have "map ?f (resolve_active_corpora s) = map ?f (resolve_active_corpora t)"
    by metis
  moreover have "inj_on ?f (set (resolve_active_corpora s) \<union> set (resolve_active_corpora t))"
  proof (rule inj_onI)
    fix x y
    assume xy: "x \<in> set (resolve_active_corpora s) \<union> set (resolve_active_corpora t)"
      "y \<in> set (resolve_active_corpora s) \<union> set (resolve_active_corpora t)" "?f x = ?f y"
    obtain c g n c' g' n' where eq: "x = (c, g, n)" "y = (c', g', n')" by (cases x; cases y) auto
    have "clean_name c" "clean_name g" "clean_name c'" "clean_name g'"
      using assms(1,2) xy(1,2) unfolding eq clean_topology_def by blast+
    with xy(3) show "x = y" by (simp add: eq corpus_signature_inject)
  qed
  ultimately show ?thesis by (simp add: inj_on_map_eq_map)
qed

section \<open>What a stamp certifies\<close>

definition corpus_coverage_ok :: "db \<Rightarrow> string \<Rightarrow> corpus_row \<Rightarrow> bool" where
  "corpus_coverage_ok s generation r \<longleftrightarrow>
     (case compute_generation_coverage s (schema_for_generation (cs_active_generation r)) (cs_embedding_fingerprint r) of
        Inl _ \<Rightarrow> False
      | Inr report \<Rightarrow>
          metric_ok (cs_active_generation r = generation) (rr_projection_coverage report)
          \<and> metric_ok (cs_active_generation r = generation) (rr_embedding_coverage report))"

lemma stamp_corpus_ok: "is_ok (stamp_corpus s g (c, r) acc) \<longleftrightarrow> corpus_coverage_ok s g r"
  by (auto simp: stamp_corpus_def corpus_coverage_ok_def is_ok_iff and_then_eq_Inr Let_def
      split: prod.splits sum.splits)

lemma stamp_fold_ok:
  "is_ok (fold_result (stamp_corpus s g) cs acc) \<longleftrightarrow> (\<forall>(c, r)\<in>set cs. corpus_coverage_ok s g r)"
proof (induction cs arbitrary: acc)
  case (Cons cr cs)
  obtain c r where cr: "cr = (c, r)" by (cases cr)
  show ?case
    using stamp_corpus_ok [of s g c r acc] Cons.IH
    by (cases "stamp_corpus s g (c, r) acc") (auto simp: cr)
qed simp

lemma stamp_Inr:
  "stamp_query_readiness g s = (s', Inr report) \<longleftrightarrow>
     (\<exists>c r. (c, r) \<in> set (db_corpora s) \<and> cs_active_generation r = g)
     \<and> (\<exists>pc pt ec et. fold_result (stamp_corpus s g) (db_corpora s) ((0, 0), (0, 0)) = Inr ((pc, pt), (ec, et))
          \<and> report = \<lparr>rr_projection_coverage = coverage pc pt, rr_embedding_coverage = coverage ec et\<rparr>)
     \<and> s' = put_manifest query_readiness_key (CachedReadiness (active_read_signature s) report) s"
  by (auto simp: stamp_query_readiness_def action_simps and_then_eq_Inr Let_def list_ex_iff)

lemma put_manifest_simps [simp]:
  "db_corpora (put_manifest k v s) = db_corpora s"
  "db_schemas (put_manifest k v s) = db_schemas s"
  "db_registry (put_manifest k v s) = db_registry s"
  "db_views (put_manifest k v s) = db_views s"
  "db_server (put_manifest k v s) = db_server s"
  "db_grants (put_manifest k v s) = db_grants s"
  "db_anchors (put_manifest k v s) = db_anchors s"
  "db_tokens (put_manifest k v s) = db_tokens s"
  "db_apply_lock_busy (put_manifest k v s) = db_apply_lock_busy s"
  "db_corpus_locks (put_manifest k v s) = db_corpus_locks s"
  "db_manifest (put_manifest k v s) = (db_manifest s)(k := Some v)"
  by (simp_all add: put_manifest_def)

lemma signature_put_manifest [simp]: "active_read_signature (put_manifest k v s) = active_read_signature s"
  by (simp add: active_read_signature_def)

text \<open>
  C28.  A readiness stamp certifies the whole topology: it is written only when the applied generation
  is active and non-empty and every active corpus is fully covered under its own fingerprint; it
  touches nothing but the one manifest key; and both read paths then return exactly the stamped report.
\<close>

theorem stamp_certifies_topology:
  assumes "stamp_query_readiness generation s = (s', Inr report)"
  shows "list_all (\<lambda>(c, r). corpus_coverage_ok s generation r) (db_corpora s)
    \<and> list_ex (\<lambda>(c, r). cs_active_generation r = generation) (db_corpora s)
    \<and> s'\<lparr>db_manifest := db_manifest s\<rparr> = s
    \<and> (db_manifest s')(query_readiness_key := db_manifest s query_readiness_key) = db_manifest s
    \<and> load_query_readiness_with_client s' = Inr report
    \<and> load_query_readiness_in_snapshot (resolve_active_corpora s') (db_manifest s' query_readiness_key) = Inr report"
proof -
  note stamped = assms [unfolded stamp_Inr]
  have nonempty: "db_corpora s \<noteq> []" using stamped by auto
  have "is_ok (fold_result (stamp_corpus s generation) (db_corpora s) ((0, 0), (0, 0)))"
    using stamped by (auto simp: is_ok_iff)
  then have covered: "list_all (\<lambda>(c, r). corpus_coverage_ok s generation r) (db_corpora s)"
    by (simp add: stamp_fold_ok list_all_iff)
  have s': "s' = put_manifest query_readiness_key (CachedReadiness (active_read_signature s) report) s"
    using stamped by blast
  show ?thesis
    using covered stamped nonempty signature_not_public [OF nonempty]
    by (auto simp: s' list_ex_iff load_query_readiness_with_client_def load_query_readiness_in_snapshot_def
        Let_def signature_pieces resolve_active_corpora_def put_manifest_def fun_eq_iff)
qed

lemma sample_coverage:
  "compute_generation_coverage sample_db ''jurisearch_server_core_g0001'' ''fp'' =
     Inr \<lparr>rr_projection_coverage = coverage 1 1, rr_embedding_coverage = coverage 1 1\<rparr>"
  by (simp add: compute_generation_coverage_def sample_schema_def sample_row_def
      projection_coverage_def embedding_coverage_def join_embeddings_def count_distinct_def same_key_def
      coverage_def percentage_def)

lemma stamp_sample:
  "stamp_query_readiness ''core_g0001'' sample_db =
     (put_manifest query_readiness_key (CachedReadiness (active_read_signature sample_db)
        \<lparr>rr_projection_coverage = coverage 1 1, rr_embedding_coverage = coverage 1 1\<rparr>) sample_db,
      Inr \<lparr>rr_projection_coverage = coverage 1 1, rr_embedding_coverage = coverage 1 1\<rparr>)"
  using sample_coverage
  by (simp add: stamp_Inr stamp_corpus_def schema_for_generation_def
      metric_ok_def coverage_is_complete_def coverage_def Let_def)

lemma stamp_certifies_topology_witness:
  "load_query_readiness_with_client (fst (stamp_query_readiness ''core_g0001'' sample_db)) =
     Inr \<lparr>rr_projection_coverage = coverage 1 1, rr_embedding_coverage = coverage 1 1\<rparr>"
  using stamp_certifies_topology [OF stamp_sample] by (simp add: stamp_sample)

text \<open>
  C29.  A stamp never authorizes another topology: wherever the stamp written in one state is found,
  both read paths refuse it unless every corpus, its active generation and its sequence are those it
  was written for.
\<close>

theorem stale_stamp_rejected:
  assumes "stamp_query_readiness generation s = (s', Inr report)"
    and "db_manifest t query_readiness_key = db_manifest s' query_readiness_key"
    and "clean_topology s" "clean_topology t"
    and "resolve_active_corpora t \<noteq> resolve_active_corpora s"
  shows "load_query_readiness_with_client t = Inl IngestAccounting
    \<and> load_query_readiness_in_snapshot (resolve_active_corpora t) (db_manifest t query_readiness_key) = Inl IngestAccounting"
proof -
  have stamp: "db_manifest t query_readiness_key = Some (CachedReadiness (active_read_signature s) report)"
    using assms(1,2) by (auto simp: stamp_Inr)
  have differ: "active_read_signature s \<noteq> active_read_signature t"
    using signature_inject [OF assms(3,4)] assms(5) by metis
  show ?thesis
    using stamp differ signature_pieces [of t]
    by (auto simp: load_query_readiness_with_client_def load_query_readiness_in_snapshot_def Let_def
        ensure_def resolve_active_corpora_def split: if_splits)
qed

lemma stale_stamp_rejected_witness:
  "load_query_readiness_with_client
     ((fst (stamp_query_readiness ''core_g0001'' sample_db))
       \<lparr>db_corpora := [(''core'', sample_corpus_row\<lparr>cs_sequence := 8\<rparr>)]\<rparr>) = Inl IngestAccounting"
  using stale_stamp_rejected [OF stamp_sample, of "(fst (stamp_query_readiness ''core_g0001'' sample_db))
       \<lparr>db_corpora := [(''core'', sample_corpus_row\<lparr>cs_sequence := 8\<rparr>)]\<rparr>"]
  by (simp add: stamp_sample clean_topology_def resolve_active_corpora_def clean_name_def)

end
