(* ===== verification/Generations.thy ===== *)
theory Generations
  imports Readiness
begin

text \<open>
  Physical generations (\<open>storage/generations.rs\<close>): naming, creation, index building, the atomic
  activation switch with its cursor guard, the stable views, and the clean-up of half-built and
  retired generations.  \<open>f64\<close> square roots are the exact nearest integers; waiting for a lock and
  connection failures are not modelled, and identifiers are not truncated to PostgreSQL's 63 bytes.
\<close>

section \<open>Names\<close>

definition generation_name :: "string \<Rightarrow> u32 \<Rightarrow> string" where
  "generation_name corpus counter = corpus @ ''_g'' @ pad_zero 4 (show_nat (unat counter))"

definition generation_schema :: "string \<Rightarrow> u32 \<Rightarrow> string" where
  "generation_schema corpus counter = ''jurisearch_server'' @ ''_'' @ generation_name corpus counter"

definition generation_counter_of :: "string \<Rightarrow> string \<Rightarrow> u32 option" where
  "generation_counter_of corpus generation =
     (case strip_prefix generation (corpus @ ''_g'') of None \<Rightarrow> None | Some n \<Rightarrow> parse_u32 n)"

section \<open>Creation\<close>

definition register_generation :: "string \<Rightarrow> u32 \<Rightarrow> string option \<Rightarrow> (unit, storage_error) dbact" where
  "register_generation corpus counter source_baseline_id = statement (\<lambda>s.
     let generation = generation_name corpus counter in
     if list_ex (\<lambda>g. gr_corpus g = corpus \<and> gr_generation g = generation) (db_registry s) then Inl PostgresClient
     else Inr (s\<lparr>db_registry := db_registry s @ [\<lparr>gr_corpus = corpus, gr_generation = generation,
        gr_physical_schema = generation_schema corpus counter, gr_state = Building,
        gr_source_baseline_id = source_baseline_id, gr_source_package_id = None,
        gr_validation_digest = None\<rparr>]\<rparr>, ()))"

definition create_schema :: "string \<Rightarrow> schema_tables \<Rightarrow> (unit, storage_error) dbact" where
  "create_schema schema sch = statement (\<lambda>s.
     if db_schemas s schema \<noteq> None then Inl PostgresClient
     else Inr (s\<lparr>db_schemas := (db_schemas s)(schema \<mapsto> sch)\<rparr>, ()))"

definition empty_schema :: "string list \<Rightarrow> (string \<times> index_shape) list \<Rightarrow> schema_tables" where
  "empty_schema keyed indexes = \<lparr>sch_rows = (\<lambda>t. []), sch_keyed = keyed, sch_fks = [], sch_indexes = indexes\<rparr>"

text \<open>\<open>LIKE public.t INCLUDING ALL\<close> copies keys and indexes but no foreign keys.\<close>

definition create_generation_schema :: "string \<Rightarrow> u32 \<Rightarrow> string option \<Rightarrow> (string, storage_error) dbact" where
  "create_generation_schema corpus counter source_baseline_id =
     bind_act (register_generation corpus counter source_baseline_id) (\<lambda>_.
     bind_act (gets (\<lambda>s. concat (map (sv_indexes (db_server s)) replicated_tables))) (\<lambda>indexes.
     bind_act (create_schema (generation_schema corpus counter) (empty_schema replicated_tables indexes)) (\<lambda>_.
     ret (generation_name corpus counter))))"

definition create_generation_load_tables :: "string \<Rightarrow> u32 \<Rightarrow> string option \<Rightarrow> (string, storage_error) dbact" where
  "create_generation_load_tables corpus counter source_baseline_id =
     bind_act (register_generation corpus counter source_baseline_id) (\<lambda>_.
     bind_act (create_schema (generation_schema corpus counter) (empty_schema [] [])) (\<lambda>_.
     ret (generation_name corpus counter)))"

definition next_generation_counter :: "db \<Rightarrow> string \<Rightarrow> u32" where
  "next_generation_counter s corpus =
     (let counters = concat (map (\<lambda>g. if gr_corpus g = corpus
            then (case generation_counter_of corpus (gr_generation g) of None \<Rightarrow> [] | Some n \<Rightarrow> [n]) else [])
          (db_registry s))
      in (if counters = [] then 0 else Max (set counters)) + 1)"

section \<open>Corpus scope of the public tables\<close>

definition document_in_corpus :: "schema_tables \<Rightarrow> string \<Rightarrow> json \<Rightarrow> bool" where
  "document_in_corpus pub corpus document_id \<longleftrightarrow>
     list_ex (\<lambda>d. d ''document_id'' = document_id \<and> document_id \<noteq> JNull \<and> d ''corpus'' = JString corpus)
       (sch_rows pub ''documents'')"

definition parent_in_corpus :: "schema_tables \<Rightarrow> string \<Rightarrow> string \<Rightarrow> string \<Rightarrow> json \<Rightarrow> bool" where
  "parent_in_corpus pub corpus parent key v \<longleftrightarrow>
     list_ex (\<lambda>c. c key = v \<and> v \<noteq> JNull \<and> document_in_corpus pub corpus (c ''document_id'')) (sch_rows pub parent)"

definition corpus_scope_predicate :: "schema_tables \<Rightarrow> string \<Rightarrow> string \<Rightarrow> row \<Rightarrow> bool" where
  "corpus_scope_predicate pub t corpus r =
     (if t = ''documents'' \<or> t = ''official_api_responses'' \<or> t = ''legislation_citation_resolutions''
      then r ''corpus'' = JString corpus
      else if t = ''legi_metadata_roots'' then corpus = ''core''
      else if t = ''chunks'' \<or> t = ''zone_units'' \<or> t = ''decision_zones''
      then document_in_corpus pub corpus (r ''document_id'')
      else if t = ''graph_edges'' then document_in_corpus pub corpus (r ''from_document_id'')
      else if t = ''decision_legislation_citations'' then document_in_corpus pub corpus (r ''decision_document_id'')
      else if t = ''chunk_embeddings'' then parent_in_corpus pub corpus ''chunks'' ''chunk_id'' (r ''chunk_id'')
      else if t = ''zone_unit_embeddings''
      then parent_in_corpus pub corpus ''zone_units'' ''zone_unit_id'' (r ''zone_unit_id'')
      else False)"

text \<open>\<open>INSERT INTO dst.t (cols) SELECT cols FROM public.t WHERE predicate\<close>: all rows or none.\<close>

definition insert_all :: "server \<Rightarrow> string \<Rightarrow> string list \<Rightarrow> row list \<Rightarrow> schema_tables \<Rightarrow> (schema_tables, storage_error) result" where
  "insert_all sv t columns rows = fold_result (\<lambda>r sch. sql_insert sv t columns r sch) rows"

definition populate_generation_from_public :: "string \<Rightarrow> string \<Rightarrow> (unit, storage_error) dbact" where
  "populate_generation_from_public corpus generation = for_each replicated_tables (\<lambda>t.
     bind_act (gets (\<lambda>s. case db_schemas s ''public'' of None \<Rightarrow> []
        | Some pub \<Rightarrow> filter (corpus_scope_predicate pub t corpus) (sch_rows pub t))) (\<lambda>rows.
     on_schema (schema_for_generation generation) (\<lambda>sv sch.
       and_then (insert_all sv t (sv_columns sv t) rows sch) (\<lambda>sch'. Inr (sch', ())))))"

definition create_generation_from_public :: "string \<Rightarrow> u32 \<Rightarrow> string option \<Rightarrow> (string, storage_error) dbact" where
  "create_generation_from_public corpus counter source_baseline_id = transaction (
     bind_act (create_generation_schema corpus counter source_baseline_id) (\<lambda>generation.
     bind_act (populate_generation_from_public corpus generation) (\<lambda>_.
     ret generation)))"

section \<open>Index building\<close>

fun isqrt :: "nat \<Rightarrow> nat" where
  "isqrt n = (if n = 0 then 0 else let r = 2 * isqrt (n div 4) in if (r + 1) * (r + 1) \<le> n then r + 1 else r)"

declare isqrt.simps [simp del]

definition nearest_sqrt :: "nat \<Rightarrow> nat" where
  "nearest_sqrt n = (let r = isqrt n in if n > r * r + r then r + 1 else r)"

definition recommended_ivfflat_lists :: "int \<Rightarrow> u32" where
  "recommended_ivfflat_lists rows =
     (let n = nat (max rows 0);
          l = (if n \<le> 1000000 then (n + 500) div 1000 else nearest_sqrt n)
      in of_nat (min (max l 1) (2 ^ 32 - 1)))"

definition recommended_probes :: "u32 \<Rightarrow> u32" where
  "recommended_probes l = of_nat (min (max (nearest_sqrt (unat l)) 1) 4096)"

definition dense_vector_index_name :: string where
  "dense_vector_index_name = ''chunk_embeddings_embedding_ivfflat_idx''"

definition zone_unit_vector_index_name :: string where
  "zone_unit_vector_index_name = ''zone_unit_embeddings_ivfflat_idx''"

record generation_index_report =
  gi_constraints_built :: u32
  gi_foreign_keys_built :: u32
  gi_indexes_built :: u32
  gi_ivfflat_built :: "(string \<times> u32) list"

text \<open>No two rows share their key, and no key column is NULL: the check of \<open>ADD PRIMARY KEY\<close>.\<close>

fun keys_distinct :: "string list \<Rightarrow> row list \<Rightarrow> bool" where
  "keys_distinct pk [] = True"
| "keys_distinct pk (r # rs) = (same_key pk r r \<and> \<not> list_ex (same_key pk r) rs \<and> keys_distinct pk rs)"

definition add_constraints :: "string \<Rightarrow> string \<Rightarrow> (u32, storage_error) dbact" where
  "add_constraints schema t = on_schema schema (\<lambda>sv sch.
     if t \<in> set (sch_keyed sch) \<or> \<not> keys_distinct (sv_pk sv t) (sch_rows sch t) then Inl PostgresClient
     else Inr (sch\<lparr>sch_keyed := sch_keyed sch @ [t]\<rparr>, sv_constraint_count sv t))"

definition replay_indexes :: "string \<Rightarrow> string \<Rightarrow> (u32, storage_error) dbact" where
  "replay_indexes schema t = on_schema schema (\<lambda>sv sch.
     Inr (sch\<lparr>sch_indexes := sch_indexes sch @ sv_indexes sv t\<rparr>, of_nat (length (sv_indexes sv t))))"

text \<open>
  Every referenced table of a replicated table is itself replicated, so each foreign key is retargeted
  into the generation; PostgreSQL validates the rows when the constraint is added.
\<close>

definition add_foreign_keys :: "string \<Rightarrow> string \<Rightarrow> (u32, storage_error) dbact" where
  "add_foreign_keys schema t = on_schema schema (\<lambda>sv sch.
     let fks = filter (\<lambda>fk. fk_table fk = t) public_foreign_keys in
     if list_all (\<lambda>fk. list_all (fk_holds sch fk) (sch_rows sch t)) fks
     then Inr (sch\<lparr>sch_fks := sch_fks sch @ fks\<rparr>, of_nat (length fks)) else Inl PostgresClient)"

definition build_ivfflat :: "string \<Rightarrow> string \<times> string \<Rightarrow> (string \<times> u32, storage_error) dbact" where
  "build_ivfflat schema = (\<lambda>(t, index_name). on_schema schema (\<lambda>sv sch.
     let l = recommended_ivfflat_lists (int (length (sch_rows sch t))) in
     if index_name \<in> fst ` set (sch_indexes sch) then Inl PostgresClient
     else Inr (sch\<lparr>sch_indexes := sch_indexes sch @ [(index_name, \<lparr>is_access_method = ''ivfflat'', is_table = t,
          is_indexed_column = Some ''embedding'', is_lists = Some (show_nat (unat l))\<rparr>)]\<rparr>, (index_name, l))))"

definition build_generation_indexes :: "string \<Rightarrow> string \<Rightarrow> (generation_index_report, storage_error) dbact" where
  "build_generation_indexes generation corpus =
     (let schema = schema_for_generation generation in
      bind_act (fold_act replicated_tables (\<lambda>t (constraints, indexes).
          bind_act (add_constraints schema t) (\<lambda>c.
          bind_act (replay_indexes schema t) (\<lambda>i. ret (constraints + c, indexes + i)))) (0, 0)) (\<lambda>(constraints, indexes).
      bind_act (fold_act replicated_tables (\<lambda>t fks.
          bind_act (add_foreign_keys schema t) (\<lambda>n. ret (fks + n))) 0) (\<lambda>fks.
      bind_act (fold_act [(''chunk_embeddings'', dense_vector_index_name),
            (''zone_unit_embeddings'', zone_unit_vector_index_name)] (\<lambda>spec built.
          bind_act (build_ivfflat schema spec) (\<lambda>b. ret (built @ [b]))) []) (\<lambda>ivfflat.
      ret \<lparr>gi_constraints_built = constraints, gi_foreign_keys_built = fks, gi_indexes_built = indexes,
           gi_ivfflat_built = ivfflat\<rparr>))))"

text \<open>Evaluation of the list count on integers.\<close>

lemma word_clamp: "(of_nat (min (max l 1) (2 ^ 32 - 1)) :: u32) = word_of_int (min (max (int l) 1) 4294967295)"
proof -
  have "int (min (max l 1) (2 ^ 32 - 1)) = min (max (int l) 1) 4294967295" by simp
  then show ?thesis by (metis of_int_of_nat_eq)
qed

lemma recommended_ivfflat_lists_code [code]:
  "recommended_ivfflat_lists rows =
     (let n = max rows 0;
          l = (if n \<le> 1000000 then (n + 500) div 1000 else int (nearest_sqrt (nat n)))
      in word_of_int (min (max l 1) 4294967295))"
proof -
  let ?k = "nat (max rows 0)"
  have "int (if ?k \<le> 1000000 then (?k + 500) div 1000 else nearest_sqrt ?k) =
      (if max rows 0 \<le> 1000000 then (max rows 0 + 500) div 1000 else int (nearest_sqrt ?k))"
  proof (cases "?k \<le> 1000000")
    case True
    then have "max rows 0 \<le> 1000000" by linarith
    moreover have "int ((?k + 500) div 1000) = (max rows 0 + 500) div 1000"
      by (simp only: zdiv_int of_nat_add int_nat_eq of_nat_numeral) simp
    ultimately show ?thesis using True by (simp only: if_True)
  next
    case False
    then have "\<not> max rows 0 \<le> 1000000" by linarith
    then show ?thesis using False by (simp only: if_False)
  qed
  then show ?thesis
    unfolding recommended_ivfflat_lists_def Let_def word_clamp by (simp only:)
qed

end
