(* ===== verification/Activation.thy ===== *)
theory Activation
  imports Generations
begin

text \<open>
  The one globally visible mutation of a client (\<open>storage/generations.rs\<close>): the activation switch,
  with its lock, generation state check, cursor guard, cursor row, dense manifests, grants, stable
  views, readiness stamp and visibility probe in one transaction; and the removal of half-built and
  retired generations.
\<close>

section \<open>Control operations\<close>

definition find_generation :: "db \<Rightarrow> string \<Rightarrow> string \<Rightarrow> generation_row option" where
  "find_generation s corpus generation =
     List.find (\<lambda>g. gr_corpus g = corpus \<and> gr_generation g = generation) (db_registry s)"

definition active_generation_schema :: "db \<Rightarrow> string \<Rightarrow> string option" where
  "active_generation_schema s corpus =
     map_option (\<lambda>r. schema_for_generation (cs_active_generation r)) (bt_get (db_corpora s) corpus)"

definition active_generation_schemas :: "db \<Rightarrow> (string \<times> string) list" where
  "active_generation_schemas s = map (\<lambda>(c, r). (c, schema_for_generation (cs_active_generation r))) (db_corpora s)"

text \<open>\<open>CREATE OR REPLACE VIEW\<close> fails when a schema it names does not exist.\<close>

definition rebuild_server_views :: "(unit, storage_error) dbact" where
  "rebuild_server_views = statement (\<lambda>s.
     let active = map snd (active_generation_schemas s) in
     if list_all (\<lambda>schema. db_schemas s schema \<noteq> None) active
     then Inr (s\<lparr>db_views := Some active\<rparr>, ()) else Inl PostgresClient)"

datatype cursor_guard = FirstBaseline | ExactPrevious int | RebaselineForward int

definition guard_ok :: "cursor_guard \<Rightarrow> int option \<Rightarrow> bool" where
  "guard_ok guard current_sequence =
     (case guard of
        FirstBaseline \<Rightarrow> current_sequence = None
      | ExactPrevious expected \<Rightarrow> current_sequence = Some expected
      | RebaselineForward result_sequence \<Rightarrow>
          (case current_sequence of None \<Rightarrow> True | Some current \<Rightarrow> \<not> current \<ge> result_sequence))"

record dense_manifest_entry =
  dm_schema :: string
  dm_key :: string
  dm_parent_table :: string
  dm_embedding_table :: string
  dm_index_name :: string
  dm_lists :: u32
  dm_default_probes :: u32
  dm_embedding_fingerprint :: string
  dm_embedding_model :: string
  dm_embedding_dimension :: int
  dm_embedding_normalize :: bool

record activation_stamps =
  sp_sequence :: int
  sp_baseline_id :: string
  sp_schema_version :: int
  sp_embedding_fingerprint :: string
  sp_builder_versions :: json
  sp_last_package_id :: "string option"
  sp_last_package_digest :: "string option"

record read_visibility =
  rv_read_role :: string
  rv_view_owner_role :: string

definition upsert_generation_dense_manifest :: "dense_manifest_entry \<Rightarrow> (unit, storage_error) dbact" where
  "upsert_generation_dense_manifest e = statement (\<lambda>s.
     if db_schemas s (dm_schema e) = None then Inl PostgresClient
     else Inr (put_manifest (dm_key e) (DenseManifest
        \<lparr>de_embedding_fingerprint = dm_embedding_fingerprint e, de_model = dm_embedding_model e,
         de_dimension = dm_embedding_dimension e, de_normalize = dm_embedding_normalize e,
         de_index_name = dm_index_name e, de_lists = dm_lists e, de_default_probes = dm_default_probes e,
         de_parents = int (length (schema_rows s (dm_schema e) (dm_parent_table e))),
         de_embeddings = int (length (schema_rows s (dm_schema e) (dm_embedding_table e)))\<rparr>) s, ()))"

definition retire_active :: "string \<Rightarrow> string \<Rightarrow> db \<Rightarrow> db" where
  "retire_active corpus generation s = s\<lparr>db_registry := map (\<lambda>g.
     if gr_corpus g = corpus \<and> gr_state g = Active \<and> gr_generation g \<noteq> generation
     then g\<lparr>gr_state := Retired\<rparr> else g) (db_registry s)\<rparr>"

definition mark_active :: "string \<Rightarrow> string \<Rightarrow> activation_stamps \<Rightarrow> db \<Rightarrow> db" where
  "mark_active corpus generation stamps s = s\<lparr>db_registry := map (\<lambda>g.
     if gr_corpus g = corpus \<and> gr_generation g = generation
     then g\<lparr>gr_state := Active, gr_source_package_id := sp_last_package_id stamps,
            gr_validation_digest := sp_last_package_digest stamps\<rparr> else g) (db_registry s)\<rparr>"

definition stamped_row :: "string \<Rightarrow> activation_stamps \<Rightarrow> corpus_row" where
  "stamped_row generation stamps = \<lparr>cs_active_generation = generation, cs_sequence = sp_sequence stamps,
     cs_baseline_id = sp_baseline_id stamps, cs_schema_version = sp_schema_version stamps,
     cs_embedding_fingerprint = sp_embedding_fingerprint stamps,
     cs_builder_versions = sp_builder_versions stamps, cs_last_package_id = sp_last_package_id stamps,
     cs_last_package_digest = sp_last_package_digest stamps\<rparr>"

definition put_corpus :: "string \<Rightarrow> corpus_row \<Rightarrow> db \<Rightarrow> db" where
  "put_corpus corpus r s = s\<lparr>db_corpora := bt_insert corpus r (db_corpora s)\<rparr>"

definition grant_read_visibility :: "string \<Rightarrow> read_visibility \<Rightarrow> (unit, storage_error) dbact" where
  "grant_read_visibility generation v = statement (\<lambda>s.
     let schema = schema_for_generation generation in
     if db_schemas s schema = None then Inl PostgresClient
     else Inr (s\<lparr>db_grants := [(rv_read_role v, schema), (rv_view_owner_role v, schema)] @ db_grants s\<rparr>, ()))"

text \<open>
  Reading as the role: the control tables and the views need the role's base grants, a stable view
  resolves through the privileges of its owner, and the new physical schema is read directly.
\<close>

definition probe_read_visibility :: "string \<Rightarrow> string \<Rightarrow> string \<Rightarrow> (unit, storage_error) dbact" where
  "probe_read_visibility corpus generation read_role = statement (\<lambda>s.
     if read_role \<in> set (sv_read_grants (db_server s))
        \<and> (read_role, schema_for_generation generation) \<in> set (db_grants s)
        \<and> (case db_views s of None \<Rightarrow> False
           | Some schemas \<Rightarrow> list_all (\<lambda>v. (sv_view_owner (db_server s), v) \<in> set (db_grants s)) schemas)
     then Inr (s, ()) else Inl PostgresClient)"

definition activate_generation_inner ::
  "string \<Rightarrow> string \<Rightarrow> activation_stamps \<Rightarrow> cursor_guard \<Rightarrow> dense_manifest_entry list \<Rightarrow>
   read_visibility option \<Rightarrow> (unit, storage_error) dbact" where
  "activate_generation_inner corpus generation stamps guard dense_manifests visibility = transaction (
     bind_act (gets db_apply_lock_busy) (\<lambda>busy.
     bind_act (check_act (\<not> busy) ApplyLockBusy) (\<lambda>_.
     bind_act (gets (\<lambda>s. find_generation s corpus generation)) (\<lambda>found.
     bind_act (check_act (case found of None \<Rightarrow> False | Some g \<Rightarrow> gr_state g = Building) GenerationsError) (\<lambda>_.
     bind_act (gets (\<lambda>s. map_option cs_sequence (bt_get (db_corpora s) corpus))) (\<lambda>current_sequence.
     bind_act (check_act (guard_ok guard current_sequence) GenerationsError) (\<lambda>_.
     bind_act (modify (retire_active corpus generation)) (\<lambda>_.
     bind_act (modify (mark_active corpus generation stamps)) (\<lambda>_.
     bind_act (modify (put_corpus corpus (stamped_row generation stamps))) (\<lambda>_.
     bind_act (for_each dense_manifests upsert_generation_dense_manifest) (\<lambda>_.
     bind_act (case visibility of None \<Rightarrow> ret () | Some v \<Rightarrow> grant_read_visibility generation v) (\<lambda>_.
     bind_act rebuild_server_views (\<lambda>_.
     bind_act (stamp_query_readiness generation) (\<lambda>_.
     case visibility of None \<Rightarrow> ret () | Some v \<Rightarrow> probe_read_visibility corpus generation (rv_read_role v)))))))))))))))"

definition activate_generation ::
  "string \<Rightarrow> string \<Rightarrow> activation_stamps \<Rightarrow> int option \<Rightarrow> read_visibility option \<Rightarrow> (unit, storage_error) dbact" where
  "activate_generation corpus generation stamps expected_previous_sequence visibility =
     activate_generation_inner corpus generation stamps
       (case expected_previous_sequence of None \<Rightarrow> FirstBaseline | Some n \<Rightarrow> ExactPrevious n) [] visibility"

section \<open>Clean-up\<close>

definition delete_generation_row :: "string \<Rightarrow> string \<Rightarrow> db \<Rightarrow> db" where
  "delete_generation_row corpus generation s =
     s\<lparr>db_registry := filter (\<lambda>g. \<not> (gr_corpus g = corpus \<and> gr_generation g = generation)) (db_registry s)\<rparr>"

text \<open>\<open>DROP SCHEMA \<dots> CASCADE\<close> also drops the views that read the schema.\<close>

definition drop_schema :: "string \<Rightarrow> db \<Rightarrow> db" where
  "drop_schema schema s = s\<lparr>db_schemas := (db_schemas s)(schema := None),
     db_views := (case db_views s of None \<Rightarrow> None | Some vs \<Rightarrow> if schema \<in> set vs then None else Some vs)\<rparr>"

definition reset_building_generation :: "string \<Rightarrow> string \<Rightarrow> (unit, storage_error) dbact" where
  "reset_building_generation corpus generation = transaction (
     bind_act (gets (\<lambda>s. find_generation s corpus generation)) (\<lambda>found.
     case found of
       None \<Rightarrow> ret ()
     | Some g \<Rightarrow>
         bind_act (check_act (gr_state g = Building) GenerationsError) (\<lambda>_.
         bind_act (modify (drop_schema (gr_physical_schema g))) (\<lambda>_.
         modify (delete_generation_row corpus generation)))))"

definition drop_retired_generation :: "string \<Rightarrow> string \<Rightarrow> (unit, storage_error) dbact" where
  "drop_retired_generation corpus generation = transaction (
     bind_act (gets (\<lambda>s. find_generation s corpus generation)) (\<lambda>found.
     case found of
       None \<Rightarrow> fail GenerationsError
     | Some g \<Rightarrow>
         bind_act (check_act (gr_state g = Retired) GenerationsError) (\<lambda>_.
         bind_act (gets (\<lambda>s. db_schemas s (gr_physical_schema g))) (\<lambda>sch.
         bind_act (check_act (sch \<noteq> None) PostgresClient) (\<lambda>_.
         bind_act (modify (drop_schema (gr_physical_schema g))) (\<lambda>_.
         modify (delete_generation_row corpus generation)))))))"

section \<open>Generation names identify their corpus\<close>

lemma generation_counter_of_name: "generation_counter_of corpus (generation_name corpus n) = Some n"
proof -
  have "strip_prefix (generation_name corpus n) (corpus @ ''_g'') = Some (pad_zero 4 (show_nat (unat n)))"
    using strip_prefix_append [of "corpus @ ''_g''"] by (simp add: generation_name_def)
  then show ?thesis by (simp add: generation_counter_of_def parse_u32_pad_zero)
qed

lemma underscore_notin_pad: "CHR ''_'' \<notin> set (pad_zero k (show_nat n))"
  by (simp add: pad_zero_def digits_notin [OF show_nat_digits] is_digit_def)

lemma append_last_sep_inject:
  "c \<notin> set b \<Longrightarrow> c \<notin> set b' \<Longrightarrow> a @ c # b = a' @ c # b' \<longleftrightarrow> a = a' \<and> b = b'"
  using append_sep_inject [of c "rev b" "rev b'" "rev a" "rev a'"]
  by (metis (no_types, lifting) append.assoc append_Cons append_Nil rev.simps(2) rev_append rev_is_rev_conv set_rev)

lemma generation_name_inject [simp]: "generation_name c m = generation_name d n \<longleftrightarrow> c = d \<and> m = n"
proof -
  have "c = d \<and> m = n" if "generation_name c m = generation_name d n"
  proof -
    have "CHR ''_'' \<notin> set (CHR ''g'' # pad_zero 4 (show_nat (unat k)))" for k :: u32
      using underscore_notin_pad [of 4 "unat k"] by simp
    from append_last_sep_inject [OF this this, of c m d n] that
    have "c = d" by (simp add: generation_name_def)
    then show ?thesis
      using that generation_counter_of_name [of c m] generation_counter_of_name [of c n] by simp
  qed
  then show ?thesis by blast
qed

text \<open>
  C34.  Generation labels are injective across corpora and counters and parse back: a physical schema
  belongs to exactly one corpus and one counter (corpus names may themselves contain \<open>_g\<close>), and the
  counter of a label is recovered for every value.
\<close>

theorem generation_names_identify:
  "(generation_schema c m = generation_schema d n \<longleftrightarrow> c = d \<and> m = n)
   \<and> generation_counter_of c (generation_name c m) = Some m
   \<and> generation_schema c m = schema_for_generation (generation_name c m)"
  by (simp add: generation_schema_def schema_for_generation_def generation_counter_of_name)

text \<open>
  PostgreSQL keeps only the first 63 bytes of an identifier.  A corpus of the maximal length the
  contract allows does not leave room for the counter: two of its generations share their schema name.
\<close>

lemma long_corpus_schemas_collide:
  "\<exists>corpus. is_ok (corpus_new corpus) \<and> take 63 (generation_schema corpus 1) = take 63 (generation_schema corpus 2)"
proof (intro exI conjI)
  let ?c = "CHR ''a'' # replicate 47 CHR ''a''"
  show "is_ok (corpus_new ?c)"
    by (simp add: corpus_new_def corpus_valid_def is_lower_def list_all_iff)
  show "take 63 (generation_schema ?c 1) = take 63 (generation_schema ?c 2)"
    by (simp add: generation_schema_def generation_name_def take_Cons')
qed

text \<open>The label guard also accepts labels that are not the canonical one of their counter.\<close>

lemma noncanonical_label_accepted:
  "generation_counter_of ''core'' ''core_g1'' = Some 1 \<and> generation_name ''core'' 1 \<noteq> ''core_g1''"
  by (simp add: generation_counter_of_def parse_u32_def parse_unsigned_def is_digit_def digits_val_def
      digit_val_def generation_name_def show_nat.simps pad_zero_def digit_char_def)

section \<open>The topology invariant\<close>

text \<open>
  The registry has one row per generation, each with the schema its label names; a corpus is at a
  generation exactly when that generation is the active one of the registry; the active schemas exist;
  and the stable views read exactly the active schemas.
\<close>

definition registry_ok :: "db \<Rightarrow> bool" where
  "registry_ok s \<longleftrightarrow>
     distinct (map (\<lambda>g. (gr_corpus g, gr_generation g)) (db_registry s))
     \<and> (\<forall>g\<in>set (db_registry s). \<exists>n. gr_generation g = generation_name (gr_corpus g) n
          \<and> gr_physical_schema g = schema_for_generation (gr_generation g))"

definition active_ok :: "db \<Rightarrow> bool" where
  "active_ok s \<longleftrightarrow>
     (\<forall>g\<in>set (db_registry s). gr_state g = Active \<longleftrightarrow>
        (\<exists>r. bt_get (db_corpora s) (gr_corpus g) = Some r \<and> cs_active_generation r = gr_generation g))
     \<and> (\<forall>c r. bt_get (db_corpora s) c = Some r \<longrightarrow>
          (\<exists>g\<in>set (db_registry s). gr_corpus g = c \<and> gr_generation g = cs_active_generation r)
          \<and> db_schemas s (schema_for_generation (cs_active_generation r)) \<noteq> None)"

definition views_ok :: "db \<Rightarrow> bool" where
  "views_ok s \<longleftrightarrow> db_views s = Some (map snd (active_generation_schemas s))"

definition topology_ok :: "db \<Rightarrow> bool" where
  "topology_ok s \<longleftrightarrow> bt_ok (db_corpora s) \<and> registry_ok s \<and> active_ok s \<and> views_ok s"

lemma schema_for_generation_inject [simp]:
  "schema_for_generation a = schema_for_generation b \<longleftrightarrow> a = b"
  by (simp add: schema_for_generation_def)

lemma bt_get_set: "bt_ok m \<Longrightarrow> bt_get m k = Some v \<longleftrightarrow> (k, v) \<in> set m"
  by (simp add: bt_get_def bt_ok_distinct)

lemma find_generation_Some:
  "find_generation s c gen = Some g \<Longrightarrow> g \<in> set (db_registry s) \<and> gr_corpus g = c \<and> gr_generation g = gen"
  unfolding find_generation_def by (drule find_SomeD) simp

lemma find_generation_None:
  "find_generation s c gen = None \<Longrightarrow> \<forall>g\<in>set (db_registry s). \<not> (gr_corpus g = c \<and> gr_generation g = gen)"
  by (auto simp: find_generation_def find_None_iff)

lemma registry_unique:
  assumes "registry_ok s" "g \<in> set (db_registry s)" "h \<in> set (db_registry s)"
    "gr_corpus g = gr_corpus h" "gr_generation g = gr_generation h"
  shows "g = h"
proof -
  have "inj_on (\<lambda>g. (gr_corpus g, gr_generation g)) (set (db_registry s))"
    using assms(1) unfolding registry_ok_def distinct_map by blast
  from inj_onD [OF this _ assms(2,3)] assms(4,5) show ?thesis by simp
qed

text \<open>At most one generation of a corpus is active.\<close>

lemma one_active_generation:
  assumes "topology_ok s" "g \<in> set (db_registry s)" "h \<in> set (db_registry s)"
    "gr_state g = Active" "gr_state h = Active" "gr_corpus g = gr_corpus h"
  shows "g = h"
proof -
  have "gr_generation g = gr_generation h"
    using assms by (force simp: topology_ok_def active_ok_def)
  with assms registry_unique show ?thesis by (auto simp: topology_ok_def)
qed

text \<open>A schema read by the views belongs to an active generation.\<close>

lemma views_are_active:
  assumes "topology_ok s" "db_views s = Some vs" "g \<in> set (db_registry s)"
    "gr_physical_schema g \<in> set vs"
  shows "gr_state g = Active"
proof -
  from assms obtain c r where cr: "(c, r) \<in> set (db_corpora s)"
    "gr_physical_schema g = schema_for_generation (cs_active_generation r)"
    by (auto simp: topology_ok_def views_ok_def active_generation_schemas_def)
  with assms have get: "bt_get (db_corpora s) c = Some r" by (simp add: topology_ok_def bt_get_set)
  with assms(1) obtain h where h: "h \<in> set (db_registry s)" "gr_corpus h = c"
    "gr_generation h = cs_active_generation r"
    unfolding topology_ok_def active_ok_def by blast
  from assms(1,3) h(1) obtain m n where
    "gr_generation g = generation_name (gr_corpus g) m" "gr_generation h = generation_name (gr_corpus h) n"
    "gr_physical_schema g = schema_for_generation (gr_generation g)"
    unfolding topology_ok_def registry_ok_def by blast
  with cr(2) h have "gr_generation g = cs_active_generation r" "gr_corpus g = c"
    by (simp, metis generation_name_inject schema_for_generation_inject)
  with assms(1,3) get show ?thesis unfolding topology_ok_def active_ok_def by auto
qed

section \<open>What the switch does\<close>

definition but_manifest :: "db \<Rightarrow> db" where
  "but_manifest s = s\<lparr>db_manifest := Map.empty\<rparr>"

definition but_grants :: "db \<Rightarrow> db" where
  "but_grants s = s\<lparr>db_grants := []\<rparr>"

lemma same_but_manifest:
  assumes "same but_manifest s t"
  shows "db_server t = db_server s" "db_registry t = db_registry s" "db_corpora t = db_corpora s"
    "db_schemas t = db_schemas s" "db_views t = db_views s" "db_grants t = db_grants s"
    "db_anchors t = db_anchors s" "db_tokens t = db_tokens s"
    "db_apply_lock_busy t = db_apply_lock_busy s" "db_corpus_locks t = db_corpus_locks s"
  using assms by (cases s; cases t; simp add: same_def but_manifest_def)+

lemma same_but_grants:
  assumes "same but_grants s t"
  shows "db_server t = db_server s" "db_registry t = db_registry s" "db_corpora t = db_corpora s"
    "db_schemas t = db_schemas s" "db_views t = db_views s" "db_manifest t = db_manifest s"
    "db_anchors t = db_anchors s" "db_tokens t = db_tokens s"
    "db_apply_lock_busy t = db_apply_lock_busy s" "db_corpus_locks t = db_corpus_locks s"
  using assms by (cases s; cases t; simp add: same_def but_grants_def)+

lemma keeps_dense [keeps_intros]: "keeps (same but_manifest) (upsert_generation_dense_manifest e)"
  unfolding upsert_generation_dense_manifest_def
  by (intro keeps_statement) (auto simp: same_def but_manifest_def put_manifest_def split: if_splits)

lemma keeps_stamp [keeps_intros]: "keeps (same but_manifest) (stamp_query_readiness g)"
  unfolding stamp_query_readiness_def
  by (intro keeps_statement)
    (auto simp: same_def but_manifest_def put_manifest_def Let_def and_then_eq_Inr split: prod.splits)

lemma keeps_grant [keeps_intros]: "keeps (same but_grants) (grant_read_visibility g v)"
  unfolding grant_read_visibility_def
  by (intro keeps_statement) (auto simp: same_def but_grants_def Let_def split: if_splits)

lemma keeps_dense_all [keeps_intros]: "keeps (same but_manifest) (for_each es upsert_generation_dense_manifest)"
  by (intro keeps_intros)

lemma switch_fields [simp]:
  "db_corpora (retire_active c g s) = db_corpora s" "db_schemas (retire_active c g s) = db_schemas s"
  "db_corpora (mark_active c g st s) = db_corpora s" "db_schemas (mark_active c g st s) = db_schemas s"
  "db_corpora (put_corpus c r s) = bt_insert c r (db_corpora s)" "db_schemas (put_corpus c r s) = db_schemas s"
  "db_registry (put_corpus c r s) = db_registry s"
  "db_server (retire_active c g s) = db_server s" "db_server (mark_active c g st s) = db_server s"
  "db_server (put_corpus c r s) = db_server s"
  "db_corpus_locks (retire_active c g s) = db_corpus_locks s" "db_corpus_locks (mark_active c g st s) = db_corpus_locks s"
  "db_corpus_locks (put_corpus c r s) = db_corpus_locks s"
  by (simp_all add: retire_active_def mark_active_def put_corpus_def)

text \<open>The registry after the switch.\<close>

definition switched_registry :: "string \<Rightarrow> string \<Rightarrow> activation_stamps \<Rightarrow> db \<Rightarrow> generation_row list" where
  "switched_registry corpus generation stamps s =
     db_registry (mark_active corpus generation stamps (retire_active corpus generation s))"

lemma activate_Inr:
  assumes "activate_generation_inner corpus generation stamps guard dense visibility s = (s', Inr u)"
  shows "\<not> db_apply_lock_busy s"
    and "\<exists>g. find_generation s corpus generation = Some g \<and> gr_state g = Building"
    and "guard_ok guard (map_option cs_sequence (bt_get (db_corpora s) corpus))"
    and "db_corpora s' = bt_insert corpus (stamped_row generation stamps) (db_corpora s)"
    and "db_registry s' = switched_registry corpus generation stamps s"
    and "db_schemas s' = db_schemas s"
    and "db_views s' = Some (map snd (active_generation_schemas s'))"
    and "list_all (\<lambda>schema. db_schemas s schema \<noteq> None) (map snd (active_generation_schemas s'))"
    and "db_server s' = db_server s"
    and "db_corpus_locks s' = db_corpus_locks s"
    and "\<exists>report. load_query_readiness_with_client s' = Inr report"
    and "list_all (\<lambda>(c, r). corpus_coverage_ok s' generation r) (db_corpora s')"
proof -
  let ?s0 = "put_corpus corpus (stamped_row generation stamps)
    (mark_active corpus generation stamps (retire_active corpus generation s))"
  from assms obtain s1 s2 s3 s4 report where
    pre: "\<not> db_apply_lock_busy s"
      "\<exists>g. find_generation s corpus generation = Some g \<and> gr_state g = Building"
      "guard_ok guard (map_option cs_sequence (bt_get (db_corpora s) corpus))"
    and dense: "for_each dense upsert_generation_dense_manifest ?s0 = (s1, Inr ())"
    and grant: "(case visibility of None \<Rightarrow> ret () | Some v \<Rightarrow> grant_read_visibility generation v) s1 = (s2, Inr ())"
    and views: "rebuild_server_views s2 = (s3, Inr ())"
    and stamp: "stamp_query_readiness generation s3 = (s4, Inr report)"
    and probe: "(case visibility of None \<Rightarrow> ret ()
        | Some v \<Rightarrow> probe_read_visibility corpus generation (rv_read_role v)) s4 = (s', Inr u)"
    by (auto simp: activate_generation_inner_def action_simps split: option.splits)
  have d: "same but_manifest ?s0 s1" by (rule keepsD [OF keeps_dense_all dense])
  have g: "same but_grants s1 s2"
    using grant keepsD [OF keeps_grant]
    by (auto simp: action_simps same_def split: option.splits)
  have v: "s3 = s2\<lparr>db_views := Some (map snd (active_generation_schemas s2))\<rparr>"
    "list_all (\<lambda>schema. db_schemas s2 schema \<noteq> None) (map snd (active_generation_schemas s2))"
    using views by (auto simp: rebuild_server_views_def action_simps Let_def split: if_splits)
  have m: "same but_manifest s3 s4" by (rule keepsD [OF keeps_stamp stamp])
  have e: "s' = s4"
    using probe by (auto simp: probe_read_visibility_def action_simps split: option.splits if_splits)
  note frames = same_but_manifest [OF d] same_but_grants [OF g] same_but_manifest [OF m]
  note stamped = stamp_Inr [THEN iffD1, OF stamp]
  show "\<not> db_apply_lock_busy s"
    "\<exists>g. find_generation s corpus generation = Some g \<and> gr_state g = Building"
    "guard_ok guard (map_option cs_sequence (bt_get (db_corpora s) corpus))"
    by (fact pre)+
  show corpora: "db_corpora s' = bt_insert corpus (stamped_row generation stamps) (db_corpora s)"
    and "db_registry s' = switched_registry corpus generation stamps s"
    and schemas: "db_schemas s' = db_schemas s"
    and "db_server s' = db_server s"
    and "db_corpus_locks s' = db_corpus_locks s"
    by (simp_all add: e frames v(1) switched_registry_def)
  show "db_views s' = Some (map snd (active_generation_schemas s'))"
    by (simp add: e frames v(1) active_generation_schemas_def)
  show "list_all (\<lambda>schema. db_schemas s schema \<noteq> None) (map snd (active_generation_schemas s'))"
    using v(2) by (simp add: e frames v(1) active_generation_schemas_def)
  have nonempty: "db_corpora s3 \<noteq> []" using stamped by auto
  have cov: "list_all (\<lambda>(c, r). corpus_coverage_ok s3 generation r) (db_corpora s3)"
    using stamped stamp_fold_ok [of s3 generation "db_corpora s3" "((0, 0), (0, 0))"]
    by (auto simp: is_ok_iff list_all_iff)
  have s4: "s4 = put_manifest query_readiness_key (CachedReadiness (active_read_signature s3) report) s3"
    using stamped by blast
  show "\<exists>report. load_query_readiness_with_client s' = Inr report"
    using signature_not_public [OF nonempty]
    by (simp add: e s4 load_query_readiness_with_client_def Let_def)
  show "list_all (\<lambda>(c, r). corpus_coverage_ok s' generation r) (db_corpora s')"
    using cov by (simp add: e s4 corpus_coverage_ok_def compute_generation_coverage_def)
qed

text \<open>One row of the registry through the switch.\<close>

definition switch_row :: "string \<Rightarrow> string \<Rightarrow> activation_stamps \<Rightarrow> generation_row \<Rightarrow> generation_row" where
  "switch_row corpus generation stamps g =
     (if gr_corpus g = corpus \<and> gr_generation g = generation
      then g\<lparr>gr_state := Active, gr_source_package_id := sp_last_package_id stamps,
             gr_validation_digest := sp_last_package_digest stamps\<rparr>
      else if gr_corpus g = corpus \<and> gr_state g = Active then g\<lparr>gr_state := Retired\<rparr> else g)"

lemma switched_registry_map: "switched_registry c gen st s = map (switch_row c gen st) (db_registry s)"
  by (simp add: switched_registry_def mark_active_def retire_active_def switch_row_def)

lemma switch_row_key [simp]:
  "gr_corpus (switch_row c gen st g) = gr_corpus g"
  "gr_generation (switch_row c gen st g) = gr_generation g"
  "gr_physical_schema (switch_row c gen st g) = gr_physical_schema g"
  by (simp_all add: switch_row_def)

lemma topology_activate:
  assumes top: "topology_ok s"
    and act: "activate_generation_inner corpus generation stamps guard dense visibility s = (s', Inr u)"
  shows "topology_ok s'"
proof -
  note eff = activate_Inr [OF act]
  have bt: "bt_ok (db_corpora s)" using top by (simp add: topology_ok_def)
  have get: "bt_get (db_corpora s') = (bt_get (db_corpora s))(corpus \<mapsto> stamped_row generation stamps)"
    using bt by (simp add: eff(4) bt_get_insert)
  have bt': "bt_ok (db_corpora s')" using bt by (simp add: eff(4) bt_ok_insert)
  obtain g0 where g0: "g0 \<in> set (db_registry s)" "gr_corpus g0 = corpus" "gr_generation g0 = generation"
    using eff(2) find_generation_Some by blast
  have "registry_ok s'"
    using top unfolding topology_ok_def registry_ok_def eff(5) switched_registry_map
    by (simp add: comp_def)
  moreover have "active_ok s'"
    unfolding active_ok_def
  proof (intro conjI ballI allI impI)
    fix g assume "g \<in> set (db_registry s')"
    then obtain h where h: "h \<in> set (db_registry s)" "g = switch_row corpus generation stamps h"
      by (auto simp: eff(5) switched_registry_map)
    have "gr_state h = Active \<longleftrightarrow> (\<exists>r. bt_get (db_corpora s) (gr_corpus h) = Some r
        \<and> cs_active_generation r = gr_generation h)"
      using top h(1) by (simp add: topology_ok_def active_ok_def)
    then show "gr_state g = Active \<longleftrightarrow> (\<exists>r. bt_get (db_corpora s') (gr_corpus g) = Some r
        \<and> cs_active_generation r = gr_generation g)"
      by (auto simp: h(2) get switch_row_def stamped_row_def)
  next
    fix c r assume r: "bt_get (db_corpora s') c = Some r"
    show "\<exists>g\<in>set (db_registry s'). gr_corpus g = c \<and> gr_generation g = cs_active_generation r"
    proof (cases "c = corpus")
      case True
      with r g0 show ?thesis
        by (auto simp: get eff(5) switched_registry_map stamped_row_def)
    next
      case False
      with r top have "\<exists>g\<in>set (db_registry s). gr_corpus g = c \<and> gr_generation g = cs_active_generation r"
        by (auto simp: get topology_ok_def active_ok_def)
      then show ?thesis by (auto simp: eff(5) switched_registry_map)
    qed
    have "(c, r) \<in> set (db_corpora s')" using r bt' by (simp add: bt_get_set)
    then show "db_schemas s' (schema_for_generation (cs_active_generation r)) \<noteq> None"
      using eff(8) by (auto simp: eff(6) list_all_iff active_generation_schemas_def)
  qed
  ultimately show ?thesis using bt' eff(7) by (simp add: topology_ok_def views_ok_def)
qed

lemma activate_error: "activate_generation_inner corpus generation stamps guard dense visibility s = (s', Inl e) \<Longrightarrow> s' = s"
  by (simp add: activate_generation_inner_def action_simps)

text \<open>
  C16.  The activation switch is atomic and sound.  On any error nothing at all changes.  On success
  the generation was building and the cursor guard held; the corpus stands at the stamped row and every
  other corpus where it was; no table content moved; the topology invariant holds (so exactly one
  generation of the corpus is active and the stable views read exactly the active schemas); and the
  new topology is stamped ready.
\<close>

theorem activation_atomic_and_sound:
  assumes "topology_ok s"
    and "activate_generation_inner corpus generation stamps guard dense visibility s = (s', result)"
  shows "case result of
      Inl e \<Rightarrow> s' = s
    | Inr _ \<Rightarrow>
        (\<exists>g. find_generation s corpus generation = Some g \<and> gr_state g = Building)
        \<and> guard_ok guard (map_option cs_sequence (bt_get (db_corpora s) corpus))
        \<and> bt_get (db_corpora s') = (bt_get (db_corpora s))(corpus \<mapsto> stamped_row generation stamps)
        \<and> db_schemas s' = db_schemas s
        \<and> topology_ok s'
        \<and> is_ok (load_query_readiness_with_client s')"
proof (cases result)
  case (Inl e)
  with assms(2) activate_error show ?thesis by auto
next
  case (Inr u)
  note act = assms(2) [unfolded Inr]
  have "bt_ok (db_corpora s)" using assms(1) by (simp add: topology_ok_def)
  then show ?thesis
    using activate_Inr [OF act] topology_activate [OF assms(1) act]
    by (simp add: Inr bt_get_insert is_ok_iff)
qed

section \<open>Clean-up never changes what readers see\<close>

lemma view_rows_drop:
  assumes "case db_views s of None \<Rightarrow> True | Some vs \<Rightarrow> schema \<notin> set vs"
  shows "db_views (drop_schema schema s) = db_views s \<and> view_rows (drop_schema schema s) t = view_rows s t"
proof (cases "db_views s")
  case None
  then show ?thesis by (simp add: drop_schema_def view_rows_def)
next
  case (Some vs)
  with assms have rows: "map (\<lambda>v. schema_rows (drop_schema schema s) v t) vs = map (\<lambda>v. schema_rows s v t) vs"
    by (auto simp: schema_rows_def drop_schema_def)
  from Some assms have "db_views (drop_schema schema s) = Some vs" by (simp add: drop_schema_def)
  with Some rows show ?thesis by (simp add: view_rows_def cong: map_cong)
qed

lemma drop_schema_fields [simp]:
  "db_corpora (drop_schema x s) = db_corpora s" "db_registry (drop_schema x s) = db_registry s"
  "db_manifest (drop_schema x s) = db_manifest s" "db_server (drop_schema x s) = db_server s"
  "db_schemas (drop_schema x s) = (db_schemas s)(x := None)"
  "db_corpus_locks (drop_schema x s) = db_corpus_locks s"
  by (simp_all add: drop_schema_def)

lemma delete_generation_row_fields [simp]:
  "db_corpora (delete_generation_row c g s) = db_corpora s" "db_schemas (delete_generation_row c g s) = db_schemas s"
  "db_views (delete_generation_row c g s) = db_views s" "db_manifest (delete_generation_row c g s) = db_manifest s"
  "db_server (delete_generation_row c g s) = db_server s"
  "db_corpus_locks (delete_generation_row c g s) = db_corpus_locks s"
  by (simp_all add: delete_generation_row_def)

lemma view_rows_delete_row [simp]: "view_rows (delete_generation_row c g s) t = view_rows s t"
  by (simp add: view_rows_def schema_rows_def)

text \<open>Removing an inactive generation: the invariant stays, the views and their rows are untouched.\<close>

definition remove_generation :: "generation_row \<Rightarrow> db \<Rightarrow> db" where
  "remove_generation g s = delete_generation_row (gr_corpus g) (gr_generation g) (drop_schema (gr_physical_schema g) s)"

lemma remove_inactive:
  assumes top: "topology_ok s" and g: "g \<in> set (db_registry s)" "gr_state g \<noteq> Active"
  shows "topology_ok (remove_generation g s)" and "view_rows (remove_generation g s) t = view_rows s t"
    and "db_corpora (remove_generation g s) = db_corpora s"
    and "db_manifest (remove_generation g s) = db_manifest s"
proof -
  let ?d = "drop_schema (gr_physical_schema g) s" and ?s = "remove_generation g s"
  have unread: "case db_views s of None \<Rightarrow> True | Some vs \<Rightarrow> gr_physical_schema g \<notin> set vs"
    using views_are_active [OF top _ g(1)] g(2) by (auto split: option.splits)
  note dropped = view_rows_drop [OF unread]
  have views: "db_views ?s = db_views s" using dropped by (simp add: remove_generation_def)
  show "view_rows ?s t = view_rows s t"
    using dropped [of t] by (simp add: remove_generation_def)
  show corpora: "db_corpora ?s = db_corpora s" and "db_manifest ?s = db_manifest s"
    by (simp_all add: remove_generation_def)
  have reg: "db_registry ?s = filter (\<lambda>h. \<not> (gr_corpus h = gr_corpus g \<and> gr_generation h = gr_generation g)) (db_registry s)"
    by (simp add: remove_generation_def delete_generation_row_def)
  have phys: "gr_physical_schema g = schema_for_generation (gr_generation g)"
    using top g(1) by (auto simp: topology_ok_def registry_ok_def)
  have "registry_ok ?s"
    using top unfolding topology_ok_def registry_ok_def reg by (auto simp: distinct_map_filter)
  moreover have "active_ok ?s"
    unfolding active_ok_def corpora
  proof (intro conjI ballI allI impI)
    fix h assume "h \<in> set (db_registry ?s)"
    then show "gr_state h = Active \<longleftrightarrow> (\<exists>r. bt_get (db_corpora s) (gr_corpus h) = Some r
        \<and> cs_active_generation r = gr_generation h)"
      using top by (auto simp: reg topology_ok_def active_ok_def)
  next
    fix c r assume r: "bt_get (db_corpora s) c = Some r"
    from top r obtain h where h: "h \<in> set (db_registry s)" "gr_corpus h = c"
      "gr_generation h = cs_active_generation r"
      unfolding topology_ok_def active_ok_def by blast
    have "gr_state h = Active" using top h r by (auto simp: topology_ok_def active_ok_def)
    with g(2) have "h \<noteq> g" by auto
    with top g(1) h(1) have key: "\<not> (gr_corpus h = gr_corpus g \<and> gr_generation h = gr_generation g)"
      using registry_unique unfolding topology_ok_def by blast
    then show "\<exists>h\<in>set (db_registry ?s). gr_corpus h = c \<and> gr_generation h = cs_active_generation r"
      using h by (auto simp: reg)
    from top h(1) g(1) obtain m n where "gr_generation h = generation_name (gr_corpus h) m"
      "gr_generation g = generation_name (gr_corpus g) n"
      unfolding topology_ok_def registry_ok_def by blast
    with key have "cs_active_generation r \<noteq> gr_generation g"
      using h(3) by (metis generation_name_inject)
    then show "db_schemas ?s (schema_for_generation (cs_active_generation r)) \<noteq> None"
      using top r by (simp add: remove_generation_def phys topology_ok_def active_ok_def)
  qed
  ultimately show "topology_ok ?s"
    using top views corpora by (simp add: topology_ok_def views_ok_def active_generation_schemas_def)
qed

lemma drop_retired_Inr:
  "drop_retired_generation corpus generation s = (s', Inr u) \<longleftrightarrow>
     (\<exists>g. find_generation s corpus generation = Some g \<and> gr_state g = Retired
        \<and> db_schemas s (gr_physical_schema g) \<noteq> None
        \<and> s' = delete_generation_row corpus generation (drop_schema (gr_physical_schema g) s))"
  by (auto simp: drop_retired_generation_def action_simps split: option.splits)

lemma reset_building_Inr:
  "reset_building_generation corpus generation s = (s', Inr u) \<longleftrightarrow>
     (case find_generation s corpus generation of None \<Rightarrow> s' = s
      | Some g \<Rightarrow> gr_state g = Building
          \<and> s' = delete_generation_row corpus generation (drop_schema (gr_physical_schema g) s))"
  by (auto simp: reset_building_generation_def action_simps split: option.splits)

lemma clean_up_error:
  "drop_retired_generation corpus generation s = (s', Inl e) \<Longrightarrow> s' = s"
  "reset_building_generation corpus generation s = (s', Inl e) \<Longrightarrow> s' = s"
  by (simp_all add: drop_retired_generation_def reset_building_generation_def action_simps)

text \<open>
  C33.  Clean-up is invisible to readers: dropping a retired generation or resetting a half-built one,
  whether it succeeds or is refused, keeps the topology invariant, every cursor, the manifest, and
  every row every stable view returns.
\<close>

theorem clean_up_invisible:
  assumes "topology_ok s"
    and "s' \<in> {fst (drop_retired_generation corpus generation s), fst (reset_building_generation corpus generation s)}"
  shows "topology_ok s' \<and> view_rows s' t = view_rows s t \<and> db_corpora s' = db_corpora s
    \<and> db_manifest s' = db_manifest s"
proof -
  have removed: "s' = s \<or> (\<exists>g. find_generation s corpus generation = Some g \<and> gr_state g \<noteq> Active
      \<and> s' = delete_generation_row corpus generation (drop_schema (gr_physical_schema g) s))"
  proof -
    obtain d rd where d: "drop_retired_generation corpus generation s = (d, rd)" by fastforce
    obtain b rb where b: "reset_building_generation corpus generation s = (b, rb)" by fastforce
    from d b show ?thesis
      using assms(2)
      by (cases rd; cases rb)
        (auto simp: drop_retired_Inr reset_building_Inr dest: clean_up_error split: option.splits)
  qed
  then show ?thesis
  proof (elim disjE exE conjE)
    fix g assume g: "find_generation s corpus generation = Some g" "gr_state g \<noteq> Active"
      "s' = delete_generation_row corpus generation (drop_schema (gr_physical_schema g) s)"
    from find_generation_Some [OF g(1)] have "g \<in> set (db_registry s)" "s' = remove_generation g s"
      by (auto simp: g(3) remove_generation_def)
    with remove_inactive [OF assms(1) _ g(2)] show ?thesis by simp
  qed (use assms(1) in simp)
qed

section \<open>A switch on the small database\<close>

lemma sample_generation_names:
  "generation_name ''core'' 1 = ''core_g0001''" "generation_name ''core'' 2 = ''core_g0002''"
  by code_simp+

lemma sample_topology_ok: "topology_ok sample_db"
  unfolding topology_ok_def
proof (intro conjI)
  show "registry_ok sample_db"
    using sample_generation_names(1)
    by (auto simp: registry_ok_def sample_db_def schema_for_generation_def intro!: exI [of _ 1])
  show "active_ok sample_db"
    by (auto simp: active_ok_def sample_db_def bt_get_def schema_for_generation_def split: if_splits)
  show "views_ok sample_db"
    by (simp add: views_ok_def active_generation_schemas_def schema_for_generation_def)
qed (simp add: bt_ok_def)

text \<open>The small database with a second, fully loaded generation waiting.\<close>

definition sample_building :: db where
  "sample_building = sample_db\<lparr>
     db_registry := db_registry sample_db @ [\<lparr>gr_corpus = ''core'', gr_generation = ''core_g0002'',
       gr_physical_schema = ''jurisearch_server_core_g0002'', gr_state = Building,
       gr_source_baseline_id = Some ''b2'', gr_source_package_id = None, gr_validation_digest = None\<rparr>],
     db_schemas := (db_schemas sample_db)(''jurisearch_server_core_g0002'' \<mapsto> sample_schema)\<rparr>"

definition sample_stamps :: activation_stamps where
  "sample_stamps = \<lparr>sp_sequence = 9, sp_baseline_id = ''b2'', sp_schema_version = 24,
     sp_embedding_fingerprint = ''fp'', sp_builder_versions = JObject [],
     sp_last_package_id = Some ''p9'', sp_last_package_digest = Some ''sha256:9''\<rparr>"

lemma sample_building_topology_ok: "topology_ok sample_building"
  unfolding topology_ok_def
proof (intro conjI)
  show "registry_ok sample_building"
    using sample_generation_names
    by (auto simp: registry_ok_def sample_building_def sample_db_def schema_for_generation_def
        intro: exI [of _ 1] exI [of _ 2])
  show "active_ok sample_building"
    by (auto simp: active_ok_def sample_building_def sample_db_def bt_get_def schema_for_generation_def split: if_splits)
  show "views_ok sample_building"
    by (simp add: views_ok_def sample_building_def active_generation_schemas_def schema_for_generation_def)
qed (simp add: bt_ok_def sample_building_def)

lemma sample_switch:
  "is_ok (snd (activate_generation_inner ''core'' ''core_g0002'' sample_stamps (RebaselineForward 9) [] None sample_building))"
proof -
  let ?s = "sample_building\<lparr>db_registry := switched_registry ''core'' ''core_g0002'' sample_stamps sample_building,
     db_corpora := [(''core'', stamped_row ''core_g0002'' sample_stamps)],
     db_views := Some [''jurisearch_server_core_g0002'']\<rparr>"
  have "compute_generation_coverage ?s ''jurisearch_server_core_g0002'' ''fp'' =
      Inr \<lparr>rr_projection_coverage = coverage 1 1, rr_embedding_coverage = coverage 1 1\<rparr>"
    using sample_coverage by (simp add: compute_generation_coverage_def sample_building_def)
  then have "is_ok (snd (stamp_query_readiness ''core_g0002'' ?s))"
    by (simp add: stamp_query_readiness_def statement_def stamp_corpus_def schema_for_generation_def Let_def
        stamped_row_def sample_stamps_def metric_ok_def coverage_is_complete_def coverage_def)
  then obtain s' report where stamp: "stamp_query_readiness ''core_g0002'' ?s = (s', Inr report)"
    by (metis is_ok_iff prod.collapse)
  have "put_corpus ''core'' (stamped_row ''core_g0002'' sample_stamps)
      (mark_active ''core'' ''core_g0002'' sample_stamps (retire_active ''core'' ''core_g0002'' sample_building))
     = sample_building\<lparr>db_registry := switched_registry ''core'' ''core_g0002'' sample_stamps sample_building,
         db_corpora := [(''core'', stamped_row ''core_g0002'' sample_stamps)]\<rparr>"
    by (simp add: put_corpus_def switched_registry_def mark_active_def retire_active_def sample_building_def)
  then have "activate_generation_inner ''core'' ''core_g0002'' sample_stamps (RebaselineForward 9) [] None sample_building
     = (s', Inr ())"
    using stamp
    by (simp add: activate_generation_inner_def action_simps find_generation_def guard_ok_def bt_get_def
        rebuild_server_views_def active_generation_schemas_def schema_for_generation_def stamped_row_def Let_def)
      (simp add: sample_building_def sample_db_def)
  then show ?thesis by simp
qed

lemma activation_atomic_and_sound_witness:
  "bt_get (db_corpora (fst (activate_generation_inner ''core'' ''core_g0002'' sample_stamps (RebaselineForward 9) []
      None sample_building))) ''core'' = Some (stamped_row ''core_g0002'' sample_stamps)"
  using activation_atomic_and_sound [OF sample_building_topology_ok surjective_pairing, of "''core''" "''core_g0002''"
      sample_stamps "RebaselineForward 9" "[]" None] sample_switch
  by (auto simp: is_ok_iff)

lemma clean_up_invisible_witness:
  "view_rows (fst (reset_building_generation ''core'' ''core_g0002'' sample_building)) ''documents''
     = view_rows sample_building ''documents''"
  using clean_up_invisible [OF sample_building_topology_ok, of
     "fst (reset_building_generation ''core'' ''core_g0002'' sample_building)" "''core''" "''core_g0002''" "''documents''"]
  by simp

end
