(* ===== verification/Incremental_Apply.thy ===== *)
theory Incremental_Apply
  imports Database
begin

text \<open>
  The row primitives of an incremental apply (\<open>storage/incremental.rs\<close>) and the batched streaming of a
  payload file (\<open>syncd/apply.rs\<close>): upserts, deletes and replace-sets on the active generation, the
  cursor writer, and the check for the cascading foreign keys that replace-sets rely on.
\<close>

section \<open>Rows of a replace-set scope\<close>

fun group_payload_tables :: "replace_set_group \<Rightarrow> string list" where
  "group_payload_tables ZoneUnits = [''zone_units'', ''zone_unit_embeddings'']"
| "group_payload_tables ChunksWithEmbeddings = [''chunks'', ''chunk_embeddings'']"
| "group_payload_tables ChunkEmbeddings = [''chunk_embeddings'']"
| "group_payload_tables DecisionZones = [''decision_zones'']"

definition of_document :: "string \<Rightarrow> row \<Rightarrow> bool" where
  "of_document document_id r \<longleftrightarrow> r ''document_id'' = JString document_id"

text \<open>\<open>key IN (SELECT key FROM parent WHERE document_id = \<dots>)\<close>.\<close>

definition of_parent :: "schema_tables \<Rightarrow> string \<Rightarrow> string \<Rightarrow> string \<Rightarrow> row \<Rightarrow> bool" where
  "of_parent sch parent key document_id r \<longleftrightarrow>
     r key \<noteq> JNull \<and> list_ex (\<lambda>p. of_document document_id p \<and> p key = r key) (sch_rows sch parent)"

definition replace_set_table_select :: "schema_tables \<Rightarrow> string \<Rightarrow> string \<Rightarrow> row list" where
  "replace_set_table_select sch t document_id =
     (if t = ''chunks'' then sort_key (text_key ''chunk_id'') (filter (of_document document_id) (sch_rows sch t))
      else if t = ''chunk_embeddings''
      then sort_key (text_key ''chunk_id'') (filter (of_parent sch ''chunks'' ''chunk_id'' document_id) (sch_rows sch t))
      else if t = ''zone_units''
      then sort_key (text_key ''zone_unit_id'') (filter (of_document document_id) (sch_rows sch t))
      else if t = ''zone_unit_embeddings''
      then sort_key (text_key ''zone_unit_id'')
             (filter (of_parent sch ''zone_units'' ''zone_unit_id'' document_id) (sch_rows sch t))
      else if t = ''decision_zones''
      then sort_key (text_key ''document_id'') (filter (of_document document_id) (sch_rows sch t))
      else [])"

definition replace_set_rows ::
  "server \<Rightarrow> schema_tables \<Rightarrow> replace_set_group \<Rightarrow> string \<Rightarrow> (string, json list) btree" where
  "replace_set_rows sv sch grp document_id =
     bt_of_list (map (\<lambda>t. (t, map (row_object (sv_columns sv t)) (replace_set_table_select sch t document_id)))
       (group_payload_tables grp))"

section \<open>Upserts, deletes, inserts\<close>

definition apply_upserts ::
  "server \<Rightarrow> string \<Rightarrow> string list \<Rightarrow> string list \<Rightarrow> json list \<Rightarrow> schema_tables \<Rightarrow>
   (schema_tables \<times> u64, storage_error) result" where
  "apply_upserts sv t columns pk_columns rows sch =
     fold_result (\<lambda>r (sch, applied).
       and_then (sql_upsert sv t columns pk_columns (populate r) sch) (\<lambda>(sch', n). Inr (sch', applied + n)))
       rows (sch, 0)"

definition sql_delete_key ::
  "string \<Rightarrow> string list \<Rightarrow> row \<Rightarrow> schema_tables \<Rightarrow> (schema_tables \<times> u64, storage_error) result" where
  "sql_delete_key t pk_columns key sch =
     (if \<not> is_replicated_table t \<or> pk_columns = [] then Inl PostgresClient
      else Inr (sql_delete t (same_key pk_columns key) sch,
                of_nat (length (filter (same_key pk_columns key) (sch_rows sch t)))))"

definition apply_deletes ::
  "string \<Rightarrow> string list \<Rightarrow> json list \<Rightarrow> schema_tables \<Rightarrow> (schema_tables \<times> u64, storage_error) result" where
  "apply_deletes t pk_columns keys sch =
     fold_result (\<lambda>k (sch, deleted).
       and_then (sql_delete_key t pk_columns (populate k) sch) (\<lambda>(sch', n). Inr (sch', deleted + n)))
       keys (sch, 0)"

definition insert_rows ::
  "server \<Rightarrow> string \<Rightarrow> string list \<Rightarrow> json list \<Rightarrow> schema_tables \<Rightarrow> (schema_tables, storage_error) result" where
  "insert_rows sv t columns rows sch = fold_result (\<lambda>r. sql_insert sv t columns (populate r)) rows sch"

definition delete_scope :: "replace_set_group \<Rightarrow> string \<Rightarrow> schema_tables \<Rightarrow> schema_tables" where
  "delete_scope grp document_id sch =
     (case grp of
        ZoneUnits \<Rightarrow> sql_delete ''zone_units'' (of_document document_id) sch
      | ChunksWithEmbeddings \<Rightarrow> sql_delete ''chunks'' (of_document document_id) sch
      | ChunkEmbeddings \<Rightarrow>
          sql_delete ''chunk_embeddings'' (of_parent sch ''chunks'' ''chunk_id'' document_id) sch
      | DecisionZones \<Rightarrow> sql_delete ''decision_zones'' (of_document document_id) sch)"

definition apply_replace_set ::
  "server \<Rightarrow> replace_set_group \<Rightarrow> string \<Rightarrow> (string, json list) btree \<Rightarrow> (string \<Rightarrow> string list) \<Rightarrow>
   schema_tables \<Rightarrow> (schema_tables, storage_error) result" where
  "apply_replace_set sv grp document_id rows columns_for sch =
     fold_result (\<lambda>t sch.
         case bt_get rows t of
           None \<Rightarrow> Inr sch
         | Some table_rows \<Rightarrow> insert_rows sv t (columns_for t) table_rows sch)
       (group_payload_tables grp) (delete_scope grp document_id sch)"

definition advance_corpus_cursor :: "string \<Rightarrow> int \<Rightarrow> string \<Rightarrow> string \<Rightarrow> (unit, storage_error) dbact" where
  "advance_corpus_cursor corpus new_sequence last_package_id last_package_digest = statement (\<lambda>s.
     case bt_get (db_corpora s) corpus of
       None \<Rightarrow> Inl GenerationsError
     | Some r \<Rightarrow> Inr (s\<lparr>db_corpora := bt_insert corpus
         (r\<lparr>cs_sequence := new_sequence, cs_last_package_id := Some last_package_id,
            cs_last_package_digest := Some last_package_digest\<rparr>) (db_corpora s)\<rparr>, ()))"

definition has_cascade_fks :: "db \<Rightarrow> string \<Rightarrow> bool" where
  "has_cascade_fks s schema \<longleftrightarrow>
     (case db_schemas s schema of
        None \<Rightarrow> False
      | Some sch \<Rightarrow> length (filter (\<lambda>fk. fk_on_delete fk = Cascade
          \<and> fk_table fk \<in> {''chunk_embeddings'', ''zone_unit_embeddings''}) (sch_fks sch)) \<ge> 2)"

section \<open>Streaming a payload in batches\<close>

text \<open>\<open>line.trim().is_empty()\<close>: only characters with Unicode's \<open>White_Space\<close>, in UTF-8.\<close>

fun blank_bytes :: "nat list \<Rightarrow> bool" where
  "blank_bytes [] = True"
| "blank_bytes (a # r) =
     (if (9 \<le> a \<and> a \<le> 13) \<or> a = 32 then blank_bytes r
      else if a = 194 then (case r of b # r' \<Rightarrow> (b = 133 \<or> b = 160) \<and> blank_bytes r' | [] \<Rightarrow> False)
      else if a = 225 then (case r of b # c # r' \<Rightarrow> b = 154 \<and> c = 128 \<and> blank_bytes r' | _ \<Rightarrow> False)
      else if a = 226 then
        (case r of b # c # r' \<Rightarrow> ((b = 128 \<and> ((128 \<le> c \<and> c \<le> 138) \<or> c = 168 \<or> c = 169 \<or> c = 175)) \<or> (b = 129 \<and> c = 159))
            \<and> blank_bytes r' | _ \<Rightarrow> False)
      else if a = 227 then (case r of b # c # r' \<Rightarrow> b = 128 \<and> c = 128 \<and> blank_bytes r' | _ \<Rightarrow> False)
      else False)"

definition is_blank :: "string \<Rightarrow> bool" where
  "is_blank line \<longleftrightarrow> blank_bytes (map of_char line)"

text \<open>
  The loop over the lines of the reader: the batch collected so far and the seen applied.  A line that
  cannot be read is an error, blank lines are skipped, a line that does not parse is an error.
\<close>

fun stream_loop ::
  "(string \<Rightarrow> json option) \<Rightarrow> nat \<Rightarrow> (json list \<Rightarrow> ('s, unit, sync_error) action) \<Rightarrow>
   (string, sync_error) result list \<Rightarrow> json list \<Rightarrow> nat \<Rightarrow> ('s, nat, sync_error) action" where
  "stream_loop parse batch_size apply_batch [] batch seen =
     (if batch \<noteq> [] then bind_act (apply_batch batch) (\<lambda>_. ret (seen + length batch)) else ret seen)"
| "stream_loop parse batch_size apply_batch (l # ls) batch seen =
     bind_act (lift_res l) (\<lambda>line.
       if is_blank line then stream_loop parse batch_size apply_batch ls batch seen
       else bind_act (lift_res (ok_or (parse line) SyncJson)) (\<lambda>v.
         let batch' = batch @ [v] in
         if length batch' \<ge> batch_size
         then bind_act (apply_batch batch') (\<lambda>_.
                stream_loop parse batch_size apply_batch ls [] (seen + length batch'))
         else stream_loop parse batch_size apply_batch ls batch' seen))"

definition stream_jsonl_batched_sized ::
  "(string \<Rightarrow> json option) \<Rightarrow> (string, sync_error) result list \<Rightarrow> nat \<Rightarrow>
   (json list \<Rightarrow> ('s, unit, sync_error) action) \<Rightarrow> ('s, nat, sync_error) action" where
  "stream_jsonl_batched_sized parse reader batch_size apply_batch =
     stream_loop parse batch_size apply_batch reader [] 0"

definition apply_batch_size :: nat where
  "apply_batch_size = 2000"

definition stream_jsonl_batched ::
  "(string \<Rightarrow> json option) \<Rightarrow> (string, sync_error) result list \<Rightarrow>
   (json list \<Rightarrow> ('s, unit, sync_error) action) \<Rightarrow> ('s, nat, sync_error) action" where
  "stream_jsonl_batched parse reader = stream_jsonl_batched_sized parse reader apply_batch_size"

definition upsert_batch ::
  "string \<Rightarrow> string \<Rightarrow> string list \<Rightarrow> string list \<Rightarrow> json list \<Rightarrow> (unit, sync_error) dbact" where
  "upsert_batch schema t columns pk rows =
     map_err_act Storage (bind_act (if rows = [] then ret 0
       else on_schema schema (\<lambda>sv sch. apply_upserts sv t columns pk rows sch)) (\<lambda>_. ret ()))"

definition delete_batch :: "string \<Rightarrow> string \<Rightarrow> string list \<Rightarrow> json list \<Rightarrow> (unit, sync_error) dbact" where
  "delete_batch schema t pk keys =
     map_err_act Storage (bind_act (if keys = [] then ret 0
       else on_schema schema (\<lambda>sv sch. apply_deletes t pk keys sch)) (\<lambda>_. ret ()))"

section \<open>Batching is invisible\<close>

text \<open>What the loop reads: the non-blank lines, parsed, or the first error.\<close>

fun parse_lines :: "(string \<Rightarrow> json option) \<Rightarrow> (string, sync_error) result list \<Rightarrow> (json list, sync_error) result" where
  "parse_lines parse [] = Inr []"
| "parse_lines parse (l # ls) =
     and_then l (\<lambda>line.
       if is_blank line then parse_lines parse ls
       else and_then (ok_or (parse line) SyncJson) (\<lambda>v. and_then (parse_lines parse ls) (\<lambda>vs. Inr (v # vs))))"

text \<open>The contract of a batch callback: it is the row-by-row application, so batches can be cut anywhere.\<close>

locale batch_callback =
  fixes apply_batch :: "json list \<Rightarrow> ('s, unit, sync_error) action"
  assumes apply_nil: "apply_batch [] = ret ()"
    and apply_split: "apply_batch (xs @ ys) s = (s', Inr ()) \<longleftrightarrow>
      (\<exists>s1. apply_batch xs s = (s1, Inr ()) \<and> apply_batch ys s1 = (s', Inr ()))"
begin

lemma stream_loop_Inr:
  "stream_loop parse n apply_batch ls batch k s = (s', Inr c) \<longleftrightarrow>
     (\<exists>vs. parse_lines parse ls = Inr vs \<and> apply_batch (batch @ vs) s = (s', Inr ()) \<and> c = k + length (batch @ vs))"
proof (induction ls arbitrary: batch k s)
  case Nil
  then show ?case by (cases batch) (auto simp: action_simps apply_nil)
next
  case (Cons l ls)
  show ?case
  proof (cases l)
    case (Inl e)
    then show ?thesis by (simp add: action_simps)
  next
    case (Inr line)
    show ?thesis
    proof (cases "is_blank line")
      case True
      with Inr Cons.IH show ?thesis by (simp add: action_simps)
    next
      case False
      show ?thesis
      proof (cases "parse line")
        case None
        with Inr False show ?thesis by (simp add: action_simps)
      next
        case (Some v)
        let ?b = "batch @ [v]"
        have parsed: "parse_lines parse (l # ls) = Inr ws \<longleftrightarrow> (\<exists>vs. parse_lines parse ls = Inr vs \<and> ws = v # vs)" for ws
          using Inr False Some by (auto simp: and_then_eq_Inr)
        have split: "apply_batch (batch @ v # vs) s = (s', Inr ()) \<longleftrightarrow>
            (\<exists>s1. apply_batch ?b s = (s1, Inr ()) \<and> apply_batch vs s1 = (s', Inr ()))" for vs
          using apply_split [of ?b vs s s'] by simp
        have "stream_loop parse n apply_batch (l # ls) batch k s = (s', Inr c) \<longleftrightarrow>
            (if n \<le> length ?b
             then \<exists>s1. apply_batch ?b s = (s1, Inr ())
               \<and> stream_loop parse n apply_batch ls [] (k + length ?b) s1 = (s', Inr c)
             else stream_loop parse n apply_batch ls ?b k s = (s', Inr c))"
          unfolding Inr stream_loop.simps bind_act_eq_Inr lift_res_eq Let_def
          using False Some by (auto simp: action_simps)
        also have "\<dots> \<longleftrightarrow> (\<exists>vs. parse_lines parse ls = Inr vs \<and> apply_batch (batch @ v # vs) s = (s', Inr ())
            \<and> c = k + length (batch @ v # vs))"
        proof (cases "n \<le> length ?b")
          case True
          have len: "k + length ?b + length vs = k + length (batch @ v # vs)" for vs by simp
          show ?thesis
            unfolding Cons.IH split using True by (simp only: if_True append_Nil len) blast
        next
          case False
          then show ?thesis unfolding Cons.IH by simp
        qed
        also have "\<dots> \<longleftrightarrow> (\<exists>ws. parse_lines parse (l # ls) = Inr ws \<and> apply_batch (batch @ ws) s = (s', Inr ())
            \<and> c = k + length (batch @ ws))"
          unfolding parsed by blast
        finally show ?thesis .
      qed
    qed
  qed
qed

lemma streamed:
  "stream_jsonl_batched_sized parse reader n apply_batch s = (s', Inr c) \<longleftrightarrow>
     (\<exists>vs. parse_lines parse reader = Inr vs \<and> apply_batch vs s = (s', Inr ()) \<and> c = length vs)"
  by (auto simp: stream_jsonl_batched_sized_def stream_loop_Inr)

text \<open>The batch size does not matter to a successful run.\<close>

lemma batch_size_irrelevant:
  "stream_jsonl_batched_sized parse reader m apply_batch s = (s', Inr c) \<longleftrightarrow>
   stream_jsonl_batched_sized parse reader n apply_batch s = (s', Inr c)"
  by (simp add: streamed)

end

lemma fold_count_split:
  fixes f :: "'x \<Rightarrow> 'a \<Rightarrow> ('a \<times> u64, 'e) result"
  defines "F \<equiv> \<lambda>r (a, n). and_then (f r a) (\<lambda>(a', k). Inr (a', n + k))"
  shows "fold_result F rows (a, n) = and_then (fold_result F rows (a, 0)) (\<lambda>(a', k). Inr (a', n + k))"
proof (induction rows arbitrary: a n)
  case Nil
  then show ?case by simp
next
  case (Cons r rows)
  show ?case
  proof (cases "f r a")
    case (Inl e)
    then show ?thesis by (simp add: F_def)
  next
    case (Inr p)
    obtain a' k where p: "p = (a', k)" by (cases p)
    have step: "F r (a, m) = Inr (a', m + k)" for m
      by (simp add: F_def Inr p)
    show ?thesis
      using Cons.IH [of a' "n + k"] Cons.IH [of a' k]
      by (cases "fold_result F rows (a', 0)") (auto simp: step add.assoc split: prod.splits)
  qed
qed

definition counted :: "('x \<Rightarrow> 'a \<Rightarrow> ('a \<times> u64, 'e) result) \<Rightarrow> 'x list \<Rightarrow> 'a \<Rightarrow> ('a \<times> u64, 'e) result" where
  "counted f rows a = fold_result (\<lambda>r (a, n). and_then (f r a) (\<lambda>(a', k). Inr (a', n + k))) rows (a, 0)"

lemma counted_append_Inr:
  "counted f (xs @ ys) a = Inr (b, n) \<longleftrightarrow>
     (\<exists>c k m. counted f xs a = Inr (c, k) \<and> counted f ys c = Inr (b, m) \<and> n = k + m)"
  unfolding counted_def fold_result_append and_then_eq_Inr
proof (intro iffI; elim exE conjE)
  fix p assume p: "fold_result (\<lambda>r (a, n). and_then (f r a) (\<lambda>(a', k). Inr (a', n + k))) xs (a, 0) = Inr p"
    "fold_result (\<lambda>r (a, n). and_then (f r a) (\<lambda>(a', k). Inr (a', n + k))) ys p = Inr (b, n)"
  obtain c k where "p = (c, k)" by (cases p)
  with p show "\<exists>c k m. fold_result (\<lambda>r (a, n). and_then (f r a) (\<lambda>(a', k). Inr (a', n + k))) xs (a, 0) = Inr (c, k)
      \<and> fold_result (\<lambda>r (a, n). and_then (f r a) (\<lambda>(a', k). Inr (a', n + k))) ys (c, 0) = Inr (b, m) \<and> n = k + m"
    using fold_count_split [of f ys c k] by (auto simp: and_then_eq_Inr)
next
  fix c k m
  assume "fold_result (\<lambda>r (a, n). and_then (f r a) (\<lambda>(a', k). Inr (a', n + k))) xs (a, 0) = Inr (c, k)"
    "fold_result (\<lambda>r (a, n). and_then (f r a) (\<lambda>(a', k). Inr (a', n + k))) ys (c, 0) = Inr (b, m)" "n = k + m"
  then show "\<exists>p. fold_result (\<lambda>r (a, n). and_then (f r a) (\<lambda>(a', k). Inr (a', n + k))) xs (a, 0) = Inr p
      \<and> fold_result (\<lambda>r (a, n). and_then (f r a) (\<lambda>(a', k). Inr (a', n + k))) ys p = Inr (b, n)"
    using fold_count_split [of f ys c k] by auto
qed

lemma apply_upserts_counted:
  "apply_upserts sv t columns pk rows = counted (\<lambda>r. sql_upsert sv t columns pk (populate r)) rows"
  by (simp add: apply_upserts_def counted_def fun_eq_iff)

lemma apply_deletes_counted:
  "apply_deletes t pk keys = counted (\<lambda>k. sql_delete_key t pk (populate k)) keys"
  by (simp add: apply_deletes_def counted_def fun_eq_iff)

text \<open>A counted loop as a statement on a schema, the way both callbacks send it.\<close>

definition counted_batch ::
  "string \<Rightarrow> (server \<Rightarrow> json \<Rightarrow> schema_tables \<Rightarrow> (schema_tables \<times> u64, storage_error) result) \<Rightarrow>
   json list \<Rightarrow> (unit, sync_error) dbact" where
  "counted_batch schema f rows =
     map_err_act Storage (bind_act (if rows = [] then ret 0
       else on_schema schema (\<lambda>sv sch. counted (f sv) rows sch)) (\<lambda>_. ret ()))"

lemma counted_batch_eq:
  "counted_batch schema f rows s =
     (if rows = [] then (s, Inr ())
      else case db_schemas s schema of
        None \<Rightarrow> (s, Inl (Storage PostgresClient))
      | Some sch \<Rightarrow>
          (case counted (f (db_server s)) rows sch of
             Inl e \<Rightarrow> (s, Inl (Storage e))
           | Inr (sch', n) \<Rightarrow> (s\<lparr>db_schemas := (db_schemas s)(schema := Some sch')\<rparr>, Inr ())))"
  by (auto simp: counted_batch_def map_err_act_def bind_act_def ret_def on_schema_def statement_def
      split: option.splits sum.splits prod.splits)

lemma counted_batch_Nil: "counted_batch schema f [] = ret ()"
  by (simp add: counted_batch_eq ret_def fun_eq_iff)

lemma counted_batch_Inr:
  "rows \<noteq> [] \<Longrightarrow> counted_batch schema f rows s = (s', Inr ()) \<longleftrightarrow>
     (\<exists>sch sch' n. db_schemas s schema = Some sch \<and> counted (f (db_server s)) rows sch = Inr (sch', n)
        \<and> s' = s\<lparr>db_schemas := (db_schemas s)(schema := Some sch')\<rparr>)"
  by (auto simp: counted_batch_eq split: option.splits sum.splits)

lemma counted_batch_split:
  "counted_batch schema f (xs @ ys) s = (s', Inr ()) \<longleftrightarrow>
     (\<exists>s1. counted_batch schema f xs s = (s1, Inr ()) \<and> counted_batch schema f ys s1 = (s', Inr ()))"
proof (cases "xs = [] \<or> ys = []")
  case True
  then show ?thesis by (elim disjE) (simp_all add: counted_batch_Nil ret_def)
next
  case False
  then have "xs @ ys \<noteq> []" "xs \<noteq> []" "ys \<noteq> []" by auto
  then show ?thesis
    by (auto simp: counted_batch_Inr counted_append_Inr; fastforce)
qed

lemma upsert_batch_counted:
  "upsert_batch schema t columns pk = counted_batch schema (\<lambda>sv r. sql_upsert sv t columns pk (populate r))"
  by (simp add: upsert_batch_def counted_batch_def apply_upserts_counted fun_eq_iff)

lemma delete_batch_counted:
  "delete_batch schema t pk = counted_batch schema (\<lambda>sv k. sql_delete_key t pk (populate k))"
  by (simp add: delete_batch_def counted_batch_def apply_deletes_counted fun_eq_iff)

interpretation upserts: batch_callback "upsert_batch schema t columns pk" for schema t columns pk
  by unfold_locales (simp_all add: upsert_batch_counted counted_batch_Nil counted_batch_split)

interpretation deletes: batch_callback "delete_batch schema t pk" for schema t pk
  by unfold_locales (simp_all add: delete_batch_counted counted_batch_Nil counted_batch_split)

text \<open>
  C26.  Streaming a payload file in bounded batches is the whole-file apply: for every batch size, the
  run succeeds with a state and a count exactly when every line reads and parses and applying all rows
  at once succeeds with that state; the count is the number of rows.  Both callbacks of the applier,
  upserts and deletes, qualify.
\<close>

theorem streaming_is_whole_file:
  "(stream_jsonl_batched_sized parse reader n (upsert_batch schema t columns pk) s = (s', Inr c) \<longleftrightarrow>
      (\<exists>rows. parse_lines parse reader = Inr rows \<and> upsert_batch schema t columns pk rows s = (s', Inr ())
         \<and> c = length rows))
   \<and> (stream_jsonl_batched_sized parse reader n (delete_batch schema t pk) s = (s', Inr c) \<longleftrightarrow>
      (\<exists>keys. parse_lines parse reader = Inr keys \<and> delete_batch schema t pk keys s = (s', Inr ())
         \<and> c = length keys))"
  by (intro conjI upserts.streamed deletes.streamed)

section \<open>What a delete reaches\<close>

text \<open>The tables a delete on \<open>t\<close> can change, through the referential actions.\<close>

fun reaches :: "foreign_key list \<Rightarrow> nat \<Rightarrow> string \<Rightarrow> string list" where
  "reaches fks 0 t = [t]"
| "reaches fks (Suc d) t = t # concat (map (\<lambda>fk. if fk_ref_table fk = t
      then (case fk_on_delete fk of Cascade \<Rightarrow> reaches fks d (fk_table fk) | SetNull \<Rightarrow> [fk_table fk]) else []) fks)"

text \<open>The referential action of one foreign key, as \<open>delete_where\<close> takes it.\<close>

definition referential ::
  "nat \<Rightarrow> string \<Rightarrow> row list \<Rightarrow> schema_tables \<Rightarrow> foreign_key \<Rightarrow> schema_tables" where
  "referential d t gone s fk =
     (let hit = (\<lambda>r. r (fk_column fk) \<noteq> JNull \<and> list_ex (\<lambda>g. g (fk_ref_column fk) = r (fk_column fk)) gone) in
      if fk_ref_table fk = t
      then (case fk_on_delete fk of
          Cascade \<Rightarrow> delete_where d (fk_table fk) hit s
        | SetNull \<Rightarrow> set_rows (fk_table fk)
            (map (\<lambda>r. if hit r then r(fk_column fk := JNull) else r) (sch_rows s (fk_table fk))) s)
      else s)"

lemma delete_where_0: "delete_where 0 t P sch = set_rows t (filter (\<lambda>r. \<not> P r) (sch_rows sch t)) sch"
  by (subst delete_where.simps) simp

lemma delete_where_Suc:
  "delete_where (Suc d) t P sch =
     foldl (referential d t (filter P (sch_rows sch t)))
       (set_rows t (filter (\<lambda>r. \<not> P r) (sch_rows sch t)) sch) (sch_fks sch)"
  by (subst delete_where.simps) (simp add: Let_def referential_def [abs_def])

lemma referential_fks [simp]: "sch_fks (referential d t gone s fk) = sch_fks s"
  by (simp add: referential_def Let_def split: fk_action.split)

lemma delete_unreached:
  "u \<notin> set (reaches (sch_fks sch) d t) \<Longrightarrow> sch_rows (delete_where d t P sch) u = sch_rows sch u"
proof (induction d arbitrary: t P sch)
  case 0
  then show ?case by (simp add: delete_where_0)
next
  case (Suc d)
  let ?gone = "filter P (sch_rows sch t)"
  have step: "sch_rows (referential d t ?gone s fk) u = sch_rows s u"
    if "fk \<in> set (sch_fks sch)" "sch_fks s = sch_fks sch" for s fk
  proof (cases "fk_ref_table fk = t")
    case True
    have reached: "u \<notin> set (case fk_on_delete fk of
        Cascade \<Rightarrow> reaches (sch_fks sch) d (fk_table fk) | SetNull \<Rightarrow> [fk_table fk])"
      using Suc.prems that(1) True by auto
    show ?thesis
    proof (cases "fk_on_delete fk")
      case Cascade
      with reached that(2) have "u \<notin> set (reaches (sch_fks s) d (fk_table fk))" by simp
      with True Cascade Suc.IH show ?thesis by (simp add: referential_def Let_def)
    next
      case SetNull
      with reached have "u \<noteq> fk_table fk" by simp
      with True SetNull show ?thesis by (simp add: referential_def Let_def)
    qed
  qed (simp add: referential_def Let_def)
  have "set fks \<subseteq> set (sch_fks sch) \<Longrightarrow> sch_fks s = sch_fks sch \<Longrightarrow>
      sch_rows (foldl (referential d t ?gone) s fks) u = sch_rows s u" for fks s
    by (induction fks arbitrary: s) (simp_all add: step)
  moreover have "u \<noteq> t" using Suc.prems by auto
  ultimately show ?case by (simp add: delete_where_Suc)
qed

text \<open>A table that its own delete does not reach again keeps exactly the rows that do not match.\<close>

lemma delete_rows_self:
  assumes "\<And>fk. fk \<in> set (sch_fks sch) \<Longrightarrow> fk_ref_table fk = t \<Longrightarrow>
      fk_table fk \<noteq> t \<and> t \<notin> set (reaches (sch_fks sch) d (fk_table fk))"
  shows "sch_rows (delete_where (Suc d) t P sch) t = filter (\<lambda>r. \<not> P r) (sch_rows sch t)"
proof -
  let ?gone = "filter P (sch_rows sch t)"
  have step: "sch_rows (referential d t ?gone s fk) t = sch_rows s t"
    if "fk \<in> set (sch_fks sch)" "sch_fks s = sch_fks sch" for s fk
    using assms [OF that(1)] that(2) delete_unreached [of t s d "fk_table fk"]
    by (auto simp: referential_def Let_def split: fk_action.split)
  have "set fks \<subseteq> set (sch_fks sch) \<Longrightarrow> sch_fks s = sch_fks sch \<Longrightarrow>
      sch_rows (foldl (referential d t ?gone) s fks) t = sch_rows s t" for fks s
    by (induction fks arbitrary: s) (simp_all add: step)
  then show ?thesis by (simp add: delete_where_Suc)
qed

text \<open>No delete ever adds or changes a row of a table that only cascades reach.\<close>

definition only_cascades :: "foreign_key list \<Rightarrow> string \<Rightarrow> bool" where
  "only_cascades fks u \<longleftrightarrow> (\<forall>fk\<in>set fks. fk_table fk = u \<longrightarrow> fk_on_delete fk = Cascade)"

lemma foldl_subset:
  assumes "set zs \<subseteq> A" "I s"
    and "\<And>s z. z \<in> A \<Longrightarrow> I s \<Longrightarrow> I (f s z) \<and> F (f s z) \<subseteq> F s"
  shows "F (foldl f s zs) \<subseteq> F s"
  using assms(1,2)
proof (induction zs arbitrary: s)
  case (Cons z zs)
  then have "F (foldl f (f s z) zs) \<subseteq> F (f s z)" using assms(3) [of z s] by simp
  moreover have "F (f s z) \<subseteq> F s" using assms(3) [of z s] Cons.prems by simp
  ultimately show ?case by simp
qed simp

lemma delete_subset:
  "only_cascades (sch_fks sch) u \<Longrightarrow> set (sch_rows (delete_where d t P sch) u) \<subseteq> set (sch_rows sch u)"
proof (induction d arbitrary: t P sch)
  case 0
  then show ?case by (auto simp: delete_where_0)
next
  case (Suc d)
  let ?s = "set_rows t (filter (\<lambda>r. \<not> P r) (sch_rows sch t)) sch"
  have "set (sch_rows (foldl (referential d t (filter P (sch_rows sch t))) ?s (sch_fks sch)) u) \<subseteq> set (sch_rows ?s u)"
  proof (rule foldl_subset [where A = "set (sch_fks sch)" and I = "\<lambda>s. sch_fks s = sch_fks sch"
        and F = "\<lambda>s. set (sch_rows s u)"])
    fix s :: schema_tables and fk
    assume "fk \<in> set (sch_fks sch)" "sch_fks s = sch_fks sch"
    then show "sch_fks (referential d t (filter P (sch_rows sch t)) s fk) = sch_fks sch \<and>
        set (sch_rows (referential d t (filter P (sch_rows sch t)) s fk) u) \<subseteq> set (sch_rows s u)"
      using Suc.IH [of s "fk_table fk"] Suc.prems
      by (auto simp: referential_def Let_def only_cascades_def split: fk_action.split if_splits)
  qed simp_all
  then show ?case by (auto simp: delete_where_Suc split: if_splits)
qed

lemma referential_subset:
  assumes "only_cascades (sch_fks s) u" "fk \<in> set (sch_fks s)"
  shows "set (sch_rows (referential d t gone s fk) u) \<subseteq> set (sch_rows s u)"
proof (cases "fk_ref_table fk = t")
  case True
  show ?thesis
  proof (cases "fk_on_delete fk")
    case Cascade
    with True delete_subset [OF assms(1)] show ?thesis by (simp add: referential_def Let_def)
  next
    case SetNull
    with assms have "u \<noteq> fk_table fk" by (auto simp: only_cascades_def)
    with True SetNull show ?thesis by (simp add: referential_def Let_def)
  qed
qed (simp add: referential_def Let_def)

lemma referential_fold_subset:
  assumes "only_cascades (sch_fks s) u" "set zs \<subseteq> set (sch_fks s)"
  shows "set (sch_rows (foldl (referential d t gone) s zs) u) \<subseteq> set (sch_rows s u)"
  using assms referential_subset [of _ u]
  by (intro foldl_subset [where A = "set (sch_fks s)" and I = "\<lambda>x. sch_fks x = sch_fks s"
        and F = "\<lambda>s. set (sch_rows s u)"]) simp_all

lemma delete_filtered:
  assumes "only_cascades (sch_fks s) u" "r \<in> set (sch_rows (delete_where d u Q s) u)"
  shows "\<not> Q r"
proof (cases d)
  case 0
  with assms(2) show ?thesis by (simp add: delete_where_0)
next
  case (Suc d')
  with assms referential_fold_subset [of "set_rows u (filter (\<lambda>r. \<not> Q r) (sch_rows s u)) s" u "sch_fks s" d']
  show ?thesis by (auto simp: delete_where_Suc)
qed

lemma reaches_leaf:
  "\<forall>fk\<in>set fks. fk_ref_table fk \<noteq> t \<Longrightarrow> set (reaches fks d t) = {t}"
  by (cases d) auto

text \<open>Rows that refer to a deleted row through a cascading key are gone.\<close>

lemma delete_cascades:
  assumes fk: "fk \<in> set (sch_fks sch)" "fk_ref_table fk = t" "fk_on_delete fk = Cascade"
    and only: "only_cascades (sch_fks sch) (fk_table fk)"
    and r: "r \<in> set (sch_rows (delete_where (Suc d) t P sch) (fk_table fk))" "r (fk_column fk) \<noteq> JNull"
    and g: "g \<in> set (sch_rows sch t)" "P g"
  shows "g (fk_ref_column fk) \<noteq> r (fk_column fk)"
proof
  assume eq: "g (fk_ref_column fk) = r (fk_column fk)"
  let ?gone = "filter P (sch_rows sch t)" and ?u = "fk_table fk"
  let ?hit = "\<lambda>r. r (fk_column fk) \<noteq> JNull \<and> list_ex (\<lambda>g. g (fk_ref_column fk) = r (fk_column fk)) ?gone"
  from fk(1) obtain xs ys where split: "sch_fks sch = xs @ fk # ys" by (auto simp: in_set_conv_decomp)
  let ?s = "foldl (referential d t ?gone) (set_rows t (filter (\<lambda>r. \<not> P r) (sch_rows sch t)) sch) xs"
  have fks: "sch_fks ?s = sch_fks sch"
    using foldl_invariant [of sch_fks "referential d t ?gone"] by simp
  have "set (sch_rows (foldl (referential d t ?gone) (referential d t ?gone ?s fk) ys) ?u)
      \<subseteq> set (sch_rows (referential d t ?gone ?s fk) ?u)"
    using only split fks by (intro referential_fold_subset) auto
  with r(1) have "r \<in> set (sch_rows (referential d t ?gone ?s fk) ?u)"
    by (auto simp: delete_where_Suc split)
  then have "r \<in> set (sch_rows (delete_where d ?u ?hit ?s) ?u)"
    using fk by (simp add: referential_def)
  from delete_filtered [OF _ this] only fks have "\<not> ?hit r" by simp
  with g eq r(2) show False by (auto simp: list_ex_iff)
qed

lemma insert_rows_effect:
  "insert_rows sv t columns rows sch = Inr sch' \<Longrightarrow>
     sch_rows sch' t = sch_rows sch t @ map (\<lambda>j. project columns (populate j)) rows
     \<and> (\<forall>u. u \<noteq> t \<longrightarrow> sch_rows sch' u = sch_rows sch u) \<and> sch_fks sch' = sch_fks sch"
proof (induction rows arbitrary: sch)
  case Nil
  then show ?case by (simp add: insert_rows_def)
next
  case (Cons r rows)
  then obtain sch1 where one: "sql_insert sv t columns (populate r) sch = Inr sch1"
    and rest: "insert_rows sv t columns rows sch1 = Inr sch'"
    by (auto simp: insert_rows_def and_then_eq_Inr)
  from one have "sch1 = set_rows t (sch_rows sch t @ [project columns (populate r)]) sch"
    by (auto simp: sql_insert_def Let_def split: if_splits)
  with Cons.IH [OF rest] show ?case by simp
qed

section \<open>A replace-set leaves no stale row\<close>

text \<open>The document-keyed groups: their parent table, and the dependent table with its key.\<close>

definition parent_table :: "replace_set_group \<Rightarrow> string" where
  "parent_table grp = hd (group_payload_tables grp)"

definition dependents :: "replace_set_group \<Rightarrow> (string \<times> string) list" where
  "dependents grp =
     (case grp of
        ZoneUnits \<Rightarrow> [(''zone_unit_embeddings'', ''zone_unit_id'')]
      | ChunksWithEmbeddings \<Rightarrow> [(''chunk_embeddings'', ''chunk_id'')]
      | _ \<Rightarrow> [])"

definition package_rows ::
  "(string \<Rightarrow> string list) \<Rightarrow> (string, json list) btree \<Rightarrow> string \<Rightarrow> row list" where
  "package_rows columns_for rows t =
     (case bt_get rows t of None \<Rightarrow> [] | Some js \<Rightarrow> map (\<lambda>j. project (columns_for t) (populate j)) js)"

lemma insert_tables_effect:
  assumes "distinct ts"
    and "fold_result (\<lambda>t sch. case bt_get rows t of None \<Rightarrow> Inr sch
      | Some table_rows \<Rightarrow> insert_rows sv t (columns_for t) table_rows sch) ts sch = Inr sch'"
  shows "sch_rows sch' u = sch_rows sch u @ (if u \<in> set ts then package_rows columns_for rows u else [])
     \<and> sch_fks sch' = sch_fks sch"
  using assms
proof (induction ts arbitrary: sch)
  case (Cons t ts)
  from Cons.prems(2) obtain sch1 where
    one: "(case bt_get rows t of None \<Rightarrow> Inr sch
      | Some table_rows \<Rightarrow> insert_rows sv t (columns_for t) table_rows sch) = Inr sch1"
    and rest: "fold_result (\<lambda>t sch. case bt_get rows t of None \<Rightarrow> Inr sch
      | Some table_rows \<Rightarrow> insert_rows sv t (columns_for t) table_rows sch) ts sch1 = Inr sch'"
    by (auto simp: and_then_eq_Inr)
  have "sch_rows sch1 v = sch_rows sch v @ (if v = t then package_rows columns_for rows t else [])
      \<and> sch_fks sch1 = sch_fks sch" for v
    using one insert_rows_effect [of sv t "columns_for t" _ sch sch1]
    by (auto simp: package_rows_def split: option.splits)
  with Cons.IH [OF _ rest] Cons.prems(1) show ?case by auto
qed simp

lemma generation_fks:
  assumes "set (sch_fks sch) = set public_foreign_keys"
  shows "fk \<in> set (sch_fks sch) \<Longrightarrow> fk_ref_table fk = ''chunks'' \<Longrightarrow> fk_table fk = ''chunk_embeddings''"
    and "fk \<in> set (sch_fks sch) \<Longrightarrow> fk_ref_table fk = ''zone_units'' \<Longrightarrow> fk_table fk = ''zone_unit_embeddings''"
    and "fk \<in> set (sch_fks sch) \<Longrightarrow> fk_ref_table fk \<notin> {''chunk_embeddings'', ''zone_unit_embeddings'', ''decision_zones''}"
    and "only_cascades (sch_fks sch) ''chunk_embeddings''" "only_cascades (sch_fks sch) ''zone_unit_embeddings''"
    and "fkey ''chunk_embeddings'' ''chunk_id'' ''chunks'' ''chunk_id'' Cascade \<in> set (sch_fks sch)"
    and "fkey ''zone_unit_embeddings'' ''zone_unit_id'' ''zone_units'' ''zone_unit_id'' Cascade \<in> set (sch_fks sch)"
proof -
  have checked:
    "list_all (\<lambda>fk. fk_ref_table fk = ''chunks'' \<longrightarrow> fk_table fk = ''chunk_embeddings'') public_foreign_keys"
    "list_all (\<lambda>fk. fk_ref_table fk = ''zone_units'' \<longrightarrow> fk_table fk = ''zone_unit_embeddings'') public_foreign_keys"
    "list_all (\<lambda>fk. fk_ref_table fk \<notin> {''chunk_embeddings'', ''zone_unit_embeddings'', ''decision_zones''}) public_foreign_keys"
    "list_all (\<lambda>fk. fk_table fk = ''chunk_embeddings'' \<longrightarrow> fk_on_delete fk = Cascade) public_foreign_keys"
    "list_all (\<lambda>fk. fk_table fk = ''zone_unit_embeddings'' \<longrightarrow> fk_on_delete fk = Cascade) public_foreign_keys"
    "list_ex (\<lambda>fk. fk = fkey ''chunk_embeddings'' ''chunk_id'' ''chunks'' ''chunk_id'' Cascade) public_foreign_keys"
    "list_ex (\<lambda>fk. fk = fkey ''zone_unit_embeddings'' ''zone_unit_id'' ''zone_units'' ''zone_unit_id'' Cascade) public_foreign_keys"
    unfolding public_foreign_keys_def fkey_def by simp_all
  note checked' = checked [unfolded list_all_iff list_ex_iff assms [symmetric]]
  show "fk \<in> set (sch_fks sch) \<Longrightarrow> fk_ref_table fk = ''chunks'' \<Longrightarrow> fk_table fk = ''chunk_embeddings''"
    "fk \<in> set (sch_fks sch) \<Longrightarrow> fk_ref_table fk = ''zone_units'' \<Longrightarrow> fk_table fk = ''zone_unit_embeddings''"
    "fk \<in> set (sch_fks sch) \<Longrightarrow> fk_ref_table fk \<notin> {''chunk_embeddings'', ''zone_unit_embeddings'', ''decision_zones''}"
    using checked' by blast+
  show "only_cascades (sch_fks sch) ''chunk_embeddings''" "only_cascades (sch_fks sch) ''zone_unit_embeddings''"
    using checked' unfolding only_cascades_def by blast+
  show "fkey ''chunk_embeddings'' ''chunk_id'' ''chunks'' ''chunk_id'' Cascade \<in> set (sch_fks sch)"
    "fkey ''zone_unit_embeddings'' ''zone_unit_id'' ''zone_units'' ''zone_unit_id'' Cascade \<in> set (sch_fks sch)"
    using checked' by blast+
qed

lemma delete_scope_parent:
  assumes fks: "set (sch_fks sch) = set public_foreign_keys" and grp: "grp \<noteq> ChunkEmbeddings"
  shows "sch_rows (delete_scope grp document_id sch) (parent_table grp)
      = filter (\<lambda>r. \<not> of_document document_id r) (sch_rows sch (parent_table grp))"
    and "u \<notin> set (group_payload_tables grp) \<Longrightarrow> sch_rows (delete_scope grp document_id sch) u = sch_rows sch u"
proof -
  let ?t = "parent_table grp"
  have leaf: "set (reaches (sch_fks sch) d c) = {c}"
    if "c \<in> {''chunk_embeddings'', ''zone_unit_embeddings'', ''decision_zones''}" for c d
    using generation_fks(3) [OF fks] that by (intro reaches_leaf) blast
  have self: "fk_table fk \<noteq> ?t \<and> ?t \<notin> set (reaches (sch_fks sch) d (fk_table fk))
      \<and> fk_table fk \<in> set (group_payload_tables grp)"
    if "fk \<in> set (sch_fks sch)" "fk_ref_table fk = ?t" for fk d
    using that generation_fks(1-3) [OF fks that(1)] grp leaf
    by (cases grp) (auto simp: parent_table_def)
  have del: "delete_scope grp document_id sch = sql_delete ?t (of_document document_id) sch"
    using grp by (cases grp) (simp_all add: delete_scope_def parent_table_def)
  show "sch_rows (delete_scope grp document_id sch) ?t = filter (\<lambda>r. \<not> of_document document_id r) (sch_rows sch ?t)"
    unfolding del sql_delete_def by (rule delete_rows_self) (use self in blast)
  have "set (reaches (sch_fks sch) (Suc d) ?t) \<subseteq> set (group_payload_tables grp)" for d
  proof
    fix x assume "x \<in> set (reaches (sch_fks sch) (Suc d) ?t)"
    then consider "x = ?t" | fk where "fk \<in> set (sch_fks sch)" "fk_ref_table fk = ?t"
      "x \<in> set (case fk_on_delete fk of Cascade \<Rightarrow> reaches (sch_fks sch) d (fk_table fk) | SetNull \<Rightarrow> [fk_table fk])"
      by (auto split: if_splits)
    then show "x \<in> set (group_payload_tables grp)"
    proof cases
      case 1
      then show ?thesis by (cases grp) (simp_all add: parent_table_def)
    next
      case 2
      have "set (reaches (sch_fks sch) d (fk_table fk)) = {fk_table fk}"
        using generation_fks(1-3) [OF fks 2(1)] 2(2) grp leaf
        by (cases grp) (auto simp: parent_table_def)
      with 2 self [OF 2(1,2)] show ?thesis by (auto split: fk_action.splits)
    qed
  qed
  then show "u \<notin> set (group_payload_tables grp) \<Longrightarrow> sch_rows (delete_scope grp document_id sch) u = sch_rows sch u"
    unfolding del sql_delete_def by (intro delete_unreached) blast
qed

lemma delete_scope_dependents:
  assumes fks: "set (sch_fks sch) = set public_foreign_keys"
    and dep: "(c, key) \<in> set (dependents grp)"
    and r: "r \<in> set (sch_rows (delete_scope grp document_id sch) c)"
  shows "r \<in> set (sch_rows sch c) \<and> \<not> of_parent sch (parent_table grp) key document_id r"
proof -
  let ?t = "parent_table grp"
  let ?fk = "fkey c key ?t key Cascade"
  have grp: "(grp = ChunksWithEmbeddings \<and> c = ''chunk_embeddings'' \<and> key = ''chunk_id'')
      \<or> (grp = ZoneUnits \<and> c = ''zone_unit_embeddings'' \<and> key = ''zone_unit_id'')"
    using dep by (cases grp) (auto simp: dependents_def)
  have fk: "?fk \<in> set (sch_fks sch)" and only: "only_cascades (sch_fks sch) c"
    using grp generation_fks(4-7) [OF fks] by (auto simp: parent_table_def)
  have del: "delete_scope grp document_id sch = sql_delete ?t (of_document document_id) sch"
    using grp by (auto simp: delete_scope_def parent_table_def)
  note r' = r [unfolded del sql_delete_def]
  have "r \<in> set (sch_rows sch c)"
    using r' delete_subset [OF only] by blast
  moreover have "\<not> of_parent sch ?t key document_id r"
  proof
    assume "of_parent sch ?t key document_id r"
    then obtain p where p: "p \<in> set (sch_rows sch ?t)" "of_document document_id p" "p key = r key" "r key \<noteq> JNull"
      by (auto simp: of_parent_def list_ex_iff)
    from delete_cascades [OF fk, of ?t r "length (sch_fks sch)" "of_document document_id" p] only r' p
    show False by (simp add: fkey_def)
  qed
  ultimately show ?thesis by blast
qed

text \<open>
  C25.  A replace-set leaves exactly the package's rows for its document: the document's rows of the
  group's parent table become the package's rows for it, in the package's order; every other document's
  rows stay; a dependent embedding survives only if its parent was not replaced; and no table outside
  the group changes.
\<close>

theorem replace_set_no_stale_rows:
  assumes fks: "set (sch_fks sch) = set public_foreign_keys" and grp: "grp \<noteq> ChunkEmbeddings"
    and app: "apply_replace_set sv grp document_id rows columns_for sch = Inr sch'"
  shows "filter (of_document document_id) (sch_rows sch' (parent_table grp))
      = filter (of_document document_id) (package_rows columns_for rows (parent_table grp))
    \<and> filter (\<lambda>r. \<not> of_document document_id r) (sch_rows sch' (parent_table grp))
      = filter (\<lambda>r. \<not> of_document document_id r)
          (sch_rows sch (parent_table grp) @ package_rows columns_for rows (parent_table grp))
    \<and> list_all (\<lambda>(c, key). list_all (\<lambda>r. r \<in> set (package_rows columns_for rows c)
          \<or> r \<in> set (sch_rows sch c) \<and> \<not> of_parent sch (parent_table grp) key document_id r) (sch_rows sch' c))
        (dependents grp)
    \<and> (u \<in> set (group_payload_tables grp) \<or> sch_rows sch' u = sch_rows sch u)"
proof -
  have "distinct (group_payload_tables grp)" by (cases grp) simp_all
  from insert_tables_effect [OF this app [unfolded apply_replace_set_def]]
  have eff: "sch_rows sch' v = sch_rows (delete_scope grp document_id sch) v
      @ (if v \<in> set (group_payload_tables grp) then package_rows columns_for rows v else [])" for v
    by blast
  have parent: "parent_table grp \<in> set (group_payload_tables grp)"
    by (cases grp) (simp_all add: parent_table_def)
  have dep: "list_all (\<lambda>(c, key). list_all (\<lambda>r. r \<in> set (package_rows columns_for rows c)
          \<or> r \<in> set (sch_rows sch c) \<and> \<not> of_parent sch (parent_table grp) key document_id r) (sch_rows sch' c))
        (dependents grp)"
    using delete_scope_dependents [OF fks, of _ _ grp] eff by (fastforce simp: list_all_iff split: if_splits)
  show ?thesis
  proof (intro conjI dep)
    show "u \<in> set (group_payload_tables grp) \<or> sch_rows sch' u = sch_rows sch u"
      using delete_scope_parent(2) [OF fks grp, of u] by (auto simp: eff)
  qed (simp_all add: eff parent delete_scope_parent(1) [OF fks grp])
qed

definition sample_set_rows :: "(string, json list) btree" where
  "sample_set_rows = [(''chunk_embeddings'', [JObject [(''chunk_id'', JString ''c2''), (''embedding_fingerprint'', JString ''fp'')]]),
     (''chunks'', [JObject [(''chunk_id'', JString ''c2''), (''document_id'', JString ''d1''),
        (''embedding_fingerprint'', JString ''fp'')]])]"

lemma sample_replace_set:
  "is_ok (apply_replace_set sample_server ChunksWithEmbeddings ''d1'' sample_set_rows sample_columns sample_schema)"
  by code_simp

lemma replace_set_no_stale_rows_witness:
  "\<exists>sch'. apply_replace_set sample_server ChunksWithEmbeddings ''d1'' sample_set_rows sample_columns sample_schema = Inr sch'
     \<and> filter (of_document ''d1'') (sch_rows sch' ''chunks'')
       = filter (of_document ''d1'') (package_rows sample_columns sample_set_rows ''chunks'')"
proof -
  obtain sch' where app: "apply_replace_set sample_server ChunksWithEmbeddings ''d1'' sample_set_rows sample_columns
      sample_schema = Inr sch'"
    using sample_replace_set by (auto simp: is_ok_iff)
  have "set (sch_fks sample_schema) = set public_foreign_keys" by (simp add: sample_schema_def)
  from replace_set_no_stale_rows [OF this _ app] app show ?thesis by (simp add: parent_table_def)
qed

end
