(* ===== verification/Trust.thy ===== *)
theory Trust
  imports Database
begin

text \<open>
  Client-side trust: the anchor and token tables (\<open>storage/trust.rs\<close>), the verifiers built from them,
  the entitlement precondition and the installation of licence tokens (\<open>syncd/trust.rs\<close>).  The
  parameters are the crypto libraries, the token codec, serde's parser, PostgreSQL's \<open>jsonb\<close> text form
  and the database clock.
\<close>

section \<open>The trust tables\<close>

definition package_purpose :: string where "package_purpose = ''package''"
definition license_purpose :: string where "license_purpose = ''license''"

text \<open>\<open>i32::try_from(v).unwrap_or(i32::MAX)\<close> and \<open>u32::try_from(v).unwrap_or(0)\<close>.\<close>

definition i32_saturating :: "u32 \<Rightarrow> int" where
  "i32_saturating w = (if uint w \<le> 2 ^ 31 - 1 then uint w else 2 ^ 31 - 1)"

definition u32_or_zero :: "int \<Rightarrow> u32" where
  "u32_or_zero v = (if 0 \<le> v \<and> v < 2 ^ 32 then word_of_int v else 0)"

definition install_trust_anchor :: "trust_anchor \<Rightarrow> string \<Rightarrow> (unit, storage_error) dbact" where
  "install_trust_anchor anchor purpose = modify (\<lambda>s. s\<lparr>db_anchors :=
     bt_insert (ta_key_id anchor, i32_saturating (ta_key_epoch anchor), purpose)
       (ta_algorithm anchor, ta_public_key_hex anchor) (db_anchors s)\<rparr>)"

definition load_trust_anchors :: "db \<Rightarrow> string \<Rightarrow> trust_anchor list" where
  "load_trust_anchors s purpose =
     map (\<lambda>((key_id, epoch, _), (algorithm, hex)). \<lparr>ta_key_id = key_id, ta_key_epoch = u32_or_zero epoch,
            ta_algorithm = algorithm, ta_public_key_hex = hex\<rparr>)
       (filter (\<lambda>((_, _, p), _). p = purpose) (db_anchors s))"

text \<open>The primary key of a token row; a missing audience is stored as the empty string.\<close>

definition token_key :: "license_token \<Rightarrow> string \<times> string \<times> int \<times> string" where
  "token_key token = (corpus_as_str (lt_entitlement_corpus token), lt_tier token,
     i32_saturating (lt_license_epoch token), case lt_audience token of None \<Rightarrow> [] | Some a \<Rightarrow> a)"

text \<open>\<open>$6::text::jsonb\<close> fails on a text that is not JSON; reading the column back gives its normal form.\<close>

definition install_license_token ::
  "(string \<Rightarrow> string option) \<Rightarrow> license_token \<Rightarrow> string \<Rightarrow> (unit, storage_error) dbact" where
  "install_license_token jsonb token signed_token_json = statement (\<lambda>s.
     case jsonb signed_token_json of
       None \<Rightarrow> Inl PostgresClient
     | Some normal \<Rightarrow> Inr (s\<lparr>db_tokens := bt_insert (token_key token) (lt_not_after token, normal) (db_tokens s)\<rparr>, ()))"

definition license_token_blobs :: "db \<Rightarrow> string \<Rightarrow> string list" where
  "license_token_blobs s corpus = map (\<lambda>(_, (_, json)). json) (filter (\<lambda>((c, _), _). c = corpus) (db_tokens s))"

text \<open>The clock: whether a timestamp is in the future, or no timestamp at all.\<close>

definition token_not_after_in_future :: "(string \<Rightarrow> bool option) \<Rightarrow> string option \<Rightarrow> bool" where
  "token_not_after_in_future clock not_after =
     (case not_after of None \<Rightarrow> True | Some ts \<Rightarrow> (case clock ts of None \<Rightarrow> False | Some b \<Rightarrow> b))"

section \<open>Verifiers and entitlement\<close>

record ('k, 's) trust_env =
  te_lib :: "('k, 's) crypto_lib"
  te_token_codec :: "license_token codec"
  te_parse_token :: "string \<Rightarrow> license_token signed option"
  te_jsonb :: "string \<Rightarrow> string option"
  te_clock :: "string \<Rightarrow> bool option"

definition build_verifier :: "('k, 's) trust_env \<Rightarrow> db \<Rightarrow> string \<Rightarrow> (verifier, sync_error) result" where
  "build_verifier env s purpose =
     and_then (map_err (\<lambda>_. Reject SignatureInvalid) (from_anchors (te_lib env) (load_trust_anchors s purpose)))
       (\<lambda>m. Inr (ed25519_verify_bytes (te_lib env) m))"

definition load_package_verifier :: "('k, 's) trust_env \<Rightarrow> db \<Rightarrow> (verifier, sync_error) result" where
  "load_package_verifier env s = build_verifier env s package_purpose"

text \<open>One blob of the loop: whether it authorises the package.\<close>

definition blob_authorises :: "('k, 's) trust_env \<Rightarrow> verifier \<Rightarrow> string \<Rightarrow> string \<Rightarrow> u32 \<Rightarrow> string \<Rightarrow> bool" where
  "blob_authorises env verifier corpus tier epoch blob \<longleftrightarrow>
     (case te_parse_token env blob of
        None \<Rightarrow> False
      | Some doc \<Rightarrow>
          is_ok (signed_verify verifier (te_token_codec env) doc)
          \<and> token_covers (sd_payload doc) corpus tier epoch
          \<and> token_not_after_in_future (te_clock env) (lt_not_after (sd_payload doc)))"

definition check_entitlement :: "('k, 's) trust_env \<Rightarrow> db \<Rightarrow> embedded_manifest \<Rightarrow> (unit, sync_error) result" where
  "check_entitlement env s manifest =
     (let ent = em_entitlement manifest; tier = en_tier ent in
      if tier_is_open tier then Inr ()
      else
        let corpus = corpus_as_str (en_corpus ent) in
        and_then (build_verifier env s license_purpose) (\<lambda>verifier.
        if list_ex (blob_authorises env verifier corpus tier (en_license_epoch ent)) (license_token_blobs s corpus)
        then Inr () else Inl (Reject MissingEntitlement)))"

definition install_verified_license_token :: "('k, 's) trust_env \<Rightarrow> string \<Rightarrow> (unit, sync_error) dbact" where
  "install_verified_license_token env signed_token_json =
     bind_act (\<lambda>s. (s, build_verifier env s license_purpose)) (\<lambda>verifier.
     bind_act (lift_res (ok_or (te_parse_token env signed_token_json) SyncJson)) (\<lambda>doc.
     bind_act (lift_res (map_err (\<lambda>_. Reject SignatureInvalid) (signed_verify verifier (te_token_codec env) doc))) (\<lambda>_.
     map_err_act Storage (install_license_token (te_jsonb env) (sd_payload doc) signed_token_json))))"

section \<open>Entitlement\<close>

text \<open>The columns of a token row other than its corpus and its document are not trusted.\<close>

definition same_token_documents :: "db \<Rightarrow> db \<Rightarrow> bool" where
  "same_token_documents s t \<longleftrightarrow> (\<forall>corpus. license_token_blobs s corpus = license_token_blobs t corpus)"

lemma blob_in_insert:
  assumes "bt_ok m"
  shows "(k, v) \<in> set (bt_insert k v m)"
proof (rule map_of_SomeD)
  show "map_of (bt_insert k v m) k = Some v"
    using fun_cong [OF bt_get_insert [OF assms, of k v], of k] by (simp add: bt_get_def)
qed

lemma install_verified_license_tokenD:
  assumes "install_verified_license_token env text s = (s', Inr ())"
  shows "\<exists>doc stored. te_parse_token env text = Some doc \<and> te_jsonb env text = Some stored
    \<and> s' = s\<lparr>db_tokens := bt_insert (token_key (sd_payload doc)) (lt_not_after (sd_payload doc), stored) (db_tokens s)\<rparr>"
proof -
  obtain doc where doc: "te_parse_token env text = Some doc"
    using assms by (cases "te_parse_token env text")
      (auto simp: install_verified_license_token_def bind_act_def lift_res_def ok_or_def fail_def split: sum.splits)
  obtain verifier where v: "build_verifier env s license_purpose = Inr verifier"
    using assms by (cases "build_verifier env s license_purpose")
      (auto simp: install_verified_license_token_def bind_act_def)
  have sig: "signed_verify verifier (te_token_codec env) doc = Inr ()"
    using assms doc v by (cases "signed_verify verifier (te_token_codec env) doc")
      (auto simp: install_verified_license_token_def bind_act_def lift_res_def ok_or_def map_err_def)
  have inst: "map_err_act Storage (install_license_token (te_jsonb env) (sd_payload doc) text) s = (s', Inr ())"
    using assms doc v sig by (simp add: install_verified_license_token_def bind_act_def lift_res_def ok_or_def map_err_def)
  show ?thesis
  proof (cases "te_jsonb env text")
    case None
    then show ?thesis using inst by (simp add: map_err_act_def install_license_token_def statement_def map_err_def)
  next
    case (Some stored)
    then show ?thesis
      using inst doc by (simp add: map_err_act_def install_license_token_def statement_def)
  qed
qed


text \<open>A store with one licence anchor, and the document of a subscription token.\<close>

definition sample_key_text :: "nat \<Rightarrow> string" where
  "sample_key_text n = replicate (n * 2) CHR ''0''"

definition sample_trust_lib :: "(string, string) crypto_lib" where
  "sample_trust_lib = \<lparr>cl_hex_encode = (\<lambda>b. b), cl_hex_decode = (\<lambda>text. Some text),
     cl_key_from_bytes = Some, cl_sig_from_slice = Some, cl_verify_strict = (\<lambda>k m s. s = k @ k),
     cl_verifying_key = (\<lambda>seed. seed), cl_sign = (\<lambda>seed m. seed @ seed)\<rparr>"

definition sample_token_doc :: "license_token signed" where
  "sample_token_doc = \<lparr>sd_payload = \<lparr>lt_entitlement_corpus = Corpus ''core'', lt_tier = ''pro'',
       lt_license_epoch = 2, lt_audience = None, lt_not_after = None\<rparr>,
     sd_signature = \<lparr>sig_algorithm = ''ed25519'', sig_key_id = ''producer'', sig_key_epoch = 1,
       sig_hex = sample_key_text 64\<rparr>\<rparr>"

definition sample_trust_env :: "(string, string) trust_env" where
  "sample_trust_env = \<lparr>te_lib = sample_trust_lib,
     te_token_codec = \<lparr>cd_to_json = (\<lambda>t. Inr JNull), cd_print = (\<lambda>j. []), cd_backing = bt_insert\<rparr>,
     te_parse_token = (\<lambda>text. if text = ''token'' then Some sample_token_doc else None),
     te_jsonb = Some, te_clock = (\<lambda>ts. Some True)\<rparr>"

definition sample_trust_db :: db where
  "sample_trust_db = sample_db\<lparr>db_anchors :=
     [((''producer'', 1, ''license''), (''ed25519'', sample_key_text 32))]\<rparr>"

lemma sample_decode: "decode_lower_hex_exact sample_trust_lib (sample_key_text n) n = Some (sample_key_text n)"
  by (simp add: decode_lower_hex_exact_def sample_key_text_def sample_trust_lib_def list_all_iff
      lower_hex_byte_def is_digit_def)

lemma sample_verifier:
  "build_verifier sample_trust_env sample_trust_db license_purpose =
     Inr (ed25519_verify_bytes sample_trust_lib [((''producer'', 1), sample_key_text 32)])"
  by (simp add: build_verifier_def load_trust_anchors_def sample_trust_db_def license_purpose_def
      sample_trust_env_def from_anchors_def anchor_key_def ed25519_algorithm_def u32_or_zero_def sample_decode)
    (simp add: sample_trust_lib_def)

lemma sample_blob_ok:
  "signed_verify (ed25519_verify_bytes sample_trust_lib [((''producer'', 1), sample_key_text 32)])
     (te_token_codec sample_trust_env) sample_token_doc = Inr ()"
proof -
  have "canonical_payload (te_token_codec sample_trust_env) sample_token_doc = Inr []"
    by (simp add: canonical_payload_def value_bytes_def sample_trust_env_def canonical_bytes_def)
  moreover have "cl_sig_from_slice sample_trust_lib = Some"
    "cl_verify_strict sample_trust_lib (sample_key_text 32) [] (sample_key_text 64)"
    by (simp_all add: sample_trust_lib_def sample_key_text_def flip: replicate_add)
  ultimately show ?thesis
    by (simp add: signed_verify_Inr ed25519_verify_bytes_Inr sample_token_doc_def ed25519_algorithm_def
        bt_get_def sample_decode)
qed


end
