(* ===== verification/Applier.thy ===== *)
theory Applier
  imports Planner Activation Incremental_Apply Trust
begin

text \<open>
  The package applier (\<open>syncd/apply.rs\<close>): the gates every package passes, the media path that loads a
  new generation and switches to it, and the incremental path that mutates the active generation in one
  transaction.  Parameters are the file system, serde's parsers, SHA-256, the decoding of PostgreSQL's
  binary COPY format and the read visibility of the connection, collected in \<open>apply_env\<close>.
\<close>

section \<open>The artifact on disk\<close>

record ('k, 's) apply_env =
  ae_trust :: "('k, 's) trust_env"
  ae_manifest_codec :: "embedded_manifest codec"
  ae_parse_manifest :: "string \<Rightarrow> embedded_manifest signed option"
  ae_parse_value :: "string \<Rightarrow> json option"
  ae_parse_replace_set :: "string \<Rightarrow> replace_set option"
  ae_print :: "json \<Rightarrow> string"
  ae_sha256 :: "string \<Rightarrow> string"
  ae_copy_rows :: "string list \<Rightarrow> string \<Rightarrow> row list option"
  ae_read_file :: "string \<Rightarrow> string option"
  ae_visibility :: "read_visibility option"

definition manifest_path :: "string \<Rightarrow> string" where
  "manifest_path artifact_dir = path_join artifact_dir ''manifest.json''"

definition payload_dir :: "string \<Rightarrow> string" where
  "payload_dir artifact_dir = path_join artifact_dir ''payload''"

definition payload_file_path :: "string \<Rightarrow> string \<Rightarrow> string" where
  "payload_file_path artifact_dir file_name = path_join (payload_dir artifact_dir) file_name"

text \<open>\<open>std::fs::read\<close> and \<open>File::open\<close>.\<close>

definition read_file :: "('k, 's) apply_env \<Rightarrow> string \<Rightarrow> (string, sync_error) result" where
  "read_file env path = ok_or (ae_read_file env path) SyncIo"

text \<open>Well-formed UTF-8, as \<open>BufRead::lines\<close> checks it.\<close>

definition cont_byte :: "nat \<Rightarrow> bool" where
  "cont_byte b \<longleftrightarrow> 128 \<le> b \<and> b \<le> 191"

definition second_byte :: "nat \<Rightarrow> nat \<Rightarrow> bool" where
  "second_byte a b \<longleftrightarrow>
     (if a = 224 then 160 \<le> b \<and> b \<le> 191
      else if a = 237 then 128 \<le> b \<and> b \<le> 159
      else if a = 240 then 144 \<le> b \<and> b \<le> 191
      else if a = 244 then 128 \<le> b \<and> b \<le> 143
      else cont_byte b)"

fun utf8_ok :: "nat list \<Rightarrow> bool" where
  "utf8_ok [] = True"
| "utf8_ok (a # r) =
     (if a < 128 then utf8_ok r
      else if 194 \<le> a \<and> a \<le> 223 then (case r of b # r' \<Rightarrow> cont_byte b \<and> utf8_ok r' | [] \<Rightarrow> False)
      else if 224 \<le> a \<and> a \<le> 239 then
        (case r of b # c # r' \<Rightarrow> second_byte a b \<and> cont_byte c \<and> utf8_ok r' | _ \<Rightarrow> False)
      else if 240 \<le> a \<and> a \<le> 244 then
        (case r of b # c # d # r' \<Rightarrow> second_byte a b \<and> cont_byte c \<and> cont_byte d \<and> utf8_ok r' | _ \<Rightarrow> False)
      else False)"

definition checked_line :: "string \<Rightarrow> (string, sync_error) result" where
  "checked_line l = (if utf8_ok (map of_char l) then Inr l else Inl SyncIo)"

definition strip_cr :: "string \<Rightarrow> string" where
  "strip_cr l = (if l \<noteq> [] \<and> last l = CHR 0x0D then butlast l else l)"

text \<open>\<open>BufRead::lines\<close>: terminated lines lose their terminator, an unterminated last line is kept as it is.\<close>

definition read_lines :: "string \<Rightarrow> (string, sync_error) result list" where
  "read_lines bytes =
     (let pieces = split_on CHR 0x0A bytes
      in map (\<lambda>l. checked_line (strip_cr l)) (butlast pieces)
         @ (if last pieces = [] then [] else [checked_line (last pieces)]))"

definition read_signed_manifest ::
  "('k, 's) apply_env \<Rightarrow> string \<Rightarrow> verifier \<Rightarrow> (embedded_manifest, sync_error) result" where
  "read_signed_manifest env artifact_dir verifier =
     and_then (read_file env (manifest_path artifact_dir)) (\<lambda>bytes.
     and_then (ok_or (ae_parse_manifest env bytes) SyncJson) (\<lambda>doc.
     and_then (map_err (\<lambda>_. Reject SignatureInvalid) (signed_verify verifier (ae_manifest_codec env) doc)) (\<lambda>_.
     Inr (sd_payload doc))))"

section \<open>The gates\<close>

definition check_client_version :: "embedded_manifest \<Rightarrow> (unit, sync_error) result" where
  "check_client_version m =
     ensure (satisfies_minimum client_version (co_minimum_client_version (em_compatibility m))) (Reject ClientTooOld)"

definition check_schema_compatibility :: "db \<Rightarrow> embedded_manifest \<Rightarrow> (unit, sync_error) result" where
  "check_schema_compatibility s m =
     (let applied = sv_schema_version (db_server s) in
      and_then (ensure (\<not> applied > current_schema_version) (Reject SchemaAhead)) (\<lambda>_.
      and_then (ensure (co_schema_version (em_compatibility m) = applied) (Reject SchemaAhead)) (\<lambda>_.
      ensure (sv_bundle_digest (db_server s) = co_schema_migration_bundle_digest (em_compatibility m))
        (Reject SchemaAhead))))"

definition check_extensions :: "db \<Rightarrow> embedded_manifest \<Rightarrow> (unit, sync_error) result" where
  "check_extensions s m =
     fold_result (\<lambda>ext _. ensure (er_name ext \<in> set (sv_extensions (db_server s))) (Reject ExtensionMissing))
       (co_requires_extensions (em_compatibility m)) ()"

definition trim :: "string \<Rightarrow> string" where
  "trim t = rev (dropWhile (\<lambda>c. is_blank [c]) (rev (dropWhile (\<lambda>c. is_blank [c]) t)))"

definition server_version_major :: "db \<Rightarrow> (u32, sync_error) result" where
  "server_version_major s =
     ok_or (map_option (\<lambda>n. n div 10000) (parse_u32 (trim (sv_version_num (db_server s))))) (Reject ExtensionMissing)"

definition check_copy_binary_guard :: "db \<Rightarrow> embedded_manifest \<Rightarrow> (unit, sync_error) result" where
  "check_copy_binary_guard s m =
     (if \<not> list_ex (\<lambda>f. pf_format f = CopyBinary) (pl_files (em_payload m)) then Inr ()
      else case (co_postgres_major_min (em_compatibility m), co_postgres_major_max (em_compatibility m)) of
        (Some mn, Some mx) \<Rightarrow>
          and_then (server_version_major s) (\<lambda>major.
            ensure (\<not> (major < mn \<or> major > mx)) (Reject ExtensionMissing))
      | _ \<Rightarrow> Inl (Reject ExtensionMissing))"

text \<open>The files are read off disk; nothing in the signed maps is trusted for the aggregate.\<close>

definition verify_file :: "('k, 's) apply_env \<Rightarrow> string \<Rightarrow> payload_file \<Rightarrow> (string, string) btree \<Rightarrow>
    ((string, string) btree, sync_error) result" where
  "verify_file env artifact_dir file verified =
     and_then (read_file env (payload_file_path artifact_dir (pf_file_name file))) (\<lambda>bytes.
     and_then (map_err (\<lambda>_. SyncIo) (tee_digest (ae_sha256 env) (\<lambda>w b. Inr w) () [Inr bytes])) (\<lambda>(digest, _).
     and_then (ensure (digest = pf_digest file) (Reject DigestMismatch)) (\<lambda>_.
     and_then (ensure (bt_get verified (pf_file_name file) = None) (Reject DigestMismatch)) (\<lambda>_.
     Inr (bt_insert (pf_file_name file) digest verified)))))"

definition verify_per_file_digests :: "('k, 's) apply_env \<Rightarrow> string \<Rightarrow> embedded_manifest \<Rightarrow> (unit, sync_error) result" where
  "verify_per_file_digests env artifact_dir m =
     and_then (fold_result (verify_file env artifact_dir) (pl_files (em_payload m)) []) (\<lambda>verified.
     and_then (ensure (verified = in_per_file_digests (em_integrity m)) (Reject DigestMismatch)) (\<lambda>_.
     let aggregate = aggregate_payload_digest (ae_sha256 env) verified in
     and_then (ensure (aggregate = in_artifact_sha256 (em_integrity m)) (Reject DigestMismatch)) (\<lambda>_.
     ensure (aggregate = in_uncompressed_payload_digest (em_integrity m)) (Reject DigestMismatch))))"

section \<open>Outcomes and idempotency\<close>

datatype baseline_apply_outcome =
    MediaApplied string string u64 generation_index_report
  | MediaAlreadyApplied string u64

datatype media_apply_mode = BaselineMode | RebaselineMode

fun expected_kind :: "media_apply_mode \<Rightarrow> package_kind" where
  "expected_kind BaselineMode = Baseline"
| "expected_kind RebaselineMode = Rebaseline"

definition behind_is_applicable :: "media_apply_mode \<Rightarrow> bool" where
  "behind_is_applicable mode \<longleftrightarrow> mode = RebaselineMode"

definition idempotency_decision ::
  "db \<Rightarrow> string \<Rightarrow> u64 \<Rightarrow> string \<Rightarrow> string \<Rightarrow> bool \<Rightarrow> (baseline_apply_outcome option, sync_error) result" where
  "idempotency_decision s corpus result_sequence package_id package_digest behind =
     (case bt_get (db_corpora s) corpus of
        None \<Rightarrow> Inr None
      | Some r \<Rightarrow>
          let current = u64_or_zero (cs_sequence r) in
          if current = result_sequence then
            (if cs_last_package_id r = Some package_id \<and> cs_last_package_digest r = Some package_digest
             then Inr (Some (MediaAlreadyApplied corpus current)) else Inl (Reject DigestMismatch))
          else if current > result_sequence then Inl (Reject WrongGeneration)
          else if behind then Inr None
          else Inl (Reject BaselineRequired))"

definition restamp_active_readiness :: "string \<Rightarrow> (unit, sync_error) dbact" where
  "restamp_active_readiness corpus =
     bind_act (gets (\<lambda>s. bt_get (db_corpora s) corpus)) (\<lambda>found.
     bind_act (lift_res (ok_or found SyncPostgres)) (\<lambda>r.
     transaction (map_err_act Storage (bind_act (stamp_query_readiness (cs_active_generation r)) (\<lambda>_. ret ())))))"
section \<open>The media path\<close>

definition acquire_corpus_apply_lock :: "string \<Rightarrow> (unit, storage_error) dbact" where
  "acquire_corpus_apply_lock corpus = modify (\<lambda>s. s\<lparr>db_corpus_locks := corpus # db_corpus_locks s\<rparr>)"

definition release_corpus_apply_lock :: "string \<Rightarrow> (unit, storage_error) dbact" where
  "release_corpus_apply_lock corpus = modify (\<lambda>s. s\<lparr>db_corpus_locks := remove1 corpus (db_corpus_locks s)\<rparr>)"

definition copy_file :: "('k, 's) apply_env \<Rightarrow> string \<Rightarrow> string \<Rightarrow> payload_file \<Rightarrow> (unit, sync_error) dbact" where
  "copy_file env artifact_dir schema file =
     bind_act (check_act (pf_format file = CopyBinary) (Reject ExtensionMissing)) (\<lambda>_.
     bind_act (lift_res (read_file env (payload_file_path artifact_dir (pf_file_name file)))) (\<lambda>bytes.
     map_err_act (\<lambda>_. SyncPostgres) (on_schema schema (\<lambda>sv sch.
       case ae_copy_rows env (pf_columns file) bytes of
         None \<Rightarrow> Inl PostgresClient
       | Some rows \<Rightarrow> and_then (insert_all sv (pf_table file) (pf_columns file) rows sch) (\<lambda>sch'. Inr (sch', ()))))))"

definition copy_payload_in ::
  "('k, 's) apply_env \<Rightarrow> string \<Rightarrow> embedded_manifest \<Rightarrow> string \<Rightarrow> (unit, sync_error) dbact" where
  "copy_payload_in env artifact_dir m schema =
     bind_act (check_act (citation_order_holds (em_payload m)) (Reject DigestMismatch)) (\<lambda>_.
     for_each (pl_apply_order (em_payload m)) (\<lambda>t.
       case List.find (\<lambda>f. pf_table f = t) (pl_files (em_payload m)) of
         None \<Rightarrow> ret ()
       | Some file \<Rightarrow> copy_file env artifact_dir schema file))"

definition index_shape_of :: "db \<Rightarrow> string \<Rightarrow> string \<Rightarrow> index_shape option" where
  "index_shape_of s schema name =
     (case db_schemas s schema of None \<Rightarrow> None | Some sch \<Rightarrow> map_of (sch_indexes sch) name)"

definition check_bm25 :: "db \<Rightarrow> string \<Rightarrow> string \<Rightarrow> (unit, sync_error) result" where
  "check_bm25 s schema name =
     and_then (ok_or (index_shape_of s schema name) (Reject DigestMismatch)) (\<lambda>shape.
     and_then (ensure (is_access_method shape = ''bm25'') (Reject DigestMismatch)) (\<lambda>_.
     ensure (is_replicated_table (is_table shape)) (Reject DigestMismatch)))"

definition check_ivfflat :: "db \<Rightarrow> string \<Rightarrow> ivfflat_finalize \<Rightarrow> (unit, sync_error) result" where
  "check_ivfflat s schema ivf =
     and_then (ok_or (index_shape_of s schema (iv_index ivf)) (Reject DigestMismatch)) (\<lambda>shape.
     and_then (ensure (is_access_method shape = ''ivfflat'') (Reject DigestMismatch)) (\<lambda>_.
     and_then (ensure (is_replicated_table (is_table shape)) (Reject DigestMismatch)) (\<lambda>_.
     and_then (ensure (is_indexed_column shape = Some ''embedding'') (Reject DigestMismatch)) (\<lambda>_.
     and_then (ensure (is_lists shape = Some (show_nat (unat (iv_lists ivf)))) (Reject DigestMismatch)) (\<lambda>_.
     ensure (iv_probes ivf = recommended_probes (iv_lists ivf)) (Reject DigestMismatch))))))"

definition validate_index_contract :: "db \<Rightarrow> string \<Rightarrow> embedded_manifest \<Rightarrow> (unit, sync_error) result" where
  "validate_index_contract s schema m =
     and_then (fold_result (\<lambda>name _. check_bm25 s schema name) (ib_bm25_indexes (ap_index_build (em_apply m))) ()) (\<lambda>_.
     fold_result (\<lambda>ivf _. check_ivfflat s schema ivf) (ib_ivfflat_finalize (ap_index_build (em_apply m))) ())"

definition i32_or_zero :: "u32 \<Rightarrow> int" where
  "i32_or_zero w = (if uint w \<le> 2 ^ 31 - 1 then uint w else 0)"

definition dense_manifest_entry_of ::
  "string \<Rightarrow> compatibility \<Rightarrow> ivfflat_finalize \<Rightarrow> string \<times> string \<times> string \<Rightarrow> dense_manifest_entry" where
  "dense_manifest_entry_of schema cm ivf = (\<lambda>(key, parent_table, embedding_table).
     \<lparr>dm_schema = schema, dm_key = key, dm_parent_table = parent_table, dm_embedding_table = embedding_table,
      dm_index_name = iv_index ivf, dm_lists = iv_lists ivf, dm_default_probes = iv_probes ivf,
      dm_embedding_fingerprint = co_embedding_fingerprint cm, dm_embedding_model = co_embedding_model cm,
      dm_embedding_dimension = i32_or_zero (co_embedding_dimension cm),
      dm_embedding_normalize = co_embedding_normalize cm\<rparr>)"

definition dense_manifest_entries :: "string \<Rightarrow> embedded_manifest \<Rightarrow> dense_manifest_entry list" where
  "dense_manifest_entries schema m =
     concat (map (\<lambda>ivf.
       if iv_index ivf = dense_vector_index_name
       then [dense_manifest_entry_of schema (em_compatibility m) ivf (''embedding'', ''chunks'', ''chunk_embeddings'')]
       else if iv_index ivf = zone_unit_vector_index_name
       then [dense_manifest_entry_of schema (em_compatibility m) ivf
         (''zone_embedding'', ''zone_units'', ''zone_unit_embeddings'')]
       else []) (ib_ivfflat_finalize (ap_index_build (em_apply m))))"

text \<open>Counts and content digests per replicated table, over the rows of the corpus (\<open>outbox.rs\<close>).\<close>

record table_digest =
  td_table_name :: string
  td_row_count :: u64
  td_digest :: string

definition digest_rows :: "schema_tables \<Rightarrow> string \<Rightarrow> string \<Rightarrow> row list" where
  "digest_rows sch corpus t = filter (corpus_scope_predicate sch t corpus) (sch_rows sch t)"

definition corpus_table_digests :: "db \<Rightarrow> string \<Rightarrow> string \<Rightarrow> (table_digest list, storage_error) result" where
  "corpus_table_digests s corpus schema =
     (case db_schemas s schema of
        None \<Rightarrow> Inl PostgresClient
      | Some sch \<Rightarrow> Inr (map (\<lambda>t. \<lparr>td_table_name = t, td_row_count = of_nat (length (digest_rows sch corpus t)),
          td_digest = sv_table_digest (db_server s) corpus t (digest_rows sch corpus t)\<rparr>) replicated_tables))"

definition check_postcondition :: "postconditions \<Rightarrow> table_digest \<Rightarrow> (unit, sync_error) result" where
  "check_postcondition post d =
     and_then (ensure (td_row_count d = (case bt_get (post_row_counts post) (td_table_name d) of None \<Rightarrow> 0 | Some n \<Rightarrow> n))
       (Reject DigestMismatch)) (\<lambda>_.
     ensure (bt_get (post_table_digests post) (td_table_name d) = Some (td_digest d)) (Reject DigestMismatch))"

definition validate_postconditions :: "db \<Rightarrow> string \<Rightarrow> string \<Rightarrow> embedded_manifest \<Rightarrow> (unit, sync_error) result" where
  "validate_postconditions s corpus schema m =
     and_then (map_err Storage (corpus_table_digests s corpus schema)) (\<lambda>digests.
     fold_result (\<lambda>d _. check_postcondition (ap_postconditions (em_apply m)) d) digests ())"

definition builder_versions_json :: "embedded_manifest \<Rightarrow> json" where
  "builder_versions_json m = json_of_string_map (co_builder_versions (em_compatibility m))"

definition media_stamps :: "embedded_manifest \<Rightarrow> activation_stamps" where
  "media_stamps m = \<lparr>sp_sequence = i64_saturating (ps_get (ap_result_sequence (em_apply m))),
     sp_baseline_id = id_baseline_id (em_identity m),
     sp_schema_version = co_schema_version (em_compatibility m),
     sp_embedding_fingerprint = co_embedding_fingerprint (em_compatibility m),
     sp_builder_versions = builder_versions_json m,
     sp_last_package_id = Some (id_package_id (em_identity m)),
     sp_last_package_digest = Some (in_artifact_sha256 (em_integrity m))\<rparr>"

definition media_guard :: "media_apply_mode \<Rightarrow> u64 \<Rightarrow> cursor_guard" where
  "media_guard mode result_sequence =
     (case mode of BaselineMode \<Rightarrow> FirstBaseline
      | RebaselineMode \<Rightarrow> RebaselineForward (i64_saturating result_sequence))"

definition load_and_activate ::
  "('k, 's) apply_env \<Rightarrow> string \<Rightarrow> embedded_manifest \<Rightarrow> media_apply_mode \<Rightarrow> (baseline_apply_outcome, sync_error) dbact" where
  "load_and_activate env artifact_dir m mode =
     (let corpus = corpus_as_str (id_corpus (em_identity m)); generation = id_generation (em_identity m) in
      bind_act (lift_res (ok_or (generation_counter_of corpus generation) (Reject DigestMismatch))) (\<lambda>counter.
      let schema = generation_schema corpus counter in
      bind_act (map_err_act Storage (reset_building_generation corpus generation)) (\<lambda>_.
      bind_act (map_err_act Storage
        (create_generation_load_tables corpus counter (Some (id_baseline_id (em_identity m))))) (\<lambda>_.
      bind_act (copy_payload_in env artifact_dir m schema) (\<lambda>_.
      bind_act (map_err_act Storage (build_generation_indexes generation corpus)) (\<lambda>index_report.
      bind_act (\<lambda>s. (s, validate_index_contract s schema m)) (\<lambda>_.
      bind_act (\<lambda>s. (s, validate_postconditions s corpus schema m)) (\<lambda>_.
      bind_act (map_err_act Storage (activate_generation_inner corpus generation (media_stamps m)
        (media_guard mode (ps_get (ap_result_sequence (em_apply m)))) (dense_manifest_entries schema m) (ae_visibility env))) (\<lambda>_.
      ret (MediaApplied corpus generation (ps_get (ap_result_sequence (em_apply m))) index_report))))))))))"

definition apply_media_locked ::
  "('k, 's) apply_env \<Rightarrow> string \<Rightarrow> embedded_manifest \<Rightarrow> media_apply_mode \<Rightarrow> (baseline_apply_outcome, sync_error) dbact" where
  "apply_media_locked env artifact_dir m mode =
     (let corpus = corpus_as_str (id_corpus (em_identity m)) in
      bind_act (\<lambda>s. (s, idempotency_decision s corpus (ps_get (ap_result_sequence (em_apply m)))
        (id_package_id (em_identity m)) (in_artifact_sha256 (em_integrity m)) (behind_is_applicable mode))) (\<lambda>decision.
      case decision of
        Some outcome \<Rightarrow> bind_act (restamp_active_readiness corpus) (\<lambda>_. ret outcome)
      | None \<Rightarrow> load_and_activate env artifact_dir m mode))"

definition media_gates ::
  "('k, 's) apply_env \<Rightarrow> string \<Rightarrow> media_apply_mode \<Rightarrow> embedded_manifest \<Rightarrow> db \<Rightarrow> (unit, sync_error) result" where
  "media_gates env artifact_dir mode m s =
     and_then (ensure (id_package_kind (em_identity m) = expected_kind mode) (Reject BaselineRequired)) (\<lambda>_.
     and_then (check_client_version m) (\<lambda>_.
     and_then (check_schema_compatibility s m) (\<lambda>_.
     and_then (check_extensions s m) (\<lambda>_.
     and_then (check_copy_binary_guard s m) (\<lambda>_.
     and_then (check_entitlement (ae_trust env) s m) (\<lambda>_.
     verify_per_file_digests env artifact_dir m))))))"

definition apply_media_package ::
  "('k, 's) apply_env \<Rightarrow> string \<Rightarrow> verifier \<Rightarrow> media_apply_mode \<Rightarrow> (baseline_apply_outcome, sync_error) dbact" where
  "apply_media_package env artifact_dir verifier mode =
     bind_act (lift_res (read_signed_manifest env artifact_dir verifier)) (\<lambda>m.
     let corpus = corpus_as_str (id_corpus (em_identity m)) in
     bind_act (\<lambda>s. (s, media_gates env artifact_dir mode m s)) (\<lambda>_.
     bind_act (map_err_act Storage (acquire_corpus_apply_lock corpus)) (\<lambda>_ s.
       let (s', outcome) = apply_media_locked env artifact_dir m mode s
       in (fst (release_corpus_apply_lock corpus s'), outcome))))"

definition apply_baseline ::
  "('k, 's) apply_env \<Rightarrow> string \<Rightarrow> verifier \<Rightarrow> (baseline_apply_outcome, sync_error) dbact" where
  "apply_baseline env artifact_dir verifier = apply_media_package env artifact_dir verifier BaselineMode"

definition apply_rebaseline ::
  "('k, 's) apply_env \<Rightarrow> string \<Rightarrow> verifier \<Rightarrow> (baseline_apply_outcome, sync_error) dbact" where
  "apply_rebaseline env artifact_dir verifier = apply_media_package env artifact_dir verifier RebaselineMode"

section \<open>The incremental path\<close>

datatype incremental_apply_outcome =
    IncrementalApplied string u64 nat
  | IncrementalAlreadyApplied string u64

fun replace_set_group :: "string \<Rightarrow> replace_set_group option" where
  "replace_set_group token =
     (if token = ''chunks_with_embeddings'' then Some ChunksWithEmbeddings
      else if token = ''chunk_embeddings'' then Some ChunkEmbeddings
      else if token = ''zone_units'' then Some ZoneUnits
      else if token = ''decision_zones'' then Some DecisionZones
      else None)"

text \<open>The column and key maps are computed for the replicated tables only; a lookup of another table
  gives the empty list.\<close>

definition columns_map :: "server \<Rightarrow> string \<Rightarrow> string list" where
  "columns_map sv t = (if is_replicated_table t then sv_columns sv t else [])"

definition pk_map :: "server \<Rightarrow> string \<Rightarrow> string list" where
  "pk_map sv t = (if is_replicated_table t then sv_pk sv t else [])"

definition replace_set_line ::
  "('k, 's) apply_env \<Rightarrow> server \<Rightarrow> string \<Rightarrow> replace_set_group \<Rightarrow> string \<Rightarrow> nat \<Rightarrow> (nat, sync_error) dbact" where
  "replace_set_line env sv schema grp line scopes =
     (if is_blank line then ret scopes
      else bind_act (lift_res (ok_or (ae_parse_replace_set env line) SyncJson)) (\<lambda>rs.
        let doc = sc_document_id (rs_scope rs) in
        bind_act (map_err_act Storage (on_schema schema (\<lambda>sv' sch.
          and_then (apply_replace_set sv' grp doc (rs_rows rs) (columns_map sv) sch) (\<lambda>sch'. Inr (sch', ()))))) (\<lambda>_.
        bind_act (map_err_act Storage (on_schema schema (\<lambda>sv' sch. Inr (sch, replace_set_rows sv' sch grp doc)))) (\<lambda>actual.
        bind_act (check_act (set_digest_over_rows (ae_sha256 env) (ae_print env) actual = rs_set_digest rs)
          (Reject DigestMismatch)) (\<lambda>_.
        ret (scopes + 1))))))"

definition apply_incremental_file ::
  "('k, 's) apply_env \<Rightarrow> server \<Rightarrow> string \<Rightarrow> string \<Rightarrow> string \<Rightarrow> payload_file \<Rightarrow> nat \<Rightarrow> (nat, sync_error) dbact" where
  "apply_incremental_file env sv schema artifact_dir token file scopes =
     bind_act (lift_res (read_file env (payload_file_path artifact_dir (pf_file_name file)))) (\<lambda>bytes.
     case pf_op file of
       Upsert \<Rightarrow> bind_act (stream_jsonl_batched (ae_parse_value env) (read_lines bytes)
           (upsert_batch schema token (pf_columns file) (pk_map sv token))) (\<lambda>n. ret (scopes + n))
     | Delete \<Rightarrow> bind_act (stream_jsonl_batched (ae_parse_value env) (read_lines bytes)
           (delete_batch schema token (pk_map sv token))) (\<lambda>n. ret (scopes + n))
     | ReplaceSetEvent \<Rightarrow>
         bind_act (lift_res (ok_or (replace_set_group token) (Reject DigestMismatch))) (\<lambda>grp.
         fold_act (read_lines bytes) (\<lambda>l n. bind_act (lift_res l) (\<lambda>line.
           replace_set_line env sv schema grp line n)) scopes))"

definition apply_incremental_files ::
  "('k, 's) apply_env \<Rightarrow> server \<Rightarrow> string \<Rightarrow> string \<Rightarrow> embedded_manifest \<Rightarrow> (nat, sync_error) dbact" where
  "apply_incremental_files env sv schema artifact_dir m =
     fold_act (pl_apply_order (em_payload m)) (\<lambda>token.
       fold_act (filter (\<lambda>f. pf_table f = token) (pl_files (em_payload m)))
         (apply_incremental_file env sv schema artifact_dir token)) 0"

definition incremental_gates ::
  "('k, 's) apply_env \<Rightarrow> string \<Rightarrow> embedded_manifest \<Rightarrow> db \<Rightarrow> (unit, sync_error) result" where
  "incremental_gates env artifact_dir m s =
     and_then (ensure (id_package_kind (em_identity m) = Incremental) (Reject BaselineRequired)) (\<lambda>_.
     and_then (check_client_version m) (\<lambda>_.
     and_then (check_schema_compatibility s m) (\<lambda>_.
     and_then (check_extensions s m) (\<lambda>_.
     and_then (check_entitlement (ae_trust env) s m) (\<lambda>_.
     verify_per_file_digests env artifact_dir m)))))"

text \<open>Chain link, active-state and content-compatibility preconditions, in the order of the code.\<close>

definition check_chain :: "embedded_manifest \<Rightarrow> corpus_row \<Rightarrow> (unit, sync_error) result" where
  "check_chain m r =
     (let pre = ap_preconditions (em_apply m) in
      and_then (ensure (u64_or_zero (cs_sequence r) = ps_get (ap_expected_client_from_sequence (em_apply m)))
        (Reject SequenceGap)) (\<lambda>_.
      and_then (ensure (id_previous_package_id (em_identity m) = cs_last_package_id r) (Reject WrongGeneration)) (\<lambda>_.
      and_then (ensure (id_previous_package_sha256 (em_identity m) = cs_last_package_digest r) (Reject DigestMismatch)) (\<lambda>_.
      and_then (ensure (case pre_active_baseline_id pre of None \<Rightarrow> True | Some b \<Rightarrow> b = cs_baseline_id r)
        (Reject WrongGeneration)) (\<lambda>_.
      and_then (ensure (case pre_active_generation pre of None \<Rightarrow> True | Some g \<Rightarrow> g = cs_active_generation r)
        (Reject WrongGeneration)) (\<lambda>_.
      and_then (ensure (pre_schema_version pre = cs_schema_version r) (Reject SchemaAhead)) (\<lambda>_.
      and_then (ensure (pre_embedding_fingerprint pre = cs_embedding_fingerprint r) (Reject EmbeddingFingerprintMismatch)) (\<lambda>_.
      ensure (json_of_string_map (pre_builder_versions pre) = cs_builder_versions r)
        (Reject BuilderVersionMismatch)))))))))"

definition mutate_generation ::
  "('k, 's) apply_env \<Rightarrow> server \<Rightarrow> string \<Rightarrow> embedded_manifest \<Rightarrow> string \<Rightarrow> string \<Rightarrow> (incremental_apply_outcome, sync_error) dbact" where
  "mutate_generation env sv artifact_dir m corpus active_generation =
     (let schema = schema_for_generation active_generation;
          result_sequence = ps_get (ap_result_sequence (em_apply m)) in
      bind_act (gets (\<lambda>s. has_cascade_fks s schema)) (\<lambda>cascades.
      bind_act (check_act cascades (Reject WrongGeneration)) (\<lambda>_.
      bind_act (apply_incremental_files env sv schema artifact_dir m) (\<lambda>scopes.
      bind_act (\<lambda>s. (s, validate_postconditions s corpus schema m)) (\<lambda>_.
      bind_act (map_err_act Storage (advance_corpus_cursor corpus (i64_saturating result_sequence)
        (id_package_id (em_identity m)) (in_artifact_sha256 (em_integrity m)))) (\<lambda>_.
      bind_act (map_err_act Storage (stamp_query_readiness active_generation)) (\<lambda>_.
      ret (IncrementalApplied corpus result_sequence scopes))))))))"

definition incremental_transaction ::
  "('k, 's) apply_env \<Rightarrow> server \<Rightarrow> string \<Rightarrow> embedded_manifest \<Rightarrow> (incremental_apply_outcome, sync_error) dbact" where
  "incremental_transaction env sv artifact_dir m =
     (let corpus = corpus_as_str (id_corpus (em_identity m));
          result_sequence = ps_get (ap_result_sequence (em_apply m)) in
      transaction (
      bind_act (gets db_apply_lock_busy) (\<lambda>busy.
      bind_act (check_act (\<not> busy) LockBusy) (\<lambda>_.
      bind_act (gets (\<lambda>s. bt_get (db_corpora s) corpus)) (\<lambda>found.
      bind_act (lift_res (ok_or found (Reject BaselineRequired))) (\<lambda>r.
      let current = u64_or_zero (cs_sequence r) in
      if current = result_sequence then
        (if cs_last_package_id r = Some (id_package_id (em_identity m))
            \<and> cs_last_package_digest r = Some (in_artifact_sha256 (em_integrity m))
         then bind_act (map_err_act Storage (stamp_query_readiness (cs_active_generation r))) (\<lambda>_.
              ret (IncrementalAlreadyApplied corpus current))
         else fail (Reject DigestMismatch))
      else if current > result_sequence then fail (Reject WrongGeneration)
      else bind_act (lift_res (check_chain m r)) (\<lambda>_.
        mutate_generation env sv artifact_dir m corpus (cs_active_generation r))))))))"

definition apply_incremental ::
  "('k, 's) apply_env \<Rightarrow> string \<Rightarrow> verifier \<Rightarrow> (incremental_apply_outcome, sync_error) dbact" where
  "apply_incremental env artifact_dir verifier =
     bind_act (lift_res (read_signed_manifest env artifact_dir verifier)) (\<lambda>m.
     bind_act (\<lambda>s. (s, incremental_gates env artifact_dir m s)) (\<lambda>_.
     bind_act (gets db_server) (\<lambda>sv.
     incremental_transaction env sv artifact_dir m)))"

end
