(* ===== verification/Apply_Correct.thy ===== *)
theory Apply_Correct
  imports Applier
begin

text \<open>
  Correctness of the applier: the incremental path is atomic and has exactly the effect its signed
  contract declares; re-applying a package is a no-op; the media path leaves every reader's view
  untouched until its switch.
\<close>

section \<open>What the row-level part of an incremental can touch\<close>

lemma keeps_stream_loop [keeps_intros]:
  assumes "reflp R" "transp R" "\<And>b. keeps R (apply_batch b)"
  shows "keeps R (stream_loop parse n apply_batch ls batch seen)"
proof (induction ls arbitrary: batch seen)
  case Nil
  show ?case by (auto simp: assms intro!: keeps_intros)
next
  case (Cons l ls)
  show ?case by (auto simp: assms Let_def Cons.IH intro!: keeps_intros)
qed

lemma keeps_stream [keeps_intros]:
  assumes "reflp R" "transp R" "\<And>b. keeps R (apply_batch b)"
  shows "keeps R (stream_jsonl_batched parse reader apply_batch)"
  unfolding stream_jsonl_batched_def stream_jsonl_batched_sized_def
  by (intro keeps_intros assms)

lemma keeps_upsert_batch [keeps_intros]: "keeps (same (outside schema)) (upsert_batch schema t columns pk rows)"
  unfolding upsert_batch_def by (auto intro!: keeps_intros)

lemma keeps_delete_batch [keeps_intros]: "keeps (same (outside schema)) (delete_batch schema t pk keys)"
  unfolding delete_batch_def by (auto intro!: keeps_intros)

lemma keeps_replace_set_line [keeps_intros]:
  "keeps (same (outside schema)) (replace_set_line env sv schema grp line n)"
  unfolding replace_set_line_def Let_def by (auto intro!: keeps_intros)

lemma keeps_incremental_file [keeps_intros]:
  "keeps (same (outside schema)) (apply_incremental_file env sv schema dir token file n)"
  unfolding apply_incremental_file_def
  by (cases "pf_op file"; simp only: event_kind.case; intro keeps_intros)

lemma keeps_incremental_files:
  "keeps (same (outside schema)) (apply_incremental_files env sv schema dir m)"
  unfolding apply_incremental_files_def by (intro keeps_intros)

text \<open>A change confined to one existing schema, written as an update.\<close>

lemma outside_update:
  assumes "same (outside schema) s t"
  shows "t = s\<lparr>db_schemas := (db_schemas s)(schema := db_schemas t schema)\<rparr>"
proof -
  from assms have eq: "outside schema t = outside schema s" by (simp add: same_def)
  then have "db_schemas (outside schema t) = db_schemas (outside schema s)" by simp
  then have "db_schemas t = (db_schemas s)(schema := db_schemas t schema)"
    by (auto simp: outside_def fun_eq_iff split: if_splits)
  moreover have "t\<lparr>db_schemas := x\<rparr> = s\<lparr>db_schemas := x\<rparr>" for x
    using eq by (cases s; cases t) (simp add: outside_def)
  ultimately show ?thesis by (metis db.surjective db.update_convs(4))
qed
section \<open>The effect of an incremental\<close>

lemma validate_postconditions_cong:
  "db_server t = db_server s \<Longrightarrow> db_schemas t = db_schemas s \<Longrightarrow>
     validate_postconditions t corpus schema m = validate_postconditions s corpus schema m"
  by (simp add: validate_postconditions_def corpus_table_digests_def cong: option.case_cong)

text \<open>The corpus row after package \<open>m\<close>.\<close>

definition advanced_row :: "embedded_manifest \<Rightarrow> corpus_row \<Rightarrow> corpus_row" where
  "advanced_row m r = r\<lparr>cs_sequence := i64_saturating (ps_get (ap_result_sequence (em_apply m))),
     cs_last_package_id := Some (id_package_id (em_identity m)),
     cs_last_package_digest := Some (in_artifact_sha256 (em_integrity m))\<rparr>"

text \<open>The database after package \<open>m\<close>: new contents of the active schema, the advanced cursor, and a
  new readiness stamp.\<close>

definition advanced_db :: "embedded_manifest \<Rightarrow> string \<Rightarrow> corpus_row \<Rightarrow> schema_tables option \<Rightarrow> manifest_value \<Rightarrow> db \<Rightarrow> db" where
  "advanced_db m corpus r sch stamp s = put_manifest query_readiness_key stamp (put_corpus corpus (advanced_row m r)
     (s\<lparr>db_schemas := (db_schemas s)(schema_for_generation (cs_active_generation r) := sch)\<rparr>))"

text \<open>Stamping twice is stamping once.\<close>

lemma put_manifest_again: "put_manifest k v (put_manifest k v s) = put_manifest k v s"
  by (simp add: put_manifest_def)

lemma stamp_again:
  assumes "stamp_query_readiness g s = (s', Inr report)"
  shows "stamp_query_readiness g s' = (s', Inr report)"
proof -
  have "stamp_corpus (put_manifest k v s) g = stamp_corpus s g" for k v
    by (simp add: fun_eq_iff stamp_corpus_def compute_generation_coverage_def)
  then show ?thesis
    using assms unfolding stamp_Inr by (elim conjE) (simp add: put_manifest_again)
qed

lemma mutate_generation_Inr:
  assumes "mutate_generation env sv dir m corpus gen s = (s', Inr out)"
    and "bt_get (db_corpora s) corpus = Some r" "cs_active_generation r = gen"
  shows "\<exists>n sch report. out = IncrementalApplied corpus (ps_get (ap_result_sequence (em_apply m))) n
    \<and> s' = advanced_db m corpus r (Some sch) (CachedReadiness (active_read_signature s') report) s
    \<and> validate_postconditions s' corpus (schema_for_generation gen) m = Inr ()
    \<and> stamp_query_readiness gen s' = (s', Inr report)"
proof -
  let ?schema = "schema_for_generation gen"
  from assms(1) obtain n s1 s2 report where
    fks: "has_cascade_fks s ?schema"
    and files: "apply_incremental_files env sv ?schema dir m s = (s1, Inr n)"
    and post: "validate_postconditions s1 corpus ?schema m = Inr ()"
    and adv: "advance_corpus_cursor corpus (i64_saturating (ps_get (ap_result_sequence (em_apply m))))
        (id_package_id (em_identity m)) (in_artifact_sha256 (em_integrity m)) s1 = (s2, Inr ())"
    and stamp: "stamp_query_readiness gen s2 = (s', Inr report)"
    and out: "out = IncrementalApplied corpus (ps_get (ap_result_sequence (em_apply m))) n"
    by (auto simp: mutate_generation_def Let_def action_simps)
  have s1: "s1 = s\<lparr>db_schemas := (db_schemas s)(?schema := db_schemas s1 ?schema)\<rparr>"
    by (rule outside_update) (rule keepsD [OF keeps_incremental_files files])
  then have corpora: "db_corpora s1 = db_corpora s" by (metis db.ext_inject db.surjective db.update_convs(4))
  have s2: "s2 = put_corpus corpus (advanced_row m r) s1"
    using adv assms(2) by (auto simp: advance_corpus_cursor_def action_simps corpora advanced_row_def put_corpus_def
        split: option.splits)
  have s': "s' = put_manifest query_readiness_key (CachedReadiness (active_read_signature s2) report) s2"
    using stamp by (auto simp: stamp_Inr)
  have "validate_postconditions s' corpus ?schema m = Inr ()"
    using post by (subst validate_postconditions_cong [of _ s1]) (simp_all add: s' s2 put_corpus_def)
  moreover obtain sch where "db_schemas s1 ?schema = Some sch"
    using post by (auto simp: validate_postconditions_def corpus_table_digests_def and_then_eq_Inr map_err_eq_Inr
        split: option.splits)
  ultimately show ?thesis
    using out s1 s2 s' assms(3) stamp_again [OF stamp] unfolding advanced_db_def
    by (metis signature_put_manifest)
qed

lemma incremental_transaction_Inr:
  assumes "incremental_transaction env sv dir m s = (s', Inr out)"
  defines "corpus \<equiv> corpus_as_str (id_corpus (em_identity m))"
    and "q \<equiv> ps_get (ap_result_sequence (em_apply m))"
  shows "\<exists>r. bt_get (db_corpora s) corpus = Some r \<and>
    (u64_or_zero (cs_sequence r) = q
       \<and> cs_last_package_id r = Some (id_package_id (em_identity m))
       \<and> cs_last_package_digest r = Some (in_artifact_sha256 (em_integrity m))
       \<and> out = IncrementalAlreadyApplied corpus q
       \<and> (\<exists>report. stamp_query_readiness (cs_active_generation r) s = (s', Inr report))
     \<or> u64_or_zero (cs_sequence r) < q \<and> check_chain m r = Inr ()
       \<and> mutate_generation env sv dir m corpus (cs_active_generation r) s = (s', Inr out))"
  using assms(1) unfolding incremental_transaction_def Let_def corpus_def [symmetric] q_def [symmetric]
  by (auto simp: action_simps ok_or_eq_Inr not_less order.strict_iff_order split: if_splits)

lemma apply_incremental_Inr:
  "apply_incremental env dir v s = (s', Inr out) \<longleftrightarrow>
     (\<exists>m. read_signed_manifest env dir v = Inr m \<and> incremental_gates env dir m s = Inr ()
        \<and> incremental_transaction env (db_server s) dir m s = (s', Inr out))"
  by (auto simp: apply_incremental_def action_simps)

lemma incremental_transaction_Inl:
  "incremental_transaction env sv dir m s = (s', Inl e) \<Longrightarrow> s' = s"
  by (auto simp: incremental_transaction_def Let_def transaction_eq_Inl)

lemma apply_incremental_Inl: "apply_incremental env dir v s = (s', Inl e) \<Longrightarrow> s' = s"
  by (auto simp: apply_incremental_def action_simps dest: incremental_transaction_Inl)

lemma readiness_after_put:
  assumes "db_corpora s' \<noteq> []" "db_manifest s' query_readiness_key = Some (CachedReadiness (active_read_signature s') report)"
  shows "load_query_readiness_with_client s' = Inr report"
  using assms by (simp add: load_query_readiness_with_client_def Let_def signature_not_public)

lemma restamp_effect:
  assumes "stamp_query_readiness g s = (s', Inr report)"
  shows "s'\<lparr>db_manifest := db_manifest s\<rparr> = s \<and> is_ok (load_query_readiness_with_client s')"
proof -
  from assms have s': "s' = put_manifest query_readiness_key (CachedReadiness (active_read_signature s) report) s"
    and ne: "db_corpora s \<noteq> []" by (auto simp: stamp_Inr)
  have "load_query_readiness_with_client s' = Inr report"
    by (rule readiness_after_put) (simp_all add: s' ne)
  then show ?thesis by (simp add: s' put_manifest_def)
qed

lemma apply_incremental_cases:
  "case apply_incremental env dir v s of (s', result) \<Rightarrow>
     (case result of
        Inl e \<Rightarrow> s' = s
      | Inr (IncrementalAlreadyApplied corpus q) \<Rightarrow>
          s'\<lparr>db_manifest := db_manifest s\<rparr> = s \<and> is_ok (load_query_readiness_with_client s')
          \<and> (\<exists>m r. read_signed_manifest env dir v = Inr m \<and> corpus = corpus_as_str (id_corpus (em_identity m))
             \<and> q = ps_get (ap_result_sequence (em_apply m)) \<and> bt_get (db_corpora s) corpus = Some r
             \<and> u64_or_zero (cs_sequence r) = q \<and> cs_last_package_id r = Some (id_package_id (em_identity m))
             \<and> cs_last_package_digest r = Some (in_artifact_sha256 (em_integrity m)))
      | Inr (IncrementalApplied corpus q n) \<Rightarrow>
          (\<exists>m r sch stamp. read_signed_manifest env dir v = Inr m \<and> incremental_gates env dir m s = Inr ()
             \<and> corpus = corpus_as_str (id_corpus (em_identity m)) \<and> q = ps_get (ap_result_sequence (em_apply m))
             \<and> bt_get (db_corpora s) corpus = Some r \<and> u64_or_zero (cs_sequence r) < q \<and> check_chain m r = Inr ()
             \<and> s' = advanced_db m corpus r (Some sch) stamp s
             \<and> validate_postconditions s' corpus (schema_for_generation (cs_active_generation r)) m = Inr ()
             \<and> is_ok (load_query_readiness_with_client s')))"
proof (cases "apply_incremental env dir v s")
  case (Pair s' result)
  show ?thesis
  proof (cases result)
    case (Inl e)
    then show ?thesis using Pair apply_incremental_Inl [of env dir v s s' e] by simp
  next
    case (Inr out)
    with Pair obtain m where m: "read_signed_manifest env dir v = Inr m" "incremental_gates env dir m s = Inr ()"
      and tx: "incremental_transaction env (db_server s) dir m s = (s', Inr out)"
      by (auto simp: apply_incremental_Inr)
    let ?c = "corpus_as_str (id_corpus (em_identity m))" and ?q = "ps_get (ap_result_sequence (em_apply m))"
    from incremental_transaction_Inr [OF tx] obtain r where r: "bt_get (db_corpora s) ?c = Some r"
      and alt: "u64_or_zero (cs_sequence r) = ?q \<and> cs_last_package_id r = Some (id_package_id (em_identity m))
          \<and> cs_last_package_digest r = Some (in_artifact_sha256 (em_integrity m))
          \<and> out = IncrementalAlreadyApplied ?c ?q
          \<and> (\<exists>report. stamp_query_readiness (cs_active_generation r) s = (s', Inr report))
        \<or> u64_or_zero (cs_sequence r) < ?q \<and> check_chain m r = Inr ()
          \<and> mutate_generation env (db_server s) dir m ?c (cs_active_generation r) s = (s', Inr out)"
      by blast
    from alt show ?thesis
    proof (elim disjE conjE exE)
      fix report
      assume "u64_or_zero (cs_sequence r) = ?q" "out = IncrementalAlreadyApplied ?c ?q"
        "cs_last_package_id r = Some (id_package_id (em_identity m))"
        "cs_last_package_digest r = Some (in_artifact_sha256 (em_integrity m))"
        "stamp_query_readiness (cs_active_generation r) s = (s', Inr report)"
      with Pair Inr r m show ?thesis
        using restamp_effect [of "cs_active_generation r" s s' report] by auto
    next
      assume "u64_or_zero (cs_sequence r) < ?q" "check_chain m r = Inr ()"
        and mut: "mutate_generation env (db_server s) dir m ?c (cs_active_generation r) s = (s', Inr out)"
      moreover from mutate_generation_Inr [OF mut r refl] obtain n sch report where
        "out = IncrementalApplied ?c ?q n"
        and s': "s' = advanced_db m ?c r (Some sch) (CachedReadiness (active_read_signature s') report) s"
        and "validate_postconditions s' ?c (schema_for_generation (cs_active_generation r)) m = Inr ()"
        by blast
      moreover have "db_manifest s' query_readiness_key = Some (CachedReadiness (active_read_signature s') report)"
        by (subst s') (simp add: advanced_db_def)
      moreover have "db_corpora s' = bt_insert ?c (advanced_row m r) (db_corpora s)"
        by (subst s') (simp add: advanced_db_def put_corpus_def)
      then have "db_corpora s' \<noteq> []" by (metis bt_insert_not_Nil)
      ultimately show ?thesis
        using Pair Inr m r readiness_after_put [of s' report] by (auto intro!: exI)
    qed
  qed
qed

text \<open>
  C2.  Applying an incremental either fails and leaves the database exactly as it was, or recognises
  the installed package and only renews the readiness stamp, or advances the corpus: the package was
  authentic and passed every gate, its signed sequence lies above the cursor, every chain and content
  precondition holds, and the new state differs from the old in the rows of the active generation's
  schema, the cursor (sequence and package identity only) and the stamp; the declared counts and digests
  hold of it and readers find it ready.
\<close>

theorem incremental_effect:
  "case apply_incremental env dir v s of (s', result) \<Rightarrow>
     (case result of
        Inl e \<Rightarrow> s' = s
      | Inr (IncrementalAlreadyApplied corpus q) \<Rightarrow>
          s'\<lparr>db_manifest := db_manifest s\<rparr> = s \<and> is_ok (load_query_readiness_with_client s')
          \<and> (\<exists>m r. read_signed_manifest env dir v = Inr m \<and> corpus = corpus_as_str (id_corpus (em_identity m))
             \<and> q = ps_get (ap_result_sequence (em_apply m)) \<and> bt_get (db_corpora s) corpus = Some r
             \<and> u64_or_zero (cs_sequence r) = q \<and> cs_last_package_id r = Some (id_package_id (em_identity m))
             \<and> cs_last_package_digest r = Some (in_artifact_sha256 (em_integrity m)))
      | Inr (IncrementalApplied corpus q n) \<Rightarrow>
          (\<exists>m r sch stamp. read_signed_manifest env dir v = Inr m \<and> incremental_gates env dir m s = Inr ()
             \<and> corpus = corpus_as_str (id_corpus (em_identity m)) \<and> q = ps_get (ap_result_sequence (em_apply m))
             \<and> bt_get (db_corpora s) corpus = Some r \<and> u64_or_zero (cs_sequence r) < q \<and> check_chain m r = Inr ()
             \<and> s' = advanced_db m corpus r (Some sch) stamp s
             \<and> validate_postconditions s' corpus (schema_for_generation (cs_active_generation r)) m = Inr ()
             \<and> is_ok (load_query_readiness_with_client s')))"
  by (rule apply_incremental_cases)

lemma incremental_gates_cong:
  assumes "db_server t = db_server s" "db_anchors t = db_anchors s" "db_tokens t = db_tokens s"
  shows "incremental_gates env dir m t = incremental_gates env dir m s"
  by (simp add: assms incremental_gates_def check_schema_compatibility_def check_extensions_def
      check_entitlement_def build_verifier_def load_trust_anchors_def license_token_blobs_def Let_def)

lemma advanced_db_fields [simp]:
  "db_server (advanced_db m c r sch stamp s) = db_server s"
  "db_anchors (advanced_db m c r sch stamp s) = db_anchors s"
  "db_tokens (advanced_db m c r sch stamp s) = db_tokens s"
  "db_registry (advanced_db m c r sch stamp s) = db_registry s"
  "db_views (advanced_db m c r sch stamp s) = db_views s"
  "db_grants (advanced_db m c r sch stamp s) = db_grants s"
  "db_apply_lock_busy (advanced_db m c r sch stamp s) = db_apply_lock_busy s"
  "db_corpus_locks (advanced_db m c r sch stamp s) = db_corpus_locks s"
  "db_corpora (advanced_db m c r sch stamp s) = bt_insert c (advanced_row m r) (db_corpora s)"
  "db_schemas (advanced_db m c r sch stamp s) =
     (db_schemas s)(schema_for_generation (cs_active_generation r) := sch)"
  by (simp_all add: advanced_db_def put_corpus_def)

text \<open>
  C15.  Re-applying is safe: applying the artifact that has just been applied succeeds, reports the
  installed sequence and changes nothing.
\<close>

theorem incremental_reapply_is_noop:
  assumes first: "apply_incremental env dir v s = (s', Inr (IncrementalApplied corpus q n))"
    and ok: "bt_ok (db_corpora s)" and q: "uint q \<le> i64_max"
  shows "apply_incremental env dir v s' = (s', Inr (IncrementalAlreadyApplied corpus q))"
proof -
  from first obtain m where m: "read_signed_manifest env dir v = Inr m" "incremental_gates env dir m s = Inr ()"
    and tx: "incremental_transaction env (db_server s) dir m s = (s', Inr (IncrementalApplied corpus q n))"
    by (auto simp: apply_incremental_Inr)
  let ?c = "corpus_as_str (id_corpus (em_identity m))"
  obtain r where r: "bt_get (db_corpora s) ?c = Some r"
    and mut: "mutate_generation env (db_server s) dir m ?c (cs_active_generation r) s =
      (s', Inr (IncrementalApplied corpus q n))"
    using incremental_transaction_Inr [OF tx] by auto
  obtain sch report where out: "corpus = ?c" "q = ps_get (ap_result_sequence (em_apply m))"
    and s': "s' = advanced_db m ?c r (Some sch) (CachedReadiness (active_read_signature s') report) s"
    and again: "stamp_query_readiness (cs_active_generation r) s' = (s', Inr report)"
    using mutate_generation_Inr [OF mut r refl] by auto
  have fields: "db_server s' = db_server s" "db_anchors s' = db_anchors s" "db_tokens s' = db_tokens s"
    "db_apply_lock_busy s' = db_apply_lock_busy s"
    "db_corpora s' = bt_insert ?c (advanced_row m r) (db_corpora s)"
    by (subst s', simp)+
  have busy: "\<not> db_apply_lock_busy s"
    using tx by (auto simp: incremental_transaction_def Let_def action_simps)
  have row: "bt_get (db_corpora s') ?c = Some (advanced_row m r)"
    by (simp add: fields bt_get_insert [OF ok])
  have gen: "cs_active_generation (advanced_row m r) = cs_active_generation r"
    by (simp add: advanced_row_def)
  have "incremental_transaction env (db_server s') dir m s' = (s', Inr (IncrementalAlreadyApplied ?c q))"
    using busy row q again unfolding incremental_transaction_def Let_def
    by (simp add: transaction_eq_Inr bind_act_eq_Inr gets_eq check_act_eq_Inr lift_res_eq_Inr fields(4) gen out(2)
        advanced_row_def u64_or_zero_i64_saturating map_err_act_eq_Inr ret_eq)
      (auto intro: exI [of _ False])
  then show ?thesis
    using m incremental_gates_cong [OF fields(1-3), of env dir m] out by (auto simp: apply_incremental_Inr)
qed

section \<open>A package applied\<close>

definition sample_file :: payload_file where
  "sample_file = \<lparr>pf_file_name = ''documents.upsert.jsonl'', pf_table = ''documents'',
     pf_columns = [''document_id'', ''corpus'', ''title''], pf_op = Upsert, pf_format = Jsonl,
     pf_compression = NoCompression, pf_row_count = 1, pf_digest = ''sha256:''\<rparr>"

definition sample_incremental :: embedded_manifest where
  "sample_incremental = sample_package Incremental ''open'' [sample_file]
     [(''documents.upsert.jsonl'', ''sha256:'')] ''sha256:''"

definition sample_document :: json where
  "sample_document = JObject [(''corpus'', JString ''core''), (''document_id'', JString ''d1''), (''title'', JString ''U'')]"

definition sample_env :: "embedded_manifest \<Rightarrow> (string, string) apply_env" where
  "sample_env m = \<lparr>ae_trust = sample_trust_env,
     ae_manifest_codec = \<lparr>cd_to_json = (\<lambda>m. Inr JNull), cd_print = (\<lambda>j. []), cd_backing = bt_insert\<rparr>,
     ae_parse_manifest = (\<lambda>text. Some \<lparr>sd_payload = m, sd_signature = sd_signature sample_token_doc\<rparr>),
     ae_parse_value = (\<lambda>l. if l = ''row'' then Some sample_document else None),
     ae_parse_replace_set = (\<lambda>l. None), ae_print = (\<lambda>j. []), ae_sha256 = (\<lambda>b. []),
     ae_copy_rows = (\<lambda>columns b. None),
     ae_read_file = (\<lambda>path. if path = ''pkg/manifest.json'' then Some ''manifest''
       else if path = ''pkg/payload/documents.upsert.jsonl'' then Some ''row'' else None),
     ae_visibility = None\<rparr>"

lemma sample_incremental_applied:
  "snd (apply_incremental (sample_env sample_incremental) ''pkg'' accept_all_verify_bytes sample_db) =
     Inr (IncrementalApplied ''core'' 8 1)"
  by code_simp

lemma incremental_reapply_is_noop_witness:
  "snd (apply_incremental (sample_env sample_incremental) ''pkg'' accept_all_verify_bytes
     (fst (apply_incremental (sample_env sample_incremental) ''pkg'' accept_all_verify_bytes sample_db)))
   = Inr (IncrementalAlreadyApplied ''core'' 8)"
proof -
  let ?run = "apply_incremental (sample_env sample_incremental) ''pkg'' accept_all_verify_bytes"
  have "?run sample_db = (fst (?run sample_db), Inr (IncrementalApplied ''core'' 8 1))"
    using sample_incremental_applied by (metis prod.collapse)
  from incremental_reapply_is_noop [OF this] show ?thesis
    by (simp add: i64_max_def bt_ok_Cons)
qed

section \<open>What a reader sees during a media apply\<close>

definition unseen :: "db \<Rightarrow> db \<Rightarrow> bool" where
  "unseen s t \<longleftrightarrow> db_corpora t = db_corpora s \<and> db_manifest t = db_manifest s \<and> db_views t = db_views s
     \<and> db_server t = db_server s \<and> db_corpus_locks t = db_corpus_locks s
     \<and> list_all (\<lambda>p. db_schemas t (schema_for_generation (cs_active_generation (snd p)))
          = db_schemas s (schema_for_generation (cs_active_generation (snd p)))) (db_corpora s)"

lemma unseen_refl [simp]: "unseen s s"
  by (simp add: unseen_def list_all_iff)

lemma unseen_trans: "unseen s t \<Longrightarrow> unseen t u \<Longrightarrow> unseen s u"
  by (auto simp: unseen_def list_all_iff)

definition inactive :: "db \<Rightarrow> string \<Rightarrow> bool" where
  "inactive s g \<longleftrightarrow> list_all (\<lambda>p. cs_active_generation (snd p) \<noteq> g) (db_corpora s)"

lemma inactive_unseen: "unseen s t \<Longrightarrow> inactive t g = inactive s g"
  by (simp add: unseen_def inactive_def)

text \<open>Readers cannot tell two such states apart, on the direct path or through the views.\<close>

lemma unseen_reads:
  assumes top: "topology_ok s" and un: "unseen s t"
  shows "view_rows t x = view_rows s x"
proof -
  have v: "db_views t = Some (map snd (active_generation_schemas s))" "db_views s = Some (map snd (active_generation_schemas s))"
    using top un by (simp_all add: topology_ok_def views_ok_def unseen_def)
  have "map (\<lambda>schema. schema_rows t schema x) (map snd (active_generation_schemas s))
      = map (\<lambda>schema. schema_rows s schema x) (map snd (active_generation_schemas s))"
    using un by (auto simp: unseen_def list_all_iff active_generation_schemas_def schema_rows_def)
  then show ?thesis by (simp only: view_rows_def v option.case)
qed

lemma topology_same_control:
  assumes "topology_ok s" "db_corpora t = db_corpora s" "db_registry t = db_registry s" "db_views t = db_views s"
    and "\<And>x. db_schemas s x \<noteq> None \<Longrightarrow> db_schemas t x \<noteq> None"
  shows "topology_ok t"
  using assms by (simp add: topology_ok_def registry_ok_def active_ok_def views_ok_def active_generation_schemas_def)

definition touches :: "string \<Rightarrow> db \<Rightarrow> db \<Rightarrow> bool" where
  "touches schema s t \<longleftrightarrow> outside schema t = outside schema s \<and> (db_schemas s schema \<noteq> None \<longrightarrow> db_schemas t schema \<noteq> None)"

lemma reflp_touches [simp, keeps_intros]: "reflp (touches schema)"
  by (simp add: reflp_def touches_def)

lemma transp_touches [simp, keeps_intros]: "transp (touches schema)"
  by (simp add: transp_def touches_def)

lemma keeps_touches_on_schema [keeps_intros]: "keeps (touches schema) (on_schema schema f)"
  unfolding on_schema_def
  by (rule keeps_statement) (auto simp: touches_def outside_def and_then_eq_Inr split: option.splits)

lemma touches_inactive:
  assumes "topology_ok s" "inactive s g" "touches (schema_for_generation g) s t"
  shows "topology_ok t" "unseen s t"
proof -
  have t: "t = s\<lparr>db_schemas := (db_schemas s)(schema_for_generation g := db_schemas t (schema_for_generation g))\<rparr>"
    using assms(3) by (intro outside_update) (simp add: touches_def same_def)
  have f: "db_corpora t = db_corpora s" "db_registry t = db_registry s" "db_views t = db_views s"
    "db_manifest t = db_manifest s" "db_server t = db_server s" "db_corpus_locks t = db_corpus_locks s"
    by (subst t, simp)+
  have sch: "db_schemas t x = db_schemas s x" if "x \<noteq> schema_for_generation g" for x
    using that by (subst t) simp
  show "topology_ok t"
    using assms(3) sch by (intro topology_same_control [OF assms(1) f(1-3)]) (metis touches_def)
  show "unseen s t"
    using assms(2) sch by (auto simp: unseen_def f inactive_def list_all_iff)
qed

lemma keeps_copy_payload: "keeps (touches schema) (copy_payload_in env dir m schema)"
  unfolding copy_payload_in_def copy_file_def by (intro keeps_intros)

lemma keeps_build_indexes:
  "keeps (touches (schema_for_generation generation)) (build_generation_indexes generation corpus)"
  unfolding build_generation_indexes_def add_constraints_def replay_indexes_def add_foreign_keys_def
    build_ivfflat_def Let_def case_prod_unfold
  by (intro keeps_intros)

text \<open>A label that parses under a corpus belongs to no other corpus.\<close>

lemma parsed_label_corpus:
  assumes "generation_counter_of corpus g = Some n" "g = generation_name c k"
  shows "c = corpus"
proof -
  obtain d where d: "g = corpus @ CHR ''_'' # CHR ''g'' # d" "parse_u32 d = Some n"
    using assms(1) by (auto simp: generation_counter_of_def strip_prefix_eq split: option.splits)
  from d(2) obtain ds where ds: "list_all is_digit ds" "d = ds \<or> d = CHR ''+'' # ds"
    by (cases d) (auto simp: parse_u32_def parse_unsigned_def Let_def split: if_splits)
  have "CHR ''_'' \<notin> set d"
    using ds digits_notin [OF ds(1), of "CHR ''_''"] by (auto simp: is_digit_def)
  then have "CHR ''_'' \<notin> set (CHR ''g'' # d)" by simp
  moreover have "CHR ''_'' \<notin> set (CHR ''g'' # pad_zero 4 (show_nat (unat k)))"
    using underscore_notin_pad by simp
  moreover have "corpus @ CHR ''_'' # CHR ''g'' # d = c @ CHR ''_'' # CHR ''g'' # pad_zero 4 (show_nat (unat k))"
    using d(1) assms(2) by (simp add: generation_name_def)
  ultimately show ?thesis by (metis append_last_sep_inject)
qed

lemma active_row_registered:
  assumes "topology_ok s" "(c, r) \<in> set (db_corpora s)"
  shows "\<exists>x\<in>set (db_registry s). gr_corpus x = c \<and> gr_generation x = cs_active_generation r \<and> gr_state x = Active"
proof -
  have "bt_get (db_corpora s) c = Some r" using assms by (simp add: topology_ok_def bt_get_set)
  then show ?thesis using assms(1) unfolding topology_ok_def active_ok_def by metis
qed

lemma active_schemas_set:
  "set (map snd (active_generation_schemas s)) =
     (\<lambda>p. schema_for_generation (cs_active_generation (snd p))) ` set (db_corpora s)"
  by (simp add: active_generation_schemas_def image_image case_prod_beta)

lemma label_inactive:
  assumes top: "topology_ok s" and label: "generation_counter_of corpus g = Some n"
    and free: "\<forall>x\<in>set (db_registry s). gr_corpus x = corpus \<and> gr_generation x = g \<longrightarrow> gr_state x \<noteq> Active"
  shows "inactive s g"
  unfolding inactive_def list_all_iff
proof (intro ballI notI)
  fix p assume p: "p \<in> set (db_corpora s)" and act: "cs_active_generation (snd p) = g"
  then obtain x where x: "x \<in> set (db_registry s)" "gr_corpus x = fst p" "gr_generation x = g" "gr_state x = Active"
    using active_row_registered [OF top, of "fst p" "snd p"] by auto
  moreover from x top obtain k where "g = generation_name (fst p) k"
    by (auto simp: topology_ok_def registry_ok_def)
  then have "fst p = corpus" using parsed_label_corpus [OF label] by simp
  ultimately show False using free by simp
qed

lemma remove_inactive_unseen:
  assumes top: "topology_ok s" and g: "g \<in> set (db_registry s)" "gr_state g \<noteq> Active"
  shows "unseen s (remove_generation g s)"
proof -
  have views: "db_views s = Some (map snd (active_generation_schemas s))"
    using top by (simp add: topology_ok_def views_ok_def)
  have out: "gr_physical_schema g \<notin> set (map snd (active_generation_schemas s))"
    using views_are_active [OF top views g(1)] g(2) by blast
  have not: "schema_for_generation (cs_active_generation (snd p)) \<noteq> gr_physical_schema g"
    if "p \<in> set (db_corpora s)" for p
  proof
    assume "schema_for_generation (cs_active_generation (snd p)) = gr_physical_schema g"
    then have "gr_physical_schema g \<in> set (map snd (active_generation_schemas s))"
      using that unfolding active_schemas_set by (metis image_eqI)
    with out show False by contradiction
  qed
  have "case db_views s of None \<Rightarrow> True | Some vs \<Rightarrow> gr_physical_schema g \<notin> set vs"
    using out by (simp add: views)
  with view_rows_drop have "db_views (drop_schema (gr_physical_schema g) s) = db_views s" by blast
  then show ?thesis
    using not by (simp add: unseen_def remove_generation_def list_all_iff)
qed

lemma reset_unseen:
  assumes top: "topology_ok s" and label: "generation_counter_of corpus g = Some n"
    and reset: "reset_building_generation corpus g s = (s', Inr u)"
  shows "topology_ok s'" "unseen s s'" "inactive s' g"
proof -
  have "topology_ok s' \<and> unseen s s' \<and> inactive s' g"
  proof (cases "find_generation s corpus g")
    case None
    with reset have "s' = s" by (simp add: reset_building_Inr)
    moreover have "inactive s g"
      by (rule label_inactive [OF top label]) (use find_generation_None [OF None] in blast)
    ultimately show ?thesis using top by simp
  next
    case (Some x)
    from find_generation_Some [OF Some] have x: "x \<in> set (db_registry s)" "gr_corpus x = corpus" "gr_generation x = g" by auto
    from Some reset have b: "gr_state x = Building" "s' = remove_generation x s"
      by (simp_all add: reset_building_Inr remove_generation_def x)
    have un: "unseen s s'" using remove_inactive_unseen [OF top x(1)] b by simp
    have "inactive s g"
    proof (rule label_inactive [OF top label], intro ballI impI)
      fix y assume "y \<in> set (db_registry s)" "gr_corpus y = corpus \<and> gr_generation y = g"
      then have "y = x" using registry_unique [of s y x] top x by (simp add: topology_ok_def)
      with b(1) show "gr_state y \<noteq> Active" by simp
    qed
    with un show ?thesis using inactive_unseen [OF un] remove_inactive(1) [OF top x(1)] b by simp
  qed
  then show "topology_ok s'" "unseen s s'" "inactive s' g" by simp_all
qed

definition building_row :: "string \<Rightarrow> u32 \<Rightarrow> string option \<Rightarrow> generation_row" where
  "building_row corpus n src = \<lparr>gr_corpus = corpus, gr_generation = generation_name corpus n,
     gr_physical_schema = generation_schema corpus n, gr_state = Building, gr_source_baseline_id = src,
     gr_source_package_id = None, gr_validation_digest = None\<rparr>"

lemma register_effect:
  assumes top: "topology_ok s" and reg: "register_generation corpus n src s = (s', Inr u)"
  shows "topology_ok s'" "unseen s s'" "inactive s (generation_name corpus n)" "db_schemas s' = db_schemas s"
proof -
  let ?g = "generation_name corpus n"
  have s': "s' = s\<lparr>db_registry := db_registry s @ [building_row corpus n src]\<rparr>"
    and new: "\<forall>x\<in>set (db_registry s). \<not> (gr_corpus x = corpus \<and> gr_generation x = ?g)"
    using reg by (auto simp: register_generation_def statement_eq_Inr Let_def building_row_def list_ex_iff split: if_splits)
  show "inactive s ?g"
    by (rule label_inactive [OF top generation_counter_of_name]) (use new in blast)
  show "unseen s s'" "db_schemas s' = db_schemas s" by (simp_all add: s' unseen_def list_all_iff)
  have "registry_ok s'"
    using top new by (auto simp: s' topology_ok_def registry_ok_def building_row_def generation_schema_def
        schema_for_generation_def)
  moreover have "active_ok s'"
    unfolding active_ok_def
  proof (intro conjI allI impI ballI)
    fix x assume "x \<in> set (db_registry s')"
    then consider "x \<in> set (db_registry s)" | "x = building_row corpus n src" by (auto simp: s')
    then show "gr_state x = Active \<longleftrightarrow>
        (\<exists>r. bt_get (db_corpora s') (gr_corpus x) = Some r \<and> cs_active_generation r = gr_generation x)"
    proof cases
      case 1
      with top show ?thesis by (simp add: s' topology_ok_def active_ok_def)
    next
      case 2
      have "cs_active_generation r \<noteq> ?g" if "bt_get (db_corpora s) corpus = Some r" for r
        using top that new unfolding topology_ok_def active_ok_def by metis
      with 2 show ?thesis by (simp add: s' building_row_def)
    qed
  next
    fix c r assume "bt_get (db_corpora s') c = Some r"
    then have "bt_get (db_corpora s) c = Some r" by (simp add: s')
    with top show "\<exists>g\<in>set (db_registry s'). gr_corpus g = c \<and> gr_generation g = cs_active_generation r"
      "db_schemas s' (schema_for_generation (cs_active_generation r)) \<noteq> None"
      by (auto simp: s' topology_ok_def active_ok_def)
  qed
  ultimately show "topology_ok s'"
    using top by (simp add: s' topology_ok_def views_ok_def active_generation_schemas_def)
qed

lemma active_schema_exists:
  assumes "topology_ok s" "p \<in> set (db_corpora s)"
  shows "db_schemas s (schema_for_generation (cs_active_generation (snd p))) \<noteq> None"
proof -
  have "bt_get (db_corpora s) (fst p) = Some (snd p)" using assms by (simp add: topology_ok_def bt_get_set)
  then show ?thesis using assms(1) by (auto simp: topology_ok_def active_ok_def)
qed

lemma create_schema_effect:
  assumes top: "topology_ok s" and new: "create_schema schema sch s = (s', Inr u)"
  shows "topology_ok s'" "unseen s s'"
proof -
  have s': "s' = s\<lparr>db_schemas := (db_schemas s)(schema \<mapsto> sch)\<rparr>" "db_schemas s schema = None"
    using new by (auto simp: create_schema_def statement_eq_Inr split: if_splits)
  show "topology_ok s'" by (rule topology_same_control [OF top]) (simp_all add: s')
  show "unseen s s'"
    unfolding unseen_def s'(1) list_all_iff by (simp, use s'(2) active_schema_exists [OF top] in fastforce)
qed

text \<open>The states on the way of a media apply that started in \<open>s0\<close>.\<close>

definition under_way :: "db \<Rightarrow> string list \<Rightarrow> db \<Rightarrow> bool" where
  "under_way s0 gs s \<longleftrightarrow> topology_ok s \<and> unseen s0 s \<and> list_all (inactive s) gs"

lemma under_way_step:
  "under_way s0 gs s \<Longrightarrow> topology_ok t \<Longrightarrow> unseen s t \<Longrightarrow> under_way s0 gs t"
  by (auto simp: under_way_def list_all_iff inactive_unseen intro: unseen_trans)

lemma under_way_touches:
  "under_way s0 gs s \<Longrightarrow> g \<in> set gs \<Longrightarrow> touches (schema_for_generation g) s t \<Longrightarrow> under_way s0 gs t"
  by (rule under_way_step [of s0 gs s]) (simp_all add: under_way_def list_all_iff touches_inactive [of s g t])

lemma reset_stage:
  assumes "generation_counter_of corpus g = Some n"
  shows "triple (under_way s0 []) (reset_building_generation corpus g) (\<lambda>_. under_way s0 [g]) (under_way s0 [])"
proof (rule tripleI)
  fix s s' and u :: unit
  assume "under_way s0 [] s" "reset_building_generation corpus g s = (s', Inr u)"
  then show "under_way s0 [g] s'"
    using reset_unseen [OF _ assms, of s s' u] by (auto simp: under_way_def intro: unseen_trans)
qed (auto dest: clean_up_error)

lemma create_stage:
  "triple (under_way s0 [g]) (create_generation_load_tables corpus n src)
     (\<lambda>_. under_way s0 [g, generation_name corpus n]) (under_way s0 [])"
proof -
  have "triple (under_way s0 [g]) (register_generation corpus n src)
      (\<lambda>_. under_way s0 [g, generation_name corpus n]) (under_way s0 [])"
  proof (rule tripleI)
    fix s s' and u :: unit
    assume "under_way s0 [g] s" "register_generation corpus n src s = (s', Inr u)"
    then show "under_way s0 [g, generation_name corpus n] s'"
      using register_effect [of s corpus n src s' u]
      by (auto simp: under_way_def inactive_unseen intro: unseen_trans)
  qed (auto simp: register_generation_def statement_eq_Inl under_way_def)
  moreover have "triple (under_way s0 gs) (create_schema schema sch) (\<lambda>_. under_way s0 gs) (under_way s0 [])" for gs schema sch
  proof (rule tripleI)
    fix s s' and u :: unit
    assume "under_way s0 gs s" "create_schema schema sch s = (s', Inr u)"
    then show "under_way s0 gs s'"
      using create_schema_effect [of s schema sch s' u] under_way_step [of s0 gs s s'] by (simp add: under_way_def)
  qed (auto simp: create_schema_def statement_eq_Inl under_way_def)
  moreover have "triple (under_way s0 gs) (ret x) (\<lambda>_. under_way s0 gs) E" for gs E and x :: string
    by (rule tripleI) (auto simp: ret_eq)
  ultimately show ?thesis
    unfolding create_generation_load_tables_def by (intro triple_bind)
qed

section \<open>The media path\<close>

text \<open>Everything before the switch.\<close>

definition prepare_media ::
  "('k, 's) apply_env \<Rightarrow> string \<Rightarrow> embedded_manifest \<Rightarrow> u32 \<Rightarrow> (generation_index_report, sync_error) dbact" where
  "prepare_media env dir m counter =
     (let corpus = corpus_as_str (id_corpus (em_identity m)); generation = id_generation (em_identity m);
          schema = generation_schema corpus counter in
      bind_act (map_err_act Storage (reset_building_generation corpus generation)) (\<lambda>_.
      bind_act (map_err_act Storage
        (create_generation_load_tables corpus counter (Some (id_baseline_id (em_identity m))))) (\<lambda>_.
      bind_act (copy_payload_in env dir m schema) (\<lambda>_.
      bind_act (map_err_act Storage (build_generation_indexes generation corpus)) (\<lambda>index_report.
      bind_act (\<lambda>s. (s, validate_index_contract s schema m)) (\<lambda>_.
      bind_act (\<lambda>s. (s, validate_postconditions s corpus schema m)) (\<lambda>_. ret index_report)))))))"

lemma bind_act_assoc: "bind_act (bind_act m f) g = bind_act m (\<lambda>a. bind_act (f a) g)"
  by (simp add: bind_act_def fun_eq_iff split: prod.splits sum.splits)

lemma bind_ret: "bind_act (ret a) f = f a"
  by (simp add: bind_act_def ret_def fun_eq_iff)

lemma load_and_activate_prepare:
  "load_and_activate env dir m mode =
     (let corpus = corpus_as_str (id_corpus (em_identity m)); generation = id_generation (em_identity m) in
      bind_act (lift_res (ok_or (generation_counter_of corpus generation) (Reject DigestMismatch))) (\<lambda>counter.
      bind_act (prepare_media env dir m counter) (\<lambda>report.
      bind_act (map_err_act Storage (activate_generation_inner corpus generation (media_stamps m)
        (media_guard mode (ps_get (ap_result_sequence (em_apply m))))
        (dense_manifest_entries (generation_schema corpus counter) m) (ae_visibility env))) (\<lambda>_.
      ret (MediaApplied corpus generation (ps_get (ap_result_sequence (em_apply m))) report)))))"
  by (simp add: load_and_activate_def prepare_media_def Let_def bind_act_assoc bind_ret)

lemma prepare_stage:
  assumes "generation_counter_of (corpus_as_str (id_corpus (em_identity m))) (id_generation (em_identity m)) = Some n"
  shows "triple (under_way s0 []) (prepare_media env dir m n)
    (\<lambda>_ s. under_way s0 [] s \<and> validate_postconditions s (corpus_as_str (id_corpus (em_identity m)))
        (generation_schema (corpus_as_str (id_corpus (em_identity m))) n) m = Inr ()) (under_way s0 [])"
proof -
  let ?c = "corpus_as_str (id_corpus (em_identity m))" and ?g = "id_generation (em_identity m)"
  let ?gs = "[?g, generation_name ?c n]" and ?schema = "generation_schema ?c n"
  have schema: "?schema = schema_for_generation (generation_name ?c n)"
    by (simp add: generation_schema_def schema_for_generation_def)
  have weak: "under_way s0 ?gs s \<Longrightarrow> under_way s0 [] s" for s by (simp add: under_way_def)
  have step: "under_way s0 ?gs s \<Longrightarrow> g \<in> set ?gs \<Longrightarrow> touches (schema_for_generation g) s t \<Longrightarrow> under_way s0 ?gs t"
    for s t g by (rule under_way_touches)
  have copy: "triple (under_way s0 ?gs) (copy_payload_in env dir m ?schema) (\<lambda>_. under_way s0 ?gs) (under_way s0 [])"
    unfolding schema by (rule triple_keeps [OF keeps_copy_payload]) (auto intro: step weak)
  have build: "triple (under_way s0 ?gs) (build_generation_indexes ?g ?c) (\<lambda>_. under_way s0 ?gs) (under_way s0 [])"
    by (rule triple_keeps [OF keeps_build_indexes]) (auto intro: step weak)
  have validate: "triple (under_way s0 ?gs)
      (bind_act (\<lambda>s. (s, validate_index_contract s ?schema m)) (\<lambda>_.
       bind_act (\<lambda>s. (s, validate_postconditions s ?c ?schema m)) (\<lambda>_. ret r)))
      (\<lambda>_ s. under_way s0 [] s \<and> validate_postconditions s ?c ?schema m = Inr ()) (under_way s0 [])"
    for r :: generation_index_report
    by (rule tripleI) (auto simp: action_simps dest: weak)
  show ?thesis
    unfolding prepare_media_def Let_def
    by (rule triple_bind, rule triple_map_err, rule reset_stage [OF assms],
        rule triple_bind, rule triple_map_err, rule create_stage, rule triple_bind, rule copy,
        rule triple_bind, rule triple_map_err, rule build, rule validate)
qed

lemma under_way_refl [simp]: "under_way s [] s \<longleftrightarrow> topology_ok s"
  by (simp add: under_way_def)

lemma load_and_activate_Inl:
  assumes "topology_ok s" "load_and_activate env dir m mode s = (s', Inl e)"
  shows "under_way s [] s'"
proof -
  let ?c = "corpus_as_str (id_corpus (em_identity m))"
  from assms(2) show ?thesis
    unfolding load_and_activate_prepare Let_def bind_act_eq_Inl lift_res_eq_Inl lift_res_eq_Inr
  proof (elim disjE exE conjE)
    fix n s1 assume n: "s1 = s" "ok_or (generation_counter_of ?c (id_generation (em_identity m))) (Reject DigestMismatch) = Inr n"
      and "prepare_media env dir m n s1 = (s', Inl e)"
    then show ?thesis
      using triple_Inl [OF prepare_stage [of m n s env dir], of s] assms(1) by (simp add: ok_or_eq_Inr)
  next
    fix n s1 r s2 assume n: "s1 = s" "ok_or (generation_counter_of ?c (id_generation (em_identity m))) (Reject DigestMismatch) = Inr n"
      and p: "prepare_media env dir m n s1 = (s2, Inr r)"
      and a: "map_err_act Storage (activate_generation_inner ?c (id_generation (em_identity m)) (media_stamps m)
        (media_guard mode (ps_get (ap_result_sequence (em_apply m))))
        (dense_manifest_entries (generation_schema ?c n) m) (ae_visibility env)) s2 = (s', Inl e)"
    have "s' = s2" using a activate_error by (auto simp: map_err_act_eq_Inl)
    then show ?thesis
      using triple_Inr [OF prepare_stage [of m n s env dir], of s] n p assms(1) by (simp add: ok_or_eq_Inr)
  qed (use assms(1) in \<open>auto simp: ret_eq\<close>)
qed

lemma load_and_activate_Inr:
  assumes top: "topology_ok s" and run: "load_and_activate env dir m mode s = (s', Inr out)"
  defines "corpus \<equiv> corpus_as_str (id_corpus (em_identity m))" and "generation \<equiv> id_generation (em_identity m)"
    and "q \<equiv> ps_get (ap_result_sequence (em_apply m))"
  shows "\<exists>report. out = MediaApplied corpus generation q report
    \<and> inactive s generation \<and> topology_ok s' \<and> db_corpus_locks s' = db_corpus_locks s
    \<and> guard_ok (media_guard mode q) (map_option cs_sequence (bt_get (db_corpora s) corpus))
    \<and> bt_get (db_corpora s') = (bt_get (db_corpora s))(corpus \<mapsto> stamped_row generation (media_stamps m))
    \<and> validate_postconditions s' corpus (schema_for_generation generation) m = Inr ()
    \<and> is_ok (load_query_readiness_with_client s')"
proof -
  from run obtain n s1 report where n: "generation_counter_of corpus generation = Some n"
    and p: "prepare_media env dir m n s = (s1, Inr report)"
    and a: "activate_generation_inner corpus generation (media_stamps m) (media_guard mode q)
        (dense_manifest_entries (generation_schema corpus n) m) (ae_visibility env) s1 = (s', Inr ())"
    and out: "out = MediaApplied corpus generation q report"
    unfolding load_and_activate_prepare Let_def corpus_def generation_def q_def
    by (auto simp: action_simps ok_or_eq_Inr)
  have stage: "under_way s [] s1" "validate_postconditions s1 corpus (generation_schema corpus n) m = Inr ()"
    using triple_Inr [OF prepare_stage [of m n s env dir], of s] n p top by (auto simp: corpus_def generation_def)
  then have s1: "topology_ok s1" "db_corpora s1 = db_corpora s" "db_corpus_locks s1 = db_corpus_locks s"
    by (simp_all add: under_way_def unseen_def)
  from p obtain t u where "reset_building_generation corpus generation s = (t, Inr u)"
    unfolding prepare_media_def Let_def corpus_def generation_def by (auto simp: action_simps)
  from reset_unseen [OF top n this] have fresh: "inactive s generation" using inactive_unseen by blast
  note eff = activate_Inr [OF a]
  have row: "bt_get (db_corpora s') = (bt_get (db_corpora s1))(corpus \<mapsto> stamped_row generation (media_stamps m))"
    using s1(1) eff(4) by (simp add: topology_ok_def bt_get_insert)
  obtain g where "find_generation s1 corpus generation = Some g" using eff(2) by blast
  with s1(1) obtain k where "generation = generation_name corpus k"
    using find_generation_Some [of s1 corpus generation g] by (auto simp: topology_ok_def registry_ok_def)
  with n have "generation_schema corpus n = schema_for_generation generation"
    by (simp add: generation_counter_of_name generation_schema_def schema_for_generation_def)
  then have "validate_postconditions s' corpus (schema_for_generation generation) m = Inr ()"
    using stage(2) validate_postconditions_cong [OF eff(9) eff(6)] by simp
  then show ?thesis using out row fresh eff(3,10,11) topology_activate [OF s1(1) a] s1 by (auto simp: is_ok_iff)
qed

definition with_locks :: "string list \<Rightarrow> db \<Rightarrow> db" where
  "with_locks locks s = s\<lparr>db_corpus_locks := locks\<rparr>"

lemma with_locks_fields [simp]:
  "db_corpora (with_locks l s) = db_corpora s" "db_schemas (with_locks l s) = db_schemas s"
  "db_registry (with_locks l s) = db_registry s" "db_views (with_locks l s) = db_views s"
  "db_manifest (with_locks l s) = db_manifest s" "db_server (with_locks l s) = db_server s"
  "db_corpus_locks (with_locks l s) = l" "with_locks l (with_locks l' s) = with_locks l s"
  "with_locks (db_corpus_locks s) s = s"
  by (simp_all add: with_locks_def)

lemma inactive_with_locks [simp]: "inactive (with_locks l s) g = inactive s g"
  by (simp add: inactive_def)

lemma topology_with_locks [simp]: "topology_ok (with_locks l s) = topology_ok s"
  by (simp add: topology_ok_def registry_ok_def active_ok_def views_ok_def active_generation_schemas_def)

lemma readiness_with_locks [simp]:
  "load_query_readiness_with_client (with_locks l s) = load_query_readiness_with_client s"
  by (simp add: load_query_readiness_with_client_def active_read_signature_def)

lemma unseen_with_locks:
  "unseen (with_locks (c # db_corpus_locks s) s) t \<Longrightarrow> unseen s (with_locks (remove1 c (db_corpus_locks t)) t)"
  by (simp add: unseen_def)

lemma apply_media_locked_Inl:
  assumes "topology_ok s" "apply_media_locked env dir m mode s = (s', Inl e)"
  shows "topology_ok s'" "unseen s s'"
  using assms load_and_activate_Inl [OF assms(1), of env dir m mode s' e]
  by (auto simp: apply_media_locked_def Let_def bind_act_eq_Inl action_simps restamp_active_readiness_def
      under_way_def split: option.splits)

lemma apply_media_locked_Inr:
  assumes "topology_ok s" "apply_media_locked env dir m mode s = (s', Inr out)"
  defines "corpus \<equiv> corpus_as_str (id_corpus (em_identity m))" and "generation \<equiv> id_generation (em_identity m)"
    and "q \<equiv> ps_get (ap_result_sequence (em_apply m))"
  shows "(\<exists>r. out = MediaAlreadyApplied corpus q \<and> bt_get (db_corpora s) corpus = Some r
        \<and> u64_or_zero (cs_sequence r) = q \<and> s'\<lparr>db_manifest := db_manifest s\<rparr> = s
        \<and> is_ok (load_query_readiness_with_client s'))
    \<or> load_and_activate env dir m mode s = (s', Inr out)"
proof -
  from assms(2) obtain d where d: "idempotency_decision s corpus q (id_package_id (em_identity m))
      (in_artifact_sha256 (em_integrity m)) (behind_is_applicable mode) = Inr d"
    and run: "(case d of Some outcome \<Rightarrow> bind_act (restamp_active_readiness corpus) (\<lambda>_. ret outcome)
      | None \<Rightarrow> load_and_activate env dir m mode) s = (s', Inr out)"
    unfolding apply_media_locked_def Let_def corpus_def [symmetric] q_def [symmetric] by (auto simp: bind_act_eq_Inr)
  show ?thesis
  proof (cases d)
    case None
    with run show ?thesis by simp
  next
    case (Some outcome)
    with d obtain r where r: "bt_get (db_corpora s) corpus = Some r" "u64_or_zero (cs_sequence r) = q"
      "outcome = MediaAlreadyApplied corpus q"
      by (auto simp: idempotency_decision_def Let_def split: option.splits if_splits)
    from run Some obtain report where "stamp_query_readiness (cs_active_generation r) s = (s', Inr report)" "out = outcome"
      by (auto simp: restamp_active_readiness_def action_simps r ok_or_eq_Inr)
    with r restamp_effect show ?thesis by metis
  qed
qed

lemma apply_media_cases:
  assumes top: "topology_ok s" and run: "apply_media_package env dir v mode s = (s', result)"
  shows "topology_ok s' \<and> db_corpus_locks s' = db_corpus_locks s \<and>
    (case result of
       Inl e \<Rightarrow> unseen s s'
     | Inr (MediaAlreadyApplied corpus q) \<Rightarrow>
         s'\<lparr>db_manifest := db_manifest s\<rparr> = s \<and> is_ok (load_query_readiness_with_client s')
         \<and> (\<exists>m r. read_signed_manifest env dir v = Inr m \<and> corpus = corpus_as_str (id_corpus (em_identity m))
              \<and> q = ps_get (ap_result_sequence (em_apply m)) \<and> bt_get (db_corpora s) corpus = Some r
              \<and> u64_or_zero (cs_sequence r) = q)
     | Inr (MediaApplied corpus generation q report) \<Rightarrow>
         (\<exists>m. read_signed_manifest env dir v = Inr m \<and> media_gates env dir mode m s = Inr ()
            \<and> corpus = corpus_as_str (id_corpus (em_identity m)) \<and> generation = id_generation (em_identity m)
            \<and> inactive s generation \<and> q = ps_get (ap_result_sequence (em_apply m))
            \<and> guard_ok (media_guard mode q) (map_option cs_sequence (bt_get (db_corpora s) corpus))
            \<and> bt_get (db_corpora s') = (bt_get (db_corpora s))(corpus \<mapsto> stamped_row generation (media_stamps m))
            \<and> validate_postconditions s' corpus (schema_for_generation generation) m = Inr ()
            \<and> is_ok (load_query_readiness_with_client s')))"
proof (cases "read_signed_manifest env dir v")
  case (Inl e)
  with run top show ?thesis by (auto simp: apply_media_package_def bind_act_def lift_res_def)
next
  case m: (Inr m)
  show ?thesis
  proof (cases "media_gates env dir mode m s")
    case (Inl e)
    with m run top show ?thesis by (auto simp: apply_media_package_def bind_act_def lift_res_def Let_def)
  next
    case g: (Inr u)
    let ?c = "corpus_as_str (id_corpus (em_identity m))"
    let ?s = "with_locks (?c # db_corpus_locks s) s"
    obtain t where t: "apply_media_locked env dir m mode ?s = (t, result)"
      and s': "s' = with_locks (remove1 ?c (db_corpus_locks t)) t"
      using run m g by (auto simp: apply_media_package_def bind_act_def lift_res_def Let_def map_err_act_def
          acquire_corpus_apply_lock_def modify_def release_corpus_apply_lock_def with_locks_def split: prod.splits)
    have top': "topology_ok ?s" using top by simp
    show ?thesis
    proof (cases result)
      case (Inl e)
      from apply_media_locked_Inl [OF top' t [unfolded Inl]] have "topology_ok t" "unseen ?s t" by simp_all
      then show ?thesis using unseen_with_locks [of ?c s t] by (simp add: Inl s' unseen_def)
    next
      case (Inr out)
      from apply_media_locked_Inr [OF top' t [unfolded Inr]] show ?thesis
      proof (elim disjE exE conjE)
        fix r assume row: "bt_get (db_corpora ?s) ?c = Some r"
            "u64_or_zero (cs_sequence r) = ps_get (ap_result_sequence (em_apply m))"
          and o: "out = MediaAlreadyApplied ?c (ps_get (ap_result_sequence (em_apply m)))"
          and same: "t\<lparr>db_manifest := db_manifest ?s\<rparr> = ?s" and ready: "is_ok (load_query_readiness_with_client t)"
        have t': "t = ?s\<lparr>db_manifest := db_manifest t\<rparr>" using same by (metis db.surjective db.update_convs(6))
        then have locks: "db_corpus_locks t = ?c # db_corpus_locks s" by (metis db.ext_inject db.surjective db.update_convs(6) with_locks_fields(7))
        then have s1: "s' = with_locks (db_corpus_locks s) t" by (simp add: s')
        have s2: "s' = s\<lparr>db_manifest := db_manifest t\<rparr>"
          unfolding s1 by (subst t') (simp add: with_locks_def)
        have "topology_ok s'" by (rule topology_same_control [OF top]) (simp_all add: s2)
        moreover have "s'\<lparr>db_manifest := db_manifest s\<rparr> = s" by (simp add: s2)
        moreover have "is_ok (load_query_readiness_with_client s')" using ready by (simp add: s1)
        moreover have "db_corpus_locks s' = db_corpus_locks s" by (simp add: s1)
        ultimately show ?thesis using row m by (simp add: Inr o)
      next
        assume "load_and_activate env dir m mode ?s = (t, Inr out)"
        from load_and_activate_Inr [OF top' this] show ?thesis
          using m g by (auto simp: Inr s' validate_postconditions_cong [of "with_locks l t" t for l])
      qed
    qed
  qed
qed

text \<open>
  C4.  A media apply is invisible until its switch.  From a sound topology, whatever happens, the
  topology stays sound and the corpus lock is released.  An error leaves the cursors, the manifest, the
  views and the contents of every active schema as they were; a repeated package only renews the stamp;
  a success has passed every gate and the mode's cursor guard, has switched exactly its corpus to the
  generation the manifest names, which nobody was reading, with the manifest's stamps, and the declared
  counts and digests hold of
  the generation that is now read.
\<close>

theorem media_apply_invisible_until_switch:
  assumes top: "topology_ok s" and run: "apply_media_package env dir v mode s = (s', result)"
  shows "topology_ok s' \<and> db_corpus_locks s' = db_corpus_locks s \<and>
    (case result of
       Inl e \<Rightarrow> unseen s s'
     | Inr (MediaAlreadyApplied corpus q) \<Rightarrow>
         s'\<lparr>db_manifest := db_manifest s\<rparr> = s \<and> is_ok (load_query_readiness_with_client s')
         \<and> (\<exists>m r. read_signed_manifest env dir v = Inr m \<and> corpus = corpus_as_str (id_corpus (em_identity m))
              \<and> q = ps_get (ap_result_sequence (em_apply m)) \<and> bt_get (db_corpora s) corpus = Some r
              \<and> u64_or_zero (cs_sequence r) = q)
     | Inr (MediaApplied corpus generation q report) \<Rightarrow>
         (\<exists>m. read_signed_manifest env dir v = Inr m \<and> media_gates env dir mode m s = Inr ()
            \<and> corpus = corpus_as_str (id_corpus (em_identity m)) \<and> generation = id_generation (em_identity m)
            \<and> inactive s generation \<and> q = ps_get (ap_result_sequence (em_apply m))
            \<and> guard_ok (media_guard mode q) (map_option cs_sequence (bt_get (db_corpora s) corpus))
            \<and> bt_get (db_corpora s') = (bt_get (db_corpora s))(corpus \<mapsto> stamped_row generation (media_stamps m))
            \<and> validate_postconditions s' corpus (schema_for_generation generation) m = Inr ()
            \<and> is_ok (load_query_readiness_with_client s')))"
  by (rule apply_media_cases [OF top run])

section \<open>A re-baseline repeated\<close>

definition sample_rebaseline :: embedded_manifest where
  "sample_rebaseline = sample_package Rebaseline ''open'' [] [] ''sha256:''"

text \<open>The database of a client that has already switched to that package.\<close>

definition sample_switched_db :: db where
  "sample_switched_db = sample_db\<lparr>db_corpora := [(''core'', sample_corpus_row\<lparr>cs_sequence := 8,
     cs_last_package_id := Some ''p8'', cs_last_package_digest := Some ''sha256:''\<rparr>)]\<rparr>"

lemma sample_switched_topology: "topology_ok sample_switched_db"
  unfolding topology_ok_def
proof (intro conjI)
  show "registry_ok sample_switched_db"
    using sample_topology_ok by (simp add: topology_ok_def registry_ok_def sample_switched_db_def)
  show "active_ok sample_switched_db"
    by (auto simp: active_ok_def sample_switched_db_def sample_db_def bt_get_def schema_for_generation_def
        split: if_splits)
  show "views_ok sample_switched_db"
    by (simp add: views_ok_def active_generation_schemas_def schema_for_generation_def sample_switched_db_def)
qed (simp add: bt_ok_def sample_switched_db_def)

lemma sample_repeated:
  "snd (apply_rebaseline (sample_env sample_rebaseline) ''pkg'' accept_all_verify_bytes sample_switched_db) =
     Inr (MediaAlreadyApplied ''core'' 8)"
  by code_simp

lemma media_apply_invisible_until_switch_witness:
  "topology_ok (fst (apply_rebaseline (sample_env sample_rebaseline) ''pkg'' accept_all_verify_bytes sample_switched_db))
   \<and> is_ok (load_query_readiness_with_client
       (fst (apply_rebaseline (sample_env sample_rebaseline) ''pkg'' accept_all_verify_bytes sample_switched_db)))"
proof -
  let ?run = "apply_media_package (sample_env sample_rebaseline) ''pkg'' accept_all_verify_bytes RebaselineMode sample_switched_db"
  have run: "?run = (fst ?run, Inr (MediaAlreadyApplied ''core'' 8))"
    using sample_repeated by (metis apply_rebaseline_def prod.collapse)
  from media_apply_invisible_until_switch [OF sample_switched_topology run] show ?thesis
    by (simp add: apply_rebaseline_def)
qed

end
