(* ===== verification/Client_System.thy ===== *)
theory Client_System
  imports Apply_Correct
begin

text \<open>
  The client as a transition system: packages applied in any order from any files, retired generations
  dropped, anchors and licence tokens installed, and other sessions taking the apply lock.  The
  invariants of its reachable states, and the abstract mirror of cursors it refines.
\<close>

section \<open>Steps\<close>

text \<open>The files under the artifact directory and the read role change freely between two steps.\<close>

definition with_files :: "('k, 's) apply_env \<Rightarrow> (string \<Rightarrow> string option) \<Rightarrow> read_visibility option \<Rightarrow> ('k, 's) apply_env" where
  "with_files env files visibility = env\<lparr>ae_read_file := files, ae_visibility := visibility\<rparr>"

inductive client_step :: "('k, 's) apply_env \<Rightarrow> db \<Rightarrow> db \<Rightarrow> bool" for env where
  incremental: "client_step env s (fst (apply_incremental (with_files env files vis) dir v s))"
| media: "client_step env s (fst (apply_media_package (with_files env files vis) dir v mode s))"
| drop_retired: "client_step env s (fst (drop_retired_generation corpus generation s))"
| anchor: "client_step env s (fst (install_trust_anchor anchor purpose s))"
| token: "client_step env s (fst (install_verified_license_token (ae_trust env) blob s))"
| other_session: "client_step env s (s\<lparr>db_apply_lock_busy := busy\<rparr>)"

lemma with_files_same [simp]: "with_files env (ae_read_file env) (ae_visibility env) = env"
  by (simp add: with_files_def)

lemma incremental_client_step: "client_step env s (fst (apply_incremental env dir v s))"
  using client_step.incremental [of env s "ae_read_file env" "ae_visibility env" dir v] by simp

lemma media_client_step: "client_step env s (fst (apply_media_package env dir v mode s))"
  using client_step.media [of env s "ae_read_file env" "ae_visibility env" dir v mode] by simp

section \<open>The abstract mirror\<close>

text \<open>
  What the client promises of a corpus: the position it is at, which generation is read there and which
  signed package brought it there.
\<close>

record position =
  po_sequence :: int
  po_generation :: string
  po_package :: "string option"
  po_digest :: "string option"

definition position_of :: "corpus_row \<Rightarrow> position" where
  "position_of r = \<lparr>po_sequence = cs_sequence r, po_generation = cs_active_generation r,
     po_package = cs_last_package_id r, po_digest = cs_last_package_digest r\<rparr>"

definition mirror :: "db \<Rightarrow> string \<Rightarrow> position option" where
  "mirror s c = map_option position_of (bt_get (db_corpora s) c)"

text \<open>The position a package leaves behind.\<close>

definition landed :: "embedded_manifest \<Rightarrow> string \<Rightarrow> position" where
  "landed m generation = \<lparr>po_sequence = i64_saturating (ps_get (ap_result_sequence (em_apply m))),
     po_generation = generation, po_package = Some (id_package_id (em_identity m)),
     po_digest = Some (in_artifact_sha256 (em_integrity m))\<rparr>"

abbreviation corpus_of :: "embedded_manifest \<Rightarrow> string" where
  "corpus_of m \<equiv> corpus_as_str (id_corpus (em_identity m))"

text \<open>
  The contract: nothing happens, or one corpus moves.  An incremental extends exactly the package that
  brought the corpus where it is; a baseline installs an absent corpus; a re-baseline moves strictly
  forward into a generation that was not being read.
\<close>

inductive mirror_step :: "(string \<Rightarrow> position option) \<Rightarrow> (string \<Rightarrow> position option) \<Rightarrow> bool" where
  stutter: "mirror_step f f"
| advance: "f (corpus_of m) = Some p \<Longrightarrow> id_package_kind (em_identity m) = Incremental
    \<Longrightarrow> po_sequence p = uint (ps_get (ap_expected_client_from_sequence (em_apply m)))
    \<Longrightarrow> ap_expected_client_from_sequence (em_apply m) < ap_result_sequence (em_apply m)
    \<Longrightarrow> po_package p = id_previous_package_id (em_identity m)
    \<Longrightarrow> po_digest p = id_previous_package_sha256 (em_identity m)
    \<Longrightarrow> mirror_step f (f(corpus_of m \<mapsto> landed m (po_generation p)))"
| install: "f (corpus_of m) = None \<Longrightarrow> id_package_kind (em_identity m) \<noteq> Incremental
    \<Longrightarrow> mirror_step f (f(corpus_of m \<mapsto> landed m (id_generation (em_identity m))))"
| switch: "f (corpus_of m) = Some p \<Longrightarrow> id_package_kind (em_identity m) = Rebaseline
    \<Longrightarrow> po_sequence p < i64_saturating (ps_get (ap_result_sequence (em_apply m)))
    \<Longrightarrow> po_generation p \<noteq> id_generation (em_identity m)
    \<Longrightarrow> mirror_step f (f(corpus_of m \<mapsto> landed m (id_generation (em_identity m))))"

section \<open>Column types\<close>

text \<open>
  What the types and the writers of the control tables promise: sequences are non-negative
  \<open>bigint\<close>s, key and licence epochs non-negative \<open>integer\<close>s.
\<close>

definition i32_max :: int where
  "i32_max = 2 ^ 31 - 1"

definition columns_typed :: "db \<Rightarrow> bool" where
  "columns_typed s \<longleftrightarrow>
     (\<forall>p\<in>set (db_corpora s). 0 \<le> cs_sequence (snd p) \<and> cs_sequence (snd p) \<le> i64_max)
     \<and> (\<forall>p\<in>set (db_anchors s). 0 \<le> fst (snd (fst p)) \<and> fst (snd (fst p)) \<le> i32_max)
     \<and> (\<forall>p\<in>set (db_tokens s). 0 \<le> fst (snd (snd (fst p))) \<and> fst (snd (snd (fst p))) \<le> i32_max)"

definition client_ok :: "db \<Rightarrow> bool" where
  "client_ok s \<longleftrightarrow> topology_ok s \<and> columns_typed s \<and> db_corpus_locks s = []"

section \<open>Applying packages never touches the trust tables\<close>

definition trust_rows :: "db \<Rightarrow> ((string \<times> int \<times> string, string \<times> string) btree)
    \<times> ((string \<times> string \<times> int \<times> string, string option \<times> string) btree)" where
  "trust_rows s = (db_anchors s, db_tokens s)"

lemma keeps_mono: "keeps R m \<Longrightarrow> (\<And>s t. R s t \<Longrightarrow> Q s t) \<Longrightarrow> keeps Q m"
  by (auto simp: keeps_def)

lemma outside_trust_rows: "same (outside schema) s t \<Longrightarrow> same trust_rows s t"
  unfolding same_def trust_rows_def
  by (frule arg_cong [where f = db_anchors], drule arg_cong [where f = db_tokens]) (simp add: outside_def)

lemma manifest_trust_rows: "same but_manifest s t \<Longrightarrow> same trust_rows s t"
  by (frule same_but_manifest(7), drule same_but_manifest(8)) (simp add: same_def trust_rows_def)

lemma trust_rows_on_schema [keeps_intros]: "keeps (same trust_rows) (on_schema schema f)"
  by (rule keeps_mono [OF keeps_on_schema outside_trust_rows])

lemma trust_rows_stamp [keeps_intros]: "keeps (same trust_rows) (stamp_query_readiness g)"
  by (rule keeps_mono [OF keeps_stamp manifest_trust_rows])

lemma trust_rows_dense [keeps_intros]: "keeps (same trust_rows) (upsert_generation_dense_manifest e)"
  by (rule keeps_mono [OF keeps_dense manifest_trust_rows])

lemma trust_rows_grant [keeps_intros]: "keeps (same trust_rows) (grant_read_visibility g v)"
  unfolding grant_read_visibility_def
  by (intro keeps_statement) (auto simp: same_def trust_rows_def Let_def split: if_splits)

lemma trust_rows_views [keeps_intros]: "keeps (same trust_rows) rebuild_server_views"
  unfolding rebuild_server_views_def
  by (intro keeps_statement) (auto simp: same_def trust_rows_def Let_def split: if_splits)

lemma trust_rows_probe [keeps_intros]: "keeps (same trust_rows) (probe_read_visibility c g role)"
  unfolding probe_read_visibility_def
  by (intro keeps_statement) (auto simp: same_def trust_rows_def split: if_splits option.splits)

lemma trust_rows_register [keeps_intros]: "keeps (same trust_rows) (register_generation c n src)"
  unfolding register_generation_def
  by (intro keeps_statement) (auto simp: same_def trust_rows_def Let_def split: if_splits)

lemma trust_rows_create [keeps_intros]: "keeps (same trust_rows) (create_schema schema sch)"
  unfolding create_schema_def
  by (intro keeps_statement) (auto simp: same_def trust_rows_def split: if_splits)

lemma trust_rows_cursor [keeps_intros]: "keeps (same trust_rows) (advance_corpus_cursor c n i d)"
  unfolding advance_corpus_cursor_def
  by (intro keeps_statement) (auto simp: same_def trust_rows_def split: option.splits)

lemma trust_rows_modify [keeps_intros]:
  "keeps (same trust_rows) (modify (retire_active c g))"
  "keeps (same trust_rows) (modify (mark_active c g st))"
  "keeps (same trust_rows) (modify (put_corpus c r))"
  "keeps (same trust_rows) (modify (drop_schema x))"
  "keeps (same trust_rows) (modify (delete_generation_row c g))"
  by (rule keeps_modify; simp add: same_def trust_rows_def retire_active_def mark_active_def put_corpus_def
      drop_schema_def delete_generation_row_def)+

lemma trust_rows_activate [keeps_intros]:
  "keeps (same trust_rows) (activate_generation_inner c g st guard dense vis)"
  unfolding activate_generation_inner_def by (intro keeps_intros)

lemma trust_rows_reset [keeps_intros]:
  "keeps (same trust_rows) (reset_building_generation c g)" "keeps (same trust_rows) (drop_retired_generation c g)"
  unfolding reset_building_generation_def drop_retired_generation_def by (intro keeps_intros)+

lemma trust_rows_pure [keeps_intros]: "keeps (same trust_rows) (\<lambda>s. (s, f s))"
  by (simp add: keeps_def same_def)

lemma trust_rows_copy [keeps_intros]: "keeps (same trust_rows) (copy_payload_in env dir m schema)"
  unfolding copy_payload_in_def copy_file_def by (intro keeps_intros)

lemma trust_rows_indexes [keeps_intros]: "keeps (same trust_rows) (build_generation_indexes g c)"
  unfolding build_generation_indexes_def add_constraints_def replay_indexes_def add_foreign_keys_def build_ivfflat_def
  by (auto simp: Let_def case_prod_beta intro!: keeps_intros)

lemma trust_rows_load [keeps_intros]: "keeps (same trust_rows) (load_and_activate env dir m mode)"
  unfolding load_and_activate_def create_generation_load_tables_def Let_def by (intro keeps_intros)

lemma trust_rows_locked [keeps_intros]: "keeps (same trust_rows) (apply_media_locked env dir m mode)"
  unfolding apply_media_locked_def restamp_active_readiness_def Let_def by (intro keeps_intros)

lemma trust_rows_media: "keeps (same trust_rows) (apply_media_package env dir v mode)"
proof -
  have "keeps (same trust_rows) (\<lambda>s. case apply_media_locked env dir m mode s of
      (s', outcome) \<Rightarrow> (fst (release_corpus_apply_lock c s' :: _ \<times> (unit, storage_error) result), outcome))" for m c
    using trust_rows_locked [of env dir m mode]
    by (auto simp: keeps_def same_def trust_rows_def release_corpus_apply_lock_def modify_def split: prod.splits)
      (metis fst_conv)+
  moreover have "keeps (same trust_rows) (acquire_corpus_apply_lock c)" for c
    by (simp add: keeps_def same_def trust_rows_def acquire_corpus_apply_lock_def modify_def)
  ultimately show ?thesis
    unfolding apply_media_package_def Let_def by (intro keeps_intros)
qed

lemma trust_rows_incremental: "keeps (same trust_rows) (apply_incremental env dir v)"
proof -
  have "keeps (same trust_rows) (apply_incremental_files env sv schema dir m)" for sv schema m
    by (rule keeps_mono [OF keeps_incremental_files outside_trust_rows])
  then show ?thesis
    unfolding apply_incremental_def incremental_transaction_def mutate_generation_def Let_def
    by (intro keeps_intros)
qed

section \<open>What each step does to the cursors\<close>

lemma only_manifest:
  assumes "s'\<lparr>db_manifest := x\<rparr> = s"
  shows "db_corpora s' = db_corpora s" "db_registry s' = db_registry s" "db_views s' = db_views s"
    "db_schemas s' = db_schemas s" "db_corpus_locks s' = db_corpus_locks s"
  using assms by auto

lemma map_bt_insert:
  assumes "bt_ok cs" "bt_get cs c = Some r" "f r' = f r"
  shows "map (\<lambda>(k, x). (k, f x)) (bt_insert c r' cs) = map (\<lambda>(k, x). (k, f x)) cs"
  using assms(1,2)
proof (induction cs)
  case (Cons p cs)
  obtain k x where p: "p = (k, x)" by fastforce
  have ok: "bt_ok cs" using Cons.prems(1) by (simp add: p bt_ok_Cons)
  consider "c < k" | "c = k" | "k < c" by (rule linorder_cases)
  then show ?case
  proof cases
    case 1
    then have "map_of cs c = None" using bt_ok_get_None [of k x cs c] Cons.prems(1) p by simp
    moreover from 1 have "c \<noteq> k" by simp
    ultimately show ?thesis using Cons.prems(2) by (simp add: p bt_get_def)
  next
    case 2
    with Cons.prems(2) show ?thesis using assms(3) by (simp add: p bt_get_def)
  next
    case 3
    with Cons.prems(2) have "bt_get cs c = Some r" by (auto simp: p bt_get_def split: if_splits)
    from Cons.IH [OF ok this] 3 show ?thesis by (auto simp: p)
  qed
qed (simp add: bt_get_def)

lemma topology_advanced:
  assumes top: "topology_ok s" and r: "bt_get (db_corpora s) c = Some r"
  shows "topology_ok (advanced_db m c r (Some sch) stamp s)"
proof -
  let ?t = "advanced_db m c r (Some sch) stamp s"
  have bt: "bt_ok (db_corpora s)" using top by (simp add: topology_ok_def)
  have get: "bt_get (db_corpora ?t) = (bt_get (db_corpora s))(c \<mapsto> advanced_row m r)"
    by (simp add: bt_get_insert [OF bt])
  have gen: "cs_active_generation (advanced_row m r) = cs_active_generation r" by (simp add: advanced_row_def)
  have "bt_ok (db_corpora ?t)" by (simp add: bt_ok_insert [OF bt])
  moreover have "registry_ok ?t" using top by (simp add: topology_ok_def registry_ok_def)
  moreover have "active_ok ?t"
    using top r unfolding topology_ok_def active_ok_def get by (auto simp: gen)
  moreover have "map snd (active_generation_schemas ?t) = map snd (active_generation_schemas s)"
  proof -
    have "active_generation_schemas ?t = active_generation_schemas s"
      unfolding active_generation_schemas_def advanced_db_fields
      by (rule map_bt_insert [OF bt r]) (simp add: gen)
    then show ?thesis by simp
  qed
  then have "views_ok ?t" using top by (simp add: topology_ok_def views_ok_def)
  ultimately show ?thesis by (simp add: topology_ok_def)
qed

lemma mirror_unseen: "unseen s t \<Longrightarrow> mirror t = mirror s"
  by (simp add: unseen_def mirror_def fun_eq_iff)

lemma uint_u64_or_zero: "0 \<le> v \<Longrightarrow> v \<le> i64_max \<Longrightarrow> uint (u64_or_zero v) = v"
  by (simp add: u64_or_zero_def u64_try_from_def i64_max_def uint_word_of_int take_bit_int_eq_self)

lemma row_typed:
  assumes "columns_typed s" "bt_get (db_corpora s) c = Some r"
  shows "0 \<le> cs_sequence r" "cs_sequence r \<le> i64_max"
proof -
  have "(c, r) \<in> set (db_corpora s)" using assms(2) by (simp add: bt_get_def map_of_SomeD)
  then show "0 \<le> cs_sequence r" "cs_sequence r \<le> i64_max" using assms(1) by (auto simp: columns_typed_def)
qed

lemma incremental_mirror_step:
  assumes ok: "client_ok s" and run: "apply_incremental env dir v s = (s', result)"
  shows "topology_ok s' \<and> db_corpus_locks s' = [] \<and> mirror_step (mirror s) (mirror s')"
proof -
  from ok have top: "topology_ok s" and typed: "columns_typed s" and locks: "db_corpus_locks s = []"
    by (simp_all add: client_ok_def)
  note cases = apply_incremental_cases [where env = env and dir = dir and v = v and s = s, unfolded run prod.case]
  show ?thesis
  proof (cases result)
    case (Inl e)
    with cases ok show ?thesis by (simp add: client_ok_def mirror_step.stutter)
  next
    case (Inr out)
    show ?thesis
    proof (cases out)
      case (IncrementalAlreadyApplied c q)
      with cases Inr have same: "s'\<lparr>db_manifest := db_manifest s\<rparr> = s" by simp
      note eq = only_manifest [OF same]
      have "mirror s' = mirror s" by (simp add: mirror_def fun_eq_iff eq(1))
      moreover have "topology_ok s'" by (rule topology_same_control [OF top]) (simp_all add: eq)
      ultimately show ?thesis by (simp add: eq locks mirror_step.stutter)
    next
      case (IncrementalApplied c q n)
      with cases Inr obtain m r sch stamp where gates: "incremental_gates env dir m s = Inr ()"
        and c: "c = corpus_of m" and q: "q = ps_get (ap_result_sequence (em_apply m))"
        and r: "bt_get (db_corpora s) c = Some r" and less: "u64_or_zero (cs_sequence r) < q"
        and chain: "check_chain m r = Inr ()" and s': "s' = advanced_db m c r (Some sch) stamp s"
        by auto
      have bt: "bt_ok (db_corpora s)" using top by (simp add: topology_ok_def)
      have kind: "id_package_kind (em_identity m) = Incremental"
        using gates by (auto simp: incremental_gates_def result_simps)
      from chain have link: "u64_or_zero (cs_sequence r) = ps_get (ap_expected_client_from_sequence (em_apply m))"
        "id_previous_package_id (em_identity m) = cs_last_package_id r"
        "id_previous_package_sha256 (em_identity m) = cs_last_package_digest r"
        by (simp_all add: check_chain_def Let_def result_simps)
      have row: "position_of (advanced_row m r) = landed m (po_generation (position_of r))"
        by (simp add: position_of_def advanced_row_def landed_def)
      have mir: "mirror s' = (mirror s)(corpus_of m \<mapsto> landed m (po_generation (position_of r)))"
        by (simp add: mirror_def fun_eq_iff s' bt_get_insert [OF bt] row c)
      have "mirror_step (mirror s) (mirror s')"
        unfolding mir
      proof (rule mirror_step.advance)
        show "mirror s (corpus_of m) = Some (position_of r)" using r c by (simp add: mirror_def)
        show "po_sequence (position_of r) = uint (ps_get (ap_expected_client_from_sequence (em_apply m)))"
          using link(1) uint_u64_or_zero [OF row_typed [OF typed r]] by (simp add: position_of_def)
        show "ap_expected_client_from_sequence (em_apply m) < ap_result_sequence (em_apply m)"
          using less link(1) q by (simp add: less_package_sequence_def)
      qed (use kind link in \<open>simp_all add: position_of_def\<close>)
      moreover have "topology_ok s'" unfolding s' by (rule topology_advanced [OF top r])
      moreover have "db_corpus_locks s' = []" by (simp add: s' locks)
      ultimately show ?thesis by blast
    qed
  qed
qed

lemma media_mirror_step:
  assumes ok: "client_ok s" and run: "apply_media_package env dir v mode s = (s', result)"
  shows "topology_ok s' \<and> db_corpus_locks s' = [] \<and> mirror_step (mirror s) (mirror s')"
proof -
  from ok have top: "topology_ok s" and typed: "columns_typed s" and locks: "db_corpus_locks s = []"
    by (simp_all add: client_ok_def)
  note cases = apply_media_cases [OF top run]
  have "mirror_step (mirror s) (mirror s')"
  proof (cases result)
    case (Inl e)
    with cases show ?thesis using mirror_unseen [of s s'] by (simp add: mirror_step.stutter)
  next
    case (Inr out)
    show ?thesis
    proof (cases out)
      case (MediaAlreadyApplied c q)
      with cases Inr have same: "s'\<lparr>db_manifest := db_manifest s\<rparr> = s" by simp
      then have "mirror s' = mirror s" by (simp add: mirror_def fun_eq_iff only_manifest(1) [OF same])
      then show ?thesis by (simp add: mirror_step.stutter)
    next
      case (MediaApplied c g q report)
      with cases Inr obtain m where gates: "media_gates env dir mode m s = Inr ()"
        and c: "c = corpus_of m" and g: "g = id_generation (em_identity m)" "inactive s g"
        and q: "q = ps_get (ap_result_sequence (em_apply m))"
        and guard: "guard_ok (media_guard mode q) (map_option cs_sequence (bt_get (db_corpora s) c))"
        and row: "bt_get (db_corpora s') = (bt_get (db_corpora s))(c \<mapsto> stamped_row g (media_stamps m))"
        by auto
      have kind: "id_package_kind (em_identity m) = expected_kind mode"
        using gates by (auto simp: media_gates_def result_simps)
      have mir: "mirror s' = (mirror s)(corpus_of m \<mapsto> landed m (id_generation (em_identity m)))"
        by (simp add: mirror_def fun_eq_iff row c g position_of_def stamped_row_def media_stamps_def landed_def)
      show ?thesis
      proof (cases "bt_get (db_corpora s) c")
        case None
        show ?thesis unfolding mir
          by (rule mirror_step.install) (use None c kind in \<open>cases mode; simp add: mirror_def\<close>)+
      next
        case (Some r)
        with guard have mode: "mode = RebaselineMode" and less: "cs_sequence r < i64_saturating q"
          by (cases mode; simp add: media_guard_def guard_ok_def)+
        have "cs_active_generation r \<noteq> g"
          using g(2) Some top by (auto simp: inactive_def list_all_iff topology_ok_def bt_get_set)
        then show ?thesis unfolding mir
          by (intro mirror_step.switch [of _ _ "position_of r"])
            (use Some c g q less kind mode in \<open>simp_all add: mirror_def position_of_def\<close>)
      qed
    qed
  qed
  then show ?thesis using cases locks by simp
qed

section \<open>Invariants of every reachable state\<close>

definition mirror_typed :: "(string \<Rightarrow> position option) \<Rightarrow> bool" where
  "mirror_typed f \<longleftrightarrow> (\<forall>c p. f c = Some p \<longrightarrow> 0 \<le> po_sequence p \<and> po_sequence p \<le> i64_max)"

definition trust_typed :: "db \<Rightarrow> bool" where
  "trust_typed s \<longleftrightarrow>
     (\<forall>p\<in>set (db_anchors s). 0 \<le> fst (snd (fst p)) \<and> fst (snd (fst p)) \<le> i32_max)
     \<and> (\<forall>p\<in>set (db_tokens s). 0 \<le> fst (snd (snd (fst p))) \<and> fst (snd (snd (fst p))) \<le> i32_max)"

lemma columns_typed_split:
  assumes "bt_ok (db_corpora s)"
  shows "columns_typed s \<longleftrightarrow> mirror_typed (mirror s) \<and> trust_typed s"
proof -
  have "(\<forall>p\<in>set (db_corpora s). 0 \<le> cs_sequence (snd p) \<and> cs_sequence (snd p) \<le> i64_max) \<longleftrightarrow> mirror_typed (mirror s)"
    unfolding mirror_typed_def mirror_def by (force simp: bt_get_set [OF assms] position_of_def)
  then show ?thesis by (simp add: columns_typed_def trust_typed_def)
qed

lemma mirror_step_typed: "mirror_step f g \<Longrightarrow> mirror_typed f \<Longrightarrow> mirror_typed g"
  by (induction rule: mirror_step.induct) (auto simp: mirror_typed_def landed_def i64_saturating_range)

lemma trust_typed_rows: "same trust_rows s t \<Longrightarrow> trust_typed t = trust_typed s"
  by (simp add: same_def trust_rows_def trust_typed_def)

lemma set_bt_insert: "set (bt_insert k v m) \<subseteq> insert (k, v) (set m)"
  by (induction m) (auto split: if_splits)

lemma i32_saturating_range: "0 \<le> i32_saturating w \<and> i32_saturating w \<le> i32_max"
  by (simp add: i32_saturating_def i32_max_def)

lemma install_trust_anchor_typed: "trust_typed s \<Longrightarrow> trust_typed (fst (install_trust_anchor anchor purpose s))"
  using set_bt_insert [of "(ta_key_id anchor, i32_saturating (ta_key_epoch anchor), purpose)"
      "(ta_algorithm anchor, ta_public_key_hex anchor)" "db_anchors s"]
    i32_saturating_range [of "ta_key_epoch anchor"]
  by (auto simp: trust_typed_def install_trust_anchor_def modify_def dest!: subsetD)

lemma install_token_cases:
  "fst (install_verified_license_token env blob s) = s \<or>
   (\<exists>token v. fst (install_verified_license_token env blob s) = s\<lparr>db_tokens := bt_insert (token_key token) v (db_tokens s)\<rparr>)"
proof (cases "install_verified_license_token env blob s")
  case (Pair s' result)
  show ?thesis
  proof (cases result)
    case (Inl e)
    with Pair have "s' = s"
      by (auto simp: install_verified_license_token_def install_license_token_def action_simps lift_res_eq_Inr
          lift_res_eq_Inl split: option.splits)
    then show ?thesis by (simp add: Pair)
  next
    case (Inr u)
    with Pair show ?thesis using install_verified_license_tokenD [of env blob s s'] by auto
  qed
qed

lemma install_token_typed:
  assumes "trust_typed s"
  shows "trust_typed (s\<lparr>db_tokens := bt_insert (token_key token) v (db_tokens s)\<rparr>)"
  using assms set_bt_insert [of "token_key token" v "db_tokens s"] i32_saturating_range [of "lt_license_epoch token"]
  by (auto simp: trust_typed_def token_key_def dest!: subsetD)

lemma drop_retired_invisible:
  assumes "topology_ok s"
  shows "topology_ok (fst (drop_retired_generation c g s))"
    "db_corpora (fst (drop_retired_generation c g s)) = db_corpora s"
    "db_corpus_locks (fst (drop_retired_generation c g s)) = db_corpus_locks s"
proof -
  obtain s' result where run: "drop_retired_generation c g s = (s', result)" by fastforce
  have "topology_ok s' \<and> db_corpora s' = db_corpora s \<and> db_corpus_locks s' = db_corpus_locks s"
  proof (cases result)
    case (Inl e)
    with run assms clean_up_error(1) [of c g s s' e] show ?thesis by simp
  next
    case (Inr u)
    with run obtain x where x: "find_generation s c g = Some x" "gr_state x = Retired"
      and s': "s' = delete_generation_row c g (drop_schema (gr_physical_schema x) s)"
      by (auto simp: drop_retired_Inr)
    from find_generation_Some [OF x(1)] have in_reg: "x \<in> set (db_registry s)" and "s' = remove_generation x s"
      by (auto simp: s' remove_generation_def)
    with remove_inactive [OF assms in_reg] x(2) show ?thesis
      by (simp add: remove_generation_def delete_generation_row_def drop_schema_def)
  qed
  then show "topology_ok (fst (drop_retired_generation c g s))"
    "db_corpora (fst (drop_retired_generation c g s)) = db_corpora s"
    "db_corpus_locks (fst (drop_retired_generation c g s)) = db_corpus_locks s"
    by (simp_all add: run)
qed

lemma client_ok_iff:
  "client_ok s \<longleftrightarrow> topology_ok s \<and> mirror_typed (mirror s) \<and> trust_typed s \<and> db_corpus_locks s = []"
  using columns_typed_split [of s] by (auto simp: client_ok_def topology_ok_def)

lemma mirror_same_corpora: "db_corpora t = db_corpora s \<Longrightarrow> mirror_step (mirror s) (mirror t)"
proof -
  assume "db_corpora t = db_corpora s"
  then have "mirror t = mirror s" by (simp add: mirror_def fun_eq_iff)
  then show ?thesis by (simp add: mirror_step.stutter)
qed

lemma client_okI:
  assumes "client_ok s" "topology_ok t" "mirror_step (mirror s) (mirror t)" "trust_typed t" "db_corpus_locks t = []"
  shows "client_ok t \<and> mirror_step (mirror s) (mirror t)"
  using assms mirror_step_typed by (auto simp: client_ok_iff)

lemma client_step_effect:
  assumes "client_step env s t" "client_ok s"
  shows "client_ok t \<and> mirror_step (mirror s) (mirror t)"
  using assms
proof (induction rule: client_step.induct)
  case (incremental s files vis dir v)
  obtain s' result where run: "apply_incremental (with_files env files vis) dir v s = (s', result)" by fastforce
  from incremental_mirror_step [OF incremental run] trust_typed_rows [OF keepsD [OF trust_rows_incremental run]]
  show ?case using incremental by (intro client_okI) (simp_all add: run client_ok_iff)
next
  case (media s files vis dir v mode)
  obtain s' result where run: "apply_media_package (with_files env files vis) dir v mode s = (s', result)" by fastforce
  from media_mirror_step [OF media run] trust_typed_rows [OF keepsD [OF trust_rows_media run]]
  show ?case using media by (intro client_okI) (simp_all add: run client_ok_iff)
next
  case (drop_retired s corpus generation)
  let ?t = "fst (drop_retired_generation corpus generation s)"
  have top: "topology_ok s" using drop_retired by (simp add: client_ok_iff)
  have "same trust_rows s ?t" using trust_rows_reset(2) by (simp add: keeps_def)
  moreover have "mirror_step (mirror s) (mirror ?t)"
    by (rule mirror_same_corpora) (rule drop_retired_invisible(2) [OF top])
  ultimately show ?case
    using drop_retired drop_retired_invisible [OF top, of corpus generation] trust_typed_rows
    by (intro client_okI) (simp_all add: client_ok_iff)
next
  case (anchor s anc purpose)
  have top: "topology_ok s" using anchor by (simp add: client_ok_iff)
  have "topology_ok (fst (install_trust_anchor anc purpose s))"
    by (rule topology_same_control [OF top]) (simp_all add: install_trust_anchor_def modify_def)
  then show ?case
    using anchor install_trust_anchor_typed [of s anc purpose]
    by (intro client_okI mirror_same_corpora) (simp_all add: client_ok_iff install_trust_anchor_def modify_def)
next
  case (token s blob)
  have top: "topology_ok s" using token by (simp add: client_ok_iff)
  from install_token_cases [of "ae_trust env" blob s] show ?case
  proof (elim disjE exE)
    fix tok v
    assume t: "fst (install_verified_license_token (ae_trust env) blob s) =
        s\<lparr>db_tokens := bt_insert (token_key tok) v (db_tokens s)\<rparr>"
    have "topology_ok (s\<lparr>db_tokens := bt_insert (token_key tok) v (db_tokens s)\<rparr>)"
      by (rule topology_same_control [OF top]) simp_all
    then show ?thesis
      using token install_token_typed [of s tok v]
      by (intro client_okI mirror_same_corpora) (simp_all add: t client_ok_iff)
  qed (use token in \<open>simp add: mirror_step.stutter\<close>)
next
  case (other_session s busy)
  have top: "topology_ok s" using other_session by (simp add: client_ok_iff)
  have "topology_ok (s\<lparr>db_apply_lock_busy := busy\<rparr>)" by (rule topology_same_control [OF top]) simp_all
  then show ?case
    using other_session
    by (intro client_okI mirror_same_corpora) (simp_all add: client_ok_iff trust_typed_def)
qed

lemma client_steps_effect:
  assumes "(client_step env)\<^sup>*\<^sup>* s t" "client_ok s"
  shows "client_ok t \<and> mirror_step\<^sup>*\<^sup>* (mirror s) (mirror t)"
  using assms
proof (induction rule: rtranclp_induct)
  case (step t u)
  then show ?case using client_step_effect [of env t u] by (auto intro: rtranclp.rtrancl_into_rtrancl)
qed simp

text \<open>Positions compare by sequence; a sequence is never reoccupied by other content below the clamp.\<close>

definition position_le :: "position \<Rightarrow> position \<Rightarrow> bool" where
  "position_le p q \<longleftrightarrow> p = q \<or> po_sequence p < po_sequence q \<or> po_sequence p = i64_max \<and> po_sequence q = i64_max"

definition mirror_le :: "(string \<Rightarrow> position option) \<Rightarrow> (string \<Rightarrow> position option) \<Rightarrow> bool" where
  "mirror_le f g \<longleftrightarrow> (\<forall>c p. f c = Some p \<longrightarrow> (\<exists>q. g c = Some q \<and> position_le p q))"

lemma position_le_trans: "position_le p q \<Longrightarrow> position_le q r \<Longrightarrow> position_le p r"
  by (auto simp: position_le_def)

lemma mirror_le_refl: "mirror_le f f"
  by (simp add: mirror_le_def position_le_def)

lemma mirror_le_trans:
  assumes "mirror_le f g" "mirror_le g h"
  shows "mirror_le f h"
  unfolding mirror_le_def
proof (intro allI impI)
  fix c p
  assume "f c = Some p"
  with assms(1) obtain q where q: "g c = Some q" "position_le p q" unfolding mirror_le_def by blast
  with assms(2) obtain r where "h c = Some r" "position_le q r" unfolding mirror_le_def by blast
  with q position_le_trans show "\<exists>r. h c = Some r \<and> position_le p r" by blast
qed

lemma landed_above:
  assumes "po_sequence p = uint (ps_get q)" "q < ap_result_sequence (em_apply m)" "po_sequence p \<le> i64_max"
  shows "position_le p (landed m g)"
proof -
  have "uint (ps_get q) < uint (ps_get (ap_result_sequence (em_apply m)))"
    using assms(2) by (simp add: less_package_sequence_def word_less_def)
  then have "po_sequence p < po_sequence (landed m g)
      \<or> po_sequence p = i64_max \<and> po_sequence (landed m g) = i64_max"
    using assms(1,3) by (simp add: landed_def i64_saturating_def) linarith
  then show ?thesis by (simp add: position_le_def)
qed

lemma mirror_step_le:
  assumes "mirror_step f g" "mirror_typed f"
  shows "mirror_le f g"
  using assms
proof (induction rule: mirror_step.induct)
  case (advance f m p)
  from advance have "mirror_typed f" "f (corpus_of m) = Some p" by simp_all
  then have "po_sequence p \<le> i64_max" unfolding mirror_typed_def by blast
  with advance have "position_le p (landed m (po_generation p))" by (intro landed_above)
  with advance show ?case by (auto simp: mirror_le_def position_le_def)
next
  case (install f m)
  then show ?case by (auto simp: mirror_le_def position_le_def)
next
  case (switch f m p)
  then show ?case by (auto simp: mirror_le_def position_le_def landed_def)
qed (rule mirror_le_refl)

lemma mirror_steps_le:
  "mirror_step\<^sup>*\<^sup>* f g \<Longrightarrow> mirror_typed f \<Longrightarrow> mirror_typed g \<and> mirror_le f g"
proof (induction rule: rtranclp_induct)
  case (step g h)
  then show ?case using mirror_step_typed [of g h] mirror_step_le [of g h] mirror_le_trans by blast
qed (simp add: mirror_le_refl)

section \<open>The promises\<close>

text \<open>
  C10.  Whatever packages arrive, in whatever order, from whatever files, interleaved with clean-up, trust
  installation and other sessions: in every state the client reaches from a sound one, the generation
  topology is sound (one active generation per installed corpus, present and read by the views, no view on
  anything else) and no apply lock is left behind.
\<close>

theorem client_topology_invariant:
  assumes "client_ok s" and "(client_step env)\<^sup>*\<^sup>* s t"
  shows "topology_ok t \<and> db_corpus_locks t = []"
  using client_steps_effect [OF assms(2,1)] by (simp add: client_ok_def)

text \<open>
  C35.  The control tables stay well typed: in every reachable state all sequences are non-negative
  \<open>bigint\<close>s and all key and licence epochs non-negative \<open>integer\<close>s, so reading them back
  as unsigned numbers never falls back to zero.
\<close>

theorem columns_stay_typed:
  assumes "client_ok s" and "(client_step env)\<^sup>*\<^sup>* s t"
  shows "columns_typed t \<and> (\<forall>c r. bt_get (db_corpora t) c = Some r \<longrightarrow> uint (u64_or_zero (cs_sequence r)) = cs_sequence r)"
proof -
  have typed: "columns_typed t" using client_steps_effect [OF assms(2,1)] by (simp add: client_ok_def)
  then show ?thesis using uint_u64_or_zero row_typed [OF typed] by blast
qed


text \<open>
  C13.  No corpus ever goes back: along every run an installed corpus stays installed, its sequence never
  decreases, and while the sequence is the same the generation read and the package and digest recorded
  are the same (below the clamp of the \<open>bigint\<close> column).
\<close>

theorem positions_only_forward:
  assumes "client_ok s" and "(client_step env)\<^sup>*\<^sup>* s t" and "mirror s corpus = Some p"
  shows "\<exists>q. mirror t corpus = Some q \<and> po_sequence p \<le> po_sequence q
    \<and> (po_sequence p = po_sequence q \<and> po_sequence q < i64_max \<longrightarrow> p = q)"
proof -
  have "mirror_le (mirror s) (mirror t)"
    using client_steps_effect [OF assms(2,1)] mirror_steps_le assms(1) by (auto simp: client_ok_iff)
  with assms(3) obtain q where "mirror t corpus = Some q" "position_le p q" by (auto simp: mirror_le_def)
  then show ?thesis by (auto simp: position_le_def)
qed

section \<open>A run of the small client\<close>

lemma sample_client_ok: "client_ok sample_db"
  using sample_topology_ok
  by (simp add: client_ok_def columns_typed_def i64_max_def) (simp add: sample_db_def)

definition sample_next :: db where
  "sample_next = fst (apply_incremental (sample_env sample_incremental) ''pkg'' accept_all_verify_bytes sample_db)"

lemma sample_client_step: "client_step (sample_env sample_incremental) sample_db sample_next"
  unfolding sample_next_def by (rule incremental_client_step)

lemma sample_client_run: "(client_step (sample_env sample_incremental))\<^sup>*\<^sup>* sample_db sample_next"
  using sample_client_step by blast

lemma client_topology_invariant_witness: "topology_ok sample_next \<and> db_corpus_locks sample_next = []"
  by (rule client_topology_invariant [OF sample_client_ok sample_client_run])

lemma columns_stay_typed_witness: "columns_typed sample_next"
  using columns_stay_typed [OF sample_client_ok sample_client_run] by blast


lemma positions_only_forward_witness: "\<exists>q. mirror sample_next ''core'' = Some q \<and> 7 \<le> po_sequence q"
proof -
  have "mirror sample_db ''core'' = Some (position_of sample_corpus_row)" by (simp add: mirror_def bt_get_def)
  from positions_only_forward [OF sample_client_ok sample_client_run this] show ?thesis
    by (auto simp: position_of_def)
qed

end
