(* ===== verification/Catchup.thy ===== *)
theory Catchup
  imports Client_System
begin

text \<open>
  Executing a catch-up plan (\<open>syncd/planner.rs\<close>): the cursor is read, every artifact is fetched and bound
  to its signed remote digest, and the packages are applied in order until the first refusal.  The source
  of artifacts is a parameter; what an applier owes the loop is the locale \<open>ordered_applier\<close>.
\<close>

section \<open>Cursor and source\<close>

definition read_client_cursor :: "db \<Rightarrow> string \<Rightarrow> client_cursor option" where
  "read_client_cursor s corpus = map_option (\<lambda>r. \<lparr>cc_corpus = corpus, cc_sequence = u64_or_zero (cs_sequence r),
     cc_active_generation = cs_active_generation r, cc_baseline_id = cs_baseline_id r,
     cc_schema_version = cs_schema_version r, cc_embedding_fingerprint = cs_embedding_fingerprint r,
     cc_builder_versions = cs_builder_versions r, cc_last_package_id = cs_last_package_id r,
     cc_last_package_digest = cs_last_package_digest r\<rparr>) (bt_get (db_corpora s) corpus)"

record package_source =
  src_manifest :: "string \<Rightarrow> (remote_manifest signed, sync_error) result"
  src_baseline :: "baseline_ref \<Rightarrow> (string, sync_error) result"
  src_package :: "remote_package_entry \<Rightarrow> (string, sync_error) result"

text \<open>The directory implementation of the source.\<close>

definition directory_package_source ::
  "(string \<Rightarrow> string option) \<Rightarrow> (string \<Rightarrow> remote_manifest signed option) \<Rightarrow> directory_source \<Rightarrow> package_source" where
  "directory_package_source fs from_slice ds = \<lparr>src_manifest = ds_fetch_manifest fs from_slice ds,
     src_baseline = ds_fetch_baseline ds, src_package = ds_fetch_package ds\<rparr>"

section \<open>Binding an artifact to its remote digest\<close>

definition read_embedded_manifest :: "('k, 's) apply_env \<Rightarrow> string \<Rightarrow> (embedded_manifest, sync_error) result" where
  "read_embedded_manifest env artifact_dir =
     and_then (read_file env (manifest_path artifact_dir)) (\<lambda>bytes.
     and_then (ok_or (ae_parse_manifest env bytes) SyncJson) (\<lambda>signed.
     Inr (sd_payload signed)))"

definition verify_artifact_digest ::
  "('k, 's) apply_env \<Rightarrow> string \<Rightarrow> string \<Rightarrow> (unit, sync_error) result" where
  "verify_artifact_digest env artifact_dir expected_sha256 =
     and_then (read_embedded_manifest env artifact_dir) (\<lambda>manifest.
     if in_artifact_sha256 (em_integrity manifest) \<noteq> expected_sha256 then Inl (Reject DigestMismatch) else Inr ())"

definition apply_media_auto ::
  "('k, 's) apply_env \<Rightarrow> string \<Rightarrow> verifier \<Rightarrow> (baseline_apply_outcome, sync_error) dbact" where
  "apply_media_auto env artifact_dir verifier =
     bind_act (lift_res (read_embedded_manifest env artifact_dir)) (\<lambda>manifest.
     case id_package_kind (em_identity manifest) of
       Baseline \<Rightarrow> apply_baseline env artifact_dir verifier
     | Rebaseline \<Rightarrow> apply_rebaseline env artifact_dir verifier
     | Incremental \<Rightarrow> fail (Reject BaselineRequired))"

section \<open>Running a plan\<close>

datatype catchup_report =
    ReportUpToDate
  | ReportBaseline baseline_apply_outcome
  | ReportIncremental nat

text \<open>One round of the loop, and the loop over the rest of the chain.\<close>

definition apply_entry ::
  "('k, 's) apply_env \<Rightarrow> package_source \<Rightarrow> verifier \<Rightarrow> remote_package_entry \<Rightarrow> (incremental_apply_outcome, sync_error) dbact" where
  "apply_entry env source verifier entry =
     bind_act (lift_res (src_package source entry)) (\<lambda>dir.
     bind_act (lift_res (verify_artifact_digest env dir (re_sha256 entry))) (\<lambda>_.
     apply_incremental env dir verifier))"

fun apply_all :: "('k \<Rightarrow> ('s, 'o, 'e) action) \<Rightarrow> 'k list \<Rightarrow> nat \<Rightarrow> ('s, nat, 'e) action" where
  "apply_all f [] applied = ret applied"
| "apply_all f (k # ks) applied = bind_act (f k) (\<lambda>_. apply_all f ks (applied + 1))"

fun run_catchup ::
  "('k, 's) apply_env \<Rightarrow> package_source \<Rightarrow> verifier \<Rightarrow> catchup_plan \<Rightarrow> (catchup_report, sync_error) dbact" where
  "run_catchup env source verifier UpToDate = ret ReportUpToDate"
| "run_catchup env source verifier (Blocked code) = fail (Reject code)"
| "run_catchup env source verifier (FreshBaseline baseline) =
     bind_act (lift_res (src_baseline source baseline)) (\<lambda>dir.
     bind_act (lift_res (verify_artifact_digest env dir (br_sha256 baseline))) (\<lambda>_.
     bind_act (apply_media_auto env dir verifier) (\<lambda>outcome. ret (ReportBaseline outcome))))"
| "run_catchup env source verifier (IncrementalChain chain) =
     bind_act (apply_all (apply_entry env source verifier) chain 0) (\<lambda>applied. ret (ReportIncremental applied))"

section \<open>What an applier owes the loop\<close>

text \<open>
  An applier that is atomic (an error leaves the state as it was), keeps the state sound and never moves
  backwards.  Then the loop stops at the first refusal in the state the applied prefix left, and nothing
  is skipped.
\<close>

locale ordered_applier =
  fixes apply_one :: "'k \<Rightarrow> ('s, 'o, 'e) action"
    and sound :: "'s \<Rightarrow> bool"
    and before :: "'s \<Rightarrow> 's \<Rightarrow> bool"
  assumes before_refl: "before s s"
    and before_trans: "before s t \<Longrightarrow> before t u \<Longrightarrow> before s u"
    and refusal_unchanged: "sound s \<Longrightarrow> apply_one k s = (s', Inl e) \<Longrightarrow> s' = s"
    and success_forward: "sound s \<Longrightarrow> apply_one k s = (s', Inr out) \<Longrightarrow> sound s' \<and> before s s'"
begin

lemma loop_sound:
  "sound s \<Longrightarrow> apply_all apply_one ks n s = (s', r) \<Longrightarrow> sound s' \<and> before s s'"
proof (induction ks arbitrary: s n)
  case (Cons k ks)
  obtain t x where one: "apply_one k s = (t, x)" by fastforce
  show ?case
  proof (cases x)
    case (Inl e)
    with Cons.prems one refusal_unchanged [of s k t e] show ?thesis by (simp add: bind_act_def before_refl)
  next
    case (Inr out)
    with success_forward [OF Cons.prems(1), of k t out] one have "sound t" "before s t" by simp_all
    with Cons.IH [OF this(1), of "n + 1"] Cons.prems(2) one Inr show ?thesis
      by (auto simp: bind_act_def intro: before_trans)
  qed
qed (simp add: ret_def before_refl)

lemma loop_prefix:
  assumes "sound s" "apply_all apply_one ks n s = (s', r)"
  shows "\<exists>don rest. ks = don @ rest \<and> apply_all apply_one don n s = (s', Inr (n + length don))
    \<and> (if rest = [] then r = Inr (n + length ks) else \<exists>e. r = Inl e \<and> apply_one (hd rest) s' = (s', Inl e))"
  using assms
proof (induction ks arbitrary: s n)
  case Nil
  then show ?case by (simp add: ret_def)
next
  case (Cons k ks)
  obtain t x where one: "apply_one k s = (t, x)" by fastforce
  show ?case
  proof (cases x)
    case (Inl e)
    with Cons.prems one have "t = s" "s' = s" "r = Inl e"
      using refusal_unchanged [of s k t e] by (simp_all add: bind_act_def)
    with one Inl show ?thesis by (intro exI [of _ "[]"] exI [of _ "k # ks"]) (simp add: ret_def)
  next
    case (Inr out)
    with Cons.prems one have t: "sound t" and rest: "apply_all apply_one ks (n + 1) t = (s', r)"
      using success_forward [of s k t out] by (simp_all add: bind_act_def)
    from Cons.IH [OF t rest] obtain don rest' where "ks = don @ rest'"
      "apply_all apply_one don (n + 1) t = (s', Inr (n + 1 + length don))"
      "if rest' = [] then r = Inr (n + 1 + length ks) else \<exists>e. r = Inl e \<and> apply_one (hd rest') s' = (s', Inl e)"
      by blast
    with one Inr show ?thesis
      by (intro exI [of _ "k # don"] exI [of _ rest']) (auto simp: bind_act_def)
  qed
qed

end

section \<open>The incremental applier keeps the contract\<close>

lemma client_step_forward: "client_ok s \<Longrightarrow> client_step env s t \<Longrightarrow> client_ok t \<and> mirror_le (mirror s) (mirror t)"
  using client_step_effect [of env s t] mirror_step_le [of "mirror s" "mirror t"] by (simp add: client_ok_iff)

lemma apply_entry_Inr:
  "apply_entry env source v entry s = (s', Inr out) \<longleftrightarrow>
     (\<exists>dir. src_package source entry = Inr dir \<and> verify_artifact_digest env dir (re_sha256 entry) = Inr ()
        \<and> apply_incremental env dir v s = (s', Inr out))"
  by (auto simp: apply_entry_def action_simps lift_res_eq_Inr)

lemma apply_entry_Inl: "apply_entry env source v entry s = (s', Inl e) \<Longrightarrow> s' = s"
  by (auto simp: apply_entry_def action_simps lift_res_eq_Inr lift_res_eq_Inl dest: apply_incremental_Inl)

interpretation chain_loop: ordered_applier "apply_entry env source v" client_ok "\<lambda>s t. mirror_le (mirror s) (mirror t)"
  for env source v
proof unfold_locales
  fix s k s' out
  assume ok: "client_ok s" and run: "apply_entry env source v k s = (s', Inr out)"
  then obtain dir where "apply_incremental env dir v s = (s', Inr out)" by (auto simp: apply_entry_Inr)
  then show "client_ok s' \<and> mirror_le (mirror s) (mirror s')"
    using client_step_forward [OF ok incremental_client_step [of env s dir v]] by simp
qed (auto intro: mirror_le_refl mirror_le_trans dest: apply_entry_Inl)

text \<open>
  C18.  A catch-up run stops at the first refusal and skips nothing: its final state is exactly the one
  the applied prefix of the chain left, the count it reports is the whole chain's, and an error is the
  error of the first package not applied, refused in that very state.
\<close>

theorem catchup_stops_at_first_refusal:
  assumes "client_ok s" and "run_catchup env source v (IncrementalChain chain) s = (s', result)"
  shows "client_ok s' \<and> (\<exists>don rest. chain = don @ rest
    \<and> apply_all (apply_entry env source v) don 0 s = (s', Inr (length don))
    \<and> (if rest = [] then result = Inr (ReportIncremental (length chain))
       else \<exists>e. result = Inl e \<and> apply_entry env source v (hd rest) s' = (s', Inl e)))"
proof -
  obtain r where loop: "apply_all (apply_entry env source v) chain 0 s = (s', r)"
    and result: "result = map_sum id ReportIncremental r"
    using assms(2) by (auto simp: bind_act_def ret_def split: prod.splits sum.splits)
  from chain_loop.loop_prefix [OF assms(1) loop] obtain don rest where
    parts: "chain = don @ rest" "apply_all (apply_entry env source v) don 0 s = (s', Inr (length don))"
    and r: "if rest = [] then r = Inr (length chain) else \<exists>e. r = Inl e \<and> apply_entry env source v (hd rest) s' = (s', Inl e)"
    by auto
  have "if rest = [] then result = Inr (ReportIncremental (length chain))
      else \<exists>e. result = Inl e \<and> apply_entry env source v (hd rest) s' = (s', Inl e)"
    using r by (cases "rest = []") (auto simp: result)
  moreover have "client_ok s'" using chain_loop.loop_sound [OF assms(1) loop] by blast
  ultimately show ?thesis using parts by blast
qed

section \<open>Reaching the head\<close>

definition client_sequence :: "db \<Rightarrow> string \<Rightarrow> u64 option" where
  "client_sequence s corpus = map_option cc_sequence (read_client_cursor s corpus)"

lemma client_sequence_row: "client_sequence s corpus = map_option (\<lambda>r. u64_or_zero (cs_sequence r)) (bt_get (db_corpora s) corpus)"
  by (simp add: client_sequence_def read_client_cursor_def option.map_comp comp_def)

text \<open>
  The producer's side of the bargain: an authentic artifact fetched for an entry of the remote manifest is
  for the manifest's corpus and leads where the entry says.
\<close>

definition describes_artifacts ::
  "('k, 's) apply_env \<Rightarrow> package_source \<Rightarrow> verifier \<Rightarrow> remote_manifest \<Rightarrow> bool" where
  "describes_artifacts env source v m \<longleftrightarrow>
     (\<forall>e\<in>set (rm_packages m). \<forall>dir em. src_package source e = Inr dir \<longrightarrow> read_signed_manifest env dir v = Inr em \<longrightarrow>
        corpus_of em = corpus_as_str (rm_corpus m) \<and> ap_result_sequence (em_apply em) = re_to_sequence e)
     \<and> (\<forall>dir em. src_baseline source (rm_active_baseline m) = Inr dir \<longrightarrow> read_signed_manifest env dir v = Inr em \<longrightarrow>
        corpus_of em = corpus_as_str (rm_corpus m) \<and> ap_result_sequence (em_apply em) = br_sequence (rm_active_baseline m))"

lemma apply_entry_advances:
  assumes ok: "client_ok s" and run: "apply_entry env source v e s = (s', Inr out)"
    and honest: "describes_artifacts env source v m" "e \<in> set (rm_packages m)"
    and pos: "client_sequence s (corpus_as_str (rm_corpus m)) = Some current"
    and to: "ps_get (re_to_sequence e) = current + 1" "uint (current + 1) \<le> i64_max"
  shows "client_sequence s' (corpus_as_str (rm_corpus m)) = Some (current + 1)"
proof -
  from run obtain dir where dir: "src_package source e = Inr dir" and app: "apply_incremental env dir v s = (s', Inr out)"
    by (auto simp: apply_entry_Inr)
  have bt: "bt_ok (db_corpora s)" using ok by (simp add: client_ok_def topology_ok_def)
  note cases = apply_incremental_cases [where env = env and dir = dir and v = v and s = s, unfolded app prod.case sum.case]
  show ?thesis
  proof (cases out)
    case (IncrementalAlreadyApplied c q)
    with cases obtain em r where "read_signed_manifest env dir v = Inr em" "c = corpus_of em"
      "q = ps_get (ap_result_sequence (em_apply em))" "bt_get (db_corpora s) c = Some r" "u64_or_zero (cs_sequence r) = q"
      by auto
    with honest dir pos to(1) have "current + 1 = current"
      by (auto simp: describes_artifacts_def client_sequence_row)
    then show ?thesis by simp
  next
    case (IncrementalApplied c q n)
    with cases obtain em r sch stamp where em: "read_signed_manifest env dir v = Inr em" "c = corpus_of em"
      and s': "s' = advanced_db em c r (Some sch) stamp s" by auto
    from honest dir em have "c = corpus_as_str (rm_corpus m)" "ap_result_sequence (em_apply em) = re_to_sequence e"
      by (auto simp: describes_artifacts_def)
    then show ?thesis
      using to by (simp add: client_sequence_row s' bt_get_insert [OF bt] advanced_row_def u64_or_zero_i64_saturating)
  qed
qed

lemma chain_advances:
  assumes "client_ok s" "describes_artifacts env source v m" "linked_chain m current chain"
    and "client_sequence s (corpus_as_str (rm_corpus m)) = Some current"
    and "unat current + length chain = unat head" "uint head \<le> i64_max"
    and "apply_all (apply_entry env source v) chain n s = (s', Inr k)"
  shows "client_sequence s' (corpus_as_str (rm_corpus m)) = Some head"
  using assms
proof (induction chain arbitrary: s current n)
  case Nil
  then have "current = head" by (simp add: word_unat_eq_iff)
  with Nil show ?case by (simp add: ret_def)
next
  case (Cons e chain)
  from Cons.prems(7) obtain t out where one: "apply_entry env source v e s = (t, Inr out)"
    and rest: "apply_all (apply_entry env source v) chain (n + 1) t = (s', Inr k)"
    by (auto simp: action_simps)
  from Cons.prems(3) have only: "filter (\<lambda>p. ps_get (re_from_sequence p) = current) (rm_packages m) = [e]"
    and to: "ps_get (re_to_sequence e) = current + 1" and link: "linked_chain m (current + 1) chain"
    by simp_all
  have "e \<in> set (filter (\<lambda>p. ps_get (re_from_sequence p) = current) (rm_packages m))" unfolding only by simp
  then have e: "e \<in> set (rm_packages m)" by (simp only: set_filter mem_Collect_eq)
  have lt: "unat current < unat head" using Cons.prems(5) by simp
  then have next': "unat (current + 1) = Suc (unat current)"
    by (intro word_less_imp_Suc_le [of _ head]) (simp add: word_less_nat_alt)
  from lt have "current + 1 \<le> head" by (intro word_less_inc_le) (simp add: word_less_nat_alt)
  then have "uint (current + 1) \<le> uint head" by (simp only: word_le_def)
  then have bound: "uint (current + 1) \<le> i64_max" using Cons.prems(6) by linarith
  from apply_entry_advances [OF Cons.prems(1) one Cons.prems(2) e Cons.prems(4) to bound]
  have pos: "client_sequence t (corpus_as_str (rm_corpus m)) = Some (current + 1)" .
  have ok: "client_ok t" using chain_loop.success_forward [OF Cons.prems(1) one] by blast
  from Cons.IH [OF ok Cons.prems(2) link pos _ Cons.prems(6) rest] Cons.prems(5) next' show ?case by simp
qed


lemma read_signed_embedded:
  "read_signed_manifest env dir v = Inr m \<Longrightarrow> read_embedded_manifest env dir = Inr m"
  by (auto simp: read_signed_manifest_def read_embedded_manifest_def result_simps)

lemma apply_media_auto_Inr:
  "apply_media_auto env dir v s = (s', Inr out) \<longleftrightarrow>
     (\<exists>m mode. read_embedded_manifest env dir = Inr m \<and> id_package_kind (em_identity m) = expected_kind mode
        \<and> apply_media_package env dir v mode s = (s', Inr out))"
proof (cases "read_embedded_manifest env dir")
  case (Inr m)
  have "(\<exists>mode. id_package_kind (em_identity m) = expected_kind mode \<and> P mode) \<longleftrightarrow>
      (case id_package_kind (em_identity m) of Baseline \<Rightarrow> P BaselineMode | Rebaseline \<Rightarrow> P RebaselineMode
       | Incremental \<Rightarrow> False)" for P
    by (cases "id_package_kind (em_identity m)"; simp; metis expected_kind.simps media_apply_mode.exhaust package_kind.distinct)
  with Inr show ?thesis
    by (simp add: apply_media_auto_def action_simps lift_res_eq_Inr apply_baseline_def apply_rebaseline_def fail_def
        split: package_kind.splits)
qed (simp add: apply_media_auto_def action_simps lift_res_eq_Inr)

lemma fresh_baseline_plan:
  assumes "plan_catchup m c = FreshBaseline b"
  shows "b = rm_active_baseline m \<and> br_sequence b \<le> rm_head_sequence m
    \<and> (case c of None \<Rightarrow> True | Some c \<Rightarrow> cc_sequence c < ps_get (br_sequence b))"
proof (cases c)
  case None
  with assms show ?thesis
    by (auto simp: plan_catchup_def Let_def plan_cases not_less less_eq_package_sequence_def split: if_splits)
next
  case (Some cur)
  with plan_fresh_baseline [OF assms [unfolded Some]] show ?thesis by auto
qed

lemma media_auto_lands:
  assumes ok: "client_ok s" and run: "apply_media_auto env dir v s = (s', Inr out)"
    and em: "\<And>em. read_signed_manifest env dir v = Inr em \<Longrightarrow> corpus_of em = corpus \<and> ps_get (ap_result_sequence (em_apply em)) = q"
    and q: "uint q \<le> i64_max"
  shows "client_ok s' \<and> mirror_le (mirror s) (mirror s') \<and> client_sequence s' corpus = Some q"
proof -
  from run obtain mode where app: "apply_media_package env dir v mode s = (s', Inr out)"
    by (auto simp: apply_media_auto_Inr)
  have top: "topology_ok s" using ok by (simp add: client_ok_def)
  note cases = apply_media_cases [OF top app, unfolded sum.case]
  have "client_sequence s' corpus = Some q"
  proof (cases out)
    case (MediaAlreadyApplied c q')
    with cases have same: "s'\<lparr>db_manifest := db_manifest s\<rparr> = s" by simp
    from MediaAlreadyApplied cases em show ?thesis
      by (auto simp: client_sequence_row only_manifest(1) [OF same])
  next
    case (MediaApplied c g q' report)
    with cases em show ?thesis
      by (auto simp: client_sequence_row stamped_row_def media_stamps_def u64_or_zero_i64_saturating [OF q])
  qed
  then show ?thesis using client_step_forward [OF ok media_client_step [of env s dir v mode]] app by simp
qed

text \<open>The effect of one successful run of the planner's plan.\<close>

definition lands :: "remote_manifest \<Rightarrow> db \<Rightarrow> db \<Rightarrow> catchup_report \<Rightarrow> bool" where
  "lands m s s' report \<longleftrightarrow>
     (let corpus = corpus_as_str (rm_corpus m); head = ps_get (rm_head_sequence m) in
      case report of
        ReportUpToDate \<Rightarrow> s' = s \<and> client_sequence s corpus = Some head
      | ReportIncremental n \<Rightarrow> client_sequence s' corpus = Some head
          \<and> (\<exists>c. client_sequence s corpus = Some c \<and> unat c + n = unat head \<and> n > 0)
      | ReportBaseline _ \<Rightarrow> client_sequence s' corpus = Some (ps_get (br_sequence (rm_active_baseline m)))
          \<and> ps_get (br_sequence (rm_active_baseline m)) \<le> head
          \<and> (\<forall>c. client_sequence s corpus = Some c \<longrightarrow> c < ps_get (br_sequence (rm_active_baseline m))))"

lemma apply_all_count: "apply_all f ks n s = (s', Inr k) \<Longrightarrow> k = n + length ks"
  by (induction ks arbitrary: n s) (fastforce simp: action_simps)+

lemma run_catchup_lands:
  assumes ok: "client_ok s" and honest: "describes_artifacts env source v m"
    and head: "uint (ps_get (rm_head_sequence m)) \<le> i64_max"
    and plan: "plan = plan_catchup m (read_client_cursor s (corpus_as_str (rm_corpus m)))"
    and run: "run_catchup env source v plan s = (s', Inr report)"
  shows "client_ok s' \<and> mirror_le (mirror s) (mirror s') \<and> lands m s s' report"
proof -
  let ?c = "corpus_as_str (rm_corpus m)" and ?h = "ps_get (rm_head_sequence m)"
  show ?thesis
  proof (cases plan)
    case UpToDate
    with run have "s' = s" "report = ReportUpToDate" by (simp_all add: ret_def)
    moreover from UpToDate plan have "client_sequence s ?c = Some ?h"
      by (auto simp: plan_catchup_def Let_def plan_cases client_sequence_def split: if_splits option.splits catchup_plan.splits)
    ultimately show ?thesis using ok by (simp add: lands_def mirror_le_refl Let_def)
  next
    case (Blocked code)
    with run show ?thesis by (simp add: fail_def)
  next
    case (FreshBaseline b)
    from fresh_baseline_plan [OF plan [unfolded FreshBaseline, symmetric]]
    have b: "b = rm_active_baseline m" "br_sequence b \<le> rm_head_sequence m"
      and below: "\<forall>c. client_sequence s ?c = Some c \<longrightarrow> c < ps_get (br_sequence b)"
      by (auto simp: client_sequence_def split: option.splits)
    from run obtain dir out where dir: "src_baseline source b = Inr dir" and app: "apply_media_auto env dir v s = (s', Inr out)"
      and report: "report = ReportBaseline out"
      by (auto simp: FreshBaseline action_simps lift_res_eq_Inr)
    have "uint (ps_get (br_sequence b)) \<le> i64_max"
      using b(2) head by (simp add: less_eq_package_sequence_def word_le_def)
    from media_auto_lands [OF ok app _ this, of ?c] honest dir b(1)
    have "client_ok s' \<and> mirror_le (mirror s) (mirror s') \<and> client_sequence s' ?c = Some (ps_get (br_sequence b))"
      by (auto simp: describes_artifacts_def)
    then show ?thesis using below b by (simp add: lands_def report Let_def less_eq_package_sequence_def)
  next
    case (IncrementalChain chain)
    then obtain cur where cur: "read_client_cursor s ?c = Some cur"
      using plan by (auto simp: plan_catchup_def Let_def plan_cases split: option.splits if_splits)
    from plan [unfolded IncrementalChain cur, symmetric, unfolded plan_chain_iff]
    have link: "linked_chain m (cc_sequence cur) chain" "unat (cc_sequence cur) + length chain = unat ?h"
      "cc_sequence cur < ?h" by simp_all
    have pos: "client_sequence s ?c = Some (cc_sequence cur)" by (simp add: client_sequence_def cur)
    from run obtain k where loop: "apply_all (apply_entry env source v) chain 0 s = (s', Inr k)"
      and report: "report = ReportIncremental k"
      by (auto simp: IncrementalChain action_simps)
    have k: "k = length chain" using apply_all_count [OF loop] by simp
    have "k > 0" using link(2,3) by (cases chain) (auto simp: k word_less_nat_alt)
    then show ?thesis
      using chain_advances [OF ok honest link(1) pos link(2) head loop] chain_loop.loop_sound [OF ok loop] link(2) pos
      by (simp add: lands_def report k Let_def)
  qed
qed


text \<open>
  C12.  Catch-up reaches the head.  With a source whose artifacts are what the manifest says, a run of the
  planner's own plan that reports success leaves the corpus at the signed head after exactly the missing
  number of packages, or at the active baseline, which lies above the old cursor and not above the head;
  it reports that nothing was due only at the head.
\<close>

theorem catchup_reaches_head:
  assumes "client_ok s" and "describes_artifacts env source v m"
    and "uint (ps_get (rm_head_sequence m)) \<le> i64_max"
    and "run_catchup env source v (plan_catchup m (read_client_cursor s (corpus_as_str (rm_corpus m)))) s = (s', Inr report)"
  shows "client_ok s' \<and> lands m s s' report"
  using run_catchup_lands [OF assms(1-3) refl assms(4)] by blast

section \<open>A run on the small client\<close>

definition sample_signature :: signature where
  "sample_signature = sd_signature sample_token_doc"

definition sample_entry :: remote_package_entry where
  "sample_entry = \<lparr>re_package_id = ''p8'', re_from_sequence = PackageSequence 7, re_to_sequence = PackageSequence 8,
     re_artifact_uri = ''core/packages/p8'', re_compressed_size_bytes = 1, re_uncompressed_size_bytes = 1,
     re_estimated_apply_seconds = 1, re_row_counts = [], re_requires_baseline = False,
     re_minimum_client_version = Version 0 1 0, re_schema_version = 24, re_embedding_fingerprint = ''fp'',
     re_builder_versions = [], re_sha256 = ''sha256:'', re_signature = sample_signature\<rparr>"

definition sample_baseline_ref :: baseline_ref where
  "sample_baseline_ref = \<lparr>br_baseline_id = ''b1'', br_generation = ''core_g0001'', br_package_kind = Baseline,
     br_sequence = PackageSequence 5, br_schema_version = 24, br_minimum_client_version = Version 0 1 0,
     br_artifact_uri = ''core/packages/b1'', br_compressed_size_bytes = 10, br_uncompressed_size_bytes = 10,
     br_estimated_load_seconds = 10, br_sha256 = ''sha256:b'', br_signature = sample_signature\<rparr>"


definition sample_remote :: remote_manifest where
  "sample_remote = \<lparr>rm_manifest_version = 1, rm_generated_at = ''2026'', rm_publisher = ''jurisearch'',
     rm_corpus = Corpus ''core'', rm_environment = ''prod'', rm_head_sequence = PackageSequence 8,
     rm_min_available_sequence = PackageSequence 5, rm_active_baseline = sample_baseline_ref,
     rm_packages = [sample_entry], rm_catchup_ranges = [],
     rm_catchup_policy = \<lparr>cp_max_incremental_packages = 30, cp_max_diff_permille = 400,
       cp_max_uncompressed_permille = 600, cp_max_apply_seconds_budget = 900\<rparr>,
     rm_entitlement = \<lparr>el_corpus = Corpus ''core'', el_tier = OpenTier, el_license_epoch = 1, el_audience = None\<rparr>,
     rm_signing = \<lparr>si_key_id = ''producer'', si_algorithm = ''ed25519''\<rparr>\<rparr>"

definition sample_source :: package_source where
  "sample_source = \<lparr>src_manifest = (\<lambda>c. Inr \<lparr>sd_payload = sample_remote, sd_signature = sample_signature\<rparr>),
     src_baseline = (\<lambda>b. Inl SyncIo), src_package = (\<lambda>e. Inr ''pkg'')\<rparr>"

lemma sample_plan: "plan_catchup sample_remote (read_client_cursor sample_db ''core'') = IncrementalChain [sample_entry]"
  by code_simp

lemma sample_caught_up:
  "snd (run_catchup (sample_env sample_incremental) sample_source accept_all_verify_bytes (IncrementalChain [sample_entry])
     sample_db) = Inr (ReportIncremental 1)"
proof -
  have "verify_artifact_digest (sample_env sample_incremental) ''pkg'' (re_sha256 sample_entry) = Inr ()" by code_simp
  moreover have "src_package sample_source sample_entry = Inr ''pkg''" by (simp add: sample_source_def)
  moreover obtain t where
    "apply_incremental (sample_env sample_incremental) ''pkg'' accept_all_verify_bytes sample_db = (t, Inr (IncrementalApplied ''core'' 8 1))"
    using sample_incremental_applied by (metis prod.collapse)
  ultimately show ?thesis by (simp add: apply_entry_def bind_act_def lift_res_def ret_def)
qed

lemma sample_describes:
  "describes_artifacts (sample_env sample_incremental) sample_source accept_all_verify_bytes sample_remote"
proof -
  have "read_signed_manifest (sample_env sample_incremental) ''pkg'' accept_all_verify_bytes = Inr em \<longleftrightarrow>
      em = sample_incremental" for em
  proof -
    have "read_signed_manifest (sample_env sample_incremental) ''pkg'' accept_all_verify_bytes = Inr sample_incremental"
      by code_simp
    then show ?thesis by auto
  qed
  moreover have "corpus_of sample_incremental = ''core''"
    "ap_result_sequence (em_apply sample_incremental) = PackageSequence 8" by code_simp+
  ultimately show ?thesis
    by (simp add: describes_artifacts_def sample_source_def sample_remote_def sample_entry_def)
qed

definition sample_caught :: "db \<times> (catchup_report, sync_error) result" where
  "sample_caught = run_catchup (sample_env sample_incremental) sample_source accept_all_verify_bytes
     (IncrementalChain [sample_entry]) sample_db"

lemma sample_caught_run:
  "run_catchup (sample_env sample_incremental) sample_source accept_all_verify_bytes (IncrementalChain [sample_entry])
     sample_db = (fst sample_caught, Inr (ReportIncremental 1))"
  using sample_caught_up unfolding sample_caught_def by (metis prod.collapse)

lemma catchup_stops_at_first_refusal_witness:
  "apply_all (apply_entry (sample_env sample_incremental) sample_source accept_all_verify_bytes) [sample_entry] 0 sample_db
     = (fst sample_caught, Inr 1)"
proof -
  from catchup_stops_at_first_refusal [OF sample_client_ok sample_caught_run] obtain don rest where
    "[sample_entry] = don @ rest" "rest = []"
    "apply_all (apply_entry (sample_env sample_incremental) sample_source accept_all_verify_bytes) don 0 sample_db
       = (fst sample_caught, Inr (length don))"
    by (auto simp del: apply_all.simps split: if_splits)
  then show ?thesis by (metis append_Nil2 length_Cons list.size(3) One_nat_def)
qed

lemma catchup_reaches_head_witness: "client_sequence (fst sample_caught) ''core'' = Some 8"
proof -
  have m: "corpus_as_str (rm_corpus sample_remote) = ''core''" "ps_get (rm_head_sequence sample_remote) = 8"
    by (simp_all add: sample_remote_def)
  have "lands sample_remote sample_db (fst sample_caught) (ReportIncremental 1)"
    using catchup_reaches_head [OF sample_client_ok sample_describes, of "fst sample_caught" "ReportIncremental 1"]
      sample_caught_run
    by (simp add: m sample_plan i64_max_def del: run_catchup.simps)
  then show ?thesis by (simp add: lands_def m Let_def)
qed

end
