(* ===== verification/Daemon.thy ===== *)
theory Daemon
  imports Catchup
begin

text \<open>
  The \<open>syncd\<close> daemon (\<open>syncd/daemon.rs\<close>): classification of a cycle, the guard before every apply, the
  burst per corpus, the backoff and the loop.  The world the daemon looks at (shutdown token, lock lease,
  file system, source) is a parameter indexed by the number of observations made so far; the log records
  every corpus cycle.
\<close>

section \<open>Shutdown\<close>

text \<open>
  The token is a flag that is only ever set.  \<open>wait_timeout\<close> returns whether the flag is set when it
  wakes: at once when it was set, else when the wait ends by a request or by the timeout.
\<close>

type_synonym shutdown_token = bool

definition shutdown_new :: shutdown_token where
  "shutdown_new = False"

definition shutdown_request :: "shutdown_token \<Rightarrow> shutdown_token" where
  "shutdown_request token = True"

definition shutdown_is_requested :: "shutdown_token \<Rightarrow> bool" where
  "shutdown_is_requested token = token"

definition shutdown_wait_timeout :: "shutdown_token \<Rightarrow> shutdown_token \<Rightarrow> bool" where
  "shutdown_wait_timeout requested requested_at_wake = (if requested then True else requested_at_wake)"

section \<open>Classifying a cycle\<close>

datatype cycle_outcome = CycleProgress | CycleUpToDate | CycleRetryable | CycleRejected reject_code

fun classify :: "(catchup_report, sync_error) result \<Rightarrow> cycle_outcome" where
  "classify (Inr ReportUpToDate) = CycleUpToDate"
| "classify (Inr (ReportBaseline _)) = CycleProgress"
| "classify (Inr (ReportIncremental _)) = CycleProgress"
| "classify (Inl error) =
     (if is_retryable error then CycleRetryable
      else case error of Reject code \<Rightarrow> CycleRejected code | _ \<Rightarrow> CycleRetryable)"

fun outcome_label :: "cycle_outcome \<Rightarrow> string" where
  "outcome_label CycleProgress = ''progress''"
| "outcome_label CycleUpToDate = ''up_to_date''"
| "outcome_label CycleRetryable = ''retryable''"
| "outcome_label (CycleRejected code) = ''rejected''"

datatype pre_apply = Proceed | Shutdown | LeaseLost

definition check_before_apply :: "bool \<Rightarrow> bool \<Rightarrow> pre_apply" where
  "check_before_apply requested lock_alive =
     (if requested then Shutdown else if \<not> lock_alive then LeaseLost else Proceed)"

text \<open>One cycle: everything that can fail is inside it.\<close>

definition run_corpus_cycle ::
  "('k, 's) apply_env \<Rightarrow> remote_manifest codec \<Rightarrow> package_source \<Rightarrow> string \<Rightarrow> (catchup_report, sync_error) dbact" where
  "run_corpus_cycle env cd source corpus =
     bind_act (\<lambda>s. (s, load_package_verifier (ae_trust env) s)) (\<lambda>verifier.
     bind_act (lift_res (fetch_verify_manifest (src_manifest source) verifier cd corpus)) (\<lambda>manifest.
     bind_act (gets (\<lambda>s. read_client_cursor s corpus)) (\<lambda>cursor.
     run_catchup env source verifier (plan_catchup manifest cursor))))"

section \<open>The loop\<close>

text \<open>Durations are in milliseconds.\<close>

record daemon_config =
  dc_corpora :: "string list"
  dc_poll_interval :: nat
  dc_min_backoff :: nat
  dc_max_backoff :: nat
  dc_max_burst :: u32

definition default_daemon_config :: daemon_config where
  "default_daemon_config = \<lparr>dc_corpora = [], dc_poll_interval = 30000, dc_min_backoff = 2000,
     dc_max_backoff = 300000, dc_max_burst = 16\<rparr>"

record ('k, 's) daemon_world =
  dw_requested :: "nat \<Rightarrow> bool"
  dw_alive :: "nat \<Rightarrow> bool"
  dw_env :: "nat \<Rightarrow> ('k, 's) apply_env"
  dw_source :: "nat \<Rightarrow> package_source"
  dw_codec :: "remote_manifest codec"

record daemon_state =
  ds_db :: db
  ds_now :: nat
  ds_log :: "(nat \<times> string \<times> cycle_outcome) list"
  ds_sleeps :: "nat list"

text \<open>How a pass ends: it goes on, with whether a transient fault was seen, or the daemon returns.\<close>

datatype pass_end = GoOn bool | Return "(unit, sync_error) result"

fun corpus_bursts ::
  "('k, 's) daemon_world \<Rightarrow> string \<Rightarrow> nat \<Rightarrow> daemon_state \<Rightarrow> daemon_state \<times> pass_end" where
  "corpus_bursts w corpus 0 st = (st, GoOn False)"
| "corpus_bursts w corpus (Suc n) st =
     (let t = ds_now st in
      case check_before_apply (dw_requested w t) (dw_alive w t) of
        Shutdown \<Rightarrow> (st, Return (Inr ()))
      | LeaseLost \<Rightarrow> (st, Return (Inl (Reject WrongGeneration)))
      | Proceed \<Rightarrow>
          let (s', result) = run_corpus_cycle (dw_env w t) (dw_codec w) (dw_source w t) corpus (ds_db st);
              outcome = classify result;
              st' = st\<lparr>ds_db := s', ds_now := t + 1, ds_log := ds_log st @ [(t, corpus, outcome)]\<rparr>
          in case outcome of
               CycleProgress \<Rightarrow> corpus_bursts w corpus n st'
             | CycleUpToDate \<Rightarrow> (st', GoOn False)
             | CycleRetryable \<Rightarrow> (st', GoOn True)
             | CycleRejected _ \<Rightarrow> (st', GoOn False))"

fun corpora_pass ::
  "('k, 's) daemon_world \<Rightarrow> nat \<Rightarrow> string list \<Rightarrow> bool \<Rightarrow> daemon_state \<Rightarrow> daemon_state \<times> pass_end" where
  "corpora_pass w bursts [] any_retryable st = (st, GoOn any_retryable)"
| "corpora_pass w bursts (corpus # rest) any_retryable st =
     (case corpus_bursts w corpus bursts st of
        (st', Return r) \<Rightarrow> (st', Return r)
      | (st', GoOn retryable) \<Rightarrow> corpora_pass w bursts rest (any_retryable \<or> retryable) st')"

definition next_sleep :: "daemon_config \<Rightarrow> bool \<Rightarrow> nat \<Rightarrow> nat \<times> nat" where
  "next_sleep config any_retryable backoff =
     (if any_retryable then (backoff, min (backoff * 2) (dc_max_backoff config))
      else (dc_poll_interval config, dc_min_backoff config))"

text \<open>The loop with fuel: \<open>None\<close> when the daemon is still running after that many passes.\<close>

fun daemon_loop ::
  "('k, 's) daemon_world \<Rightarrow> daemon_config \<Rightarrow> nat \<Rightarrow> nat \<Rightarrow> daemon_state \<Rightarrow> (daemon_state \<times> (unit, sync_error) result) option" where
  "daemon_loop w config 0 backoff st = None"
| "daemon_loop w config (Suc fuel) backoff st =
     (case corpora_pass w (unat (max (dc_max_burst config) 1)) (dc_corpora config) False st of
        (st', Return r) \<Rightarrow> Some (st', r)
      | (st', GoOn any_retryable) \<Rightarrow>
          let (sleep, backoff') = next_sleep config any_retryable backoff;
              t = ds_now st';
              st'' = st'\<lparr>ds_now := t + 1, ds_sleeps := ds_sleeps st' @ [sleep]\<rparr>
          in if shutdown_wait_timeout (dw_requested w t) (dw_requested w (t + 1)) then Some (st'', Inr ())
             else daemon_loop w config fuel backoff' st'')"

definition run_daemon ::
  "('k, 's) daemon_world \<Rightarrow> daemon_config \<Rightarrow> nat \<Rightarrow> db \<Rightarrow> (daemon_state \<times> (unit, sync_error) result) option" where
  "run_daemon w config fuel s =
     daemon_loop w config fuel (dc_min_backoff config) \<lparr>ds_db = s, ds_now = 0, ds_log = [], ds_sleeps = []\<rparr>"

section \<open>Status\<close>

definition corpus_status :: "db \<Rightarrow> (string \<times> corpus_row) list" where
  "corpus_status s = db_corpora s"

section \<open>A cycle keeps the client sound\<close>

text \<open>Nothing the daemon runs can hurt the client, whatever the source serves.\<close>

definition forward :: "db \<Rightarrow> db \<Rightarrow> bool" where
  "forward s t \<longleftrightarrow> (client_ok s \<longrightarrow> client_ok t \<and> mirror_le (mirror s) (mirror t))"

lemma reflp_forward [simp, keeps_intros]: "reflp forward"
  by (simp add: reflp_def forward_def mirror_le_refl)

lemma transp_forward [simp, keeps_intros]: "transp forward"
  by (auto simp: transp_def forward_def intro: mirror_le_trans)

lemma forward_pure [keeps_intros]: "keeps forward (\<lambda>s. (s, f s))"
  by (simp add: keeps_def forward_def mirror_le_refl)

lemma forward_step: "client_step env s t \<Longrightarrow> forward s t"
  by (simp add: forward_def client_step_forward)

lemma forward_incremental [keeps_intros]: "keeps forward (apply_incremental env dir v)"
  unfolding keeps_def using forward_step [OF incremental_client_step] by blast

lemma forward_media [keeps_intros]: "keeps forward (apply_media_package env dir v mode)"
  unfolding keeps_def using forward_step [OF media_client_step] by blast

lemma forward_media_auto [keeps_intros]: "keeps forward (apply_media_auto env dir v)"
proof -
  have "keeps forward (case k of Baseline \<Rightarrow> apply_baseline env dir v | Rebaseline \<Rightarrow> apply_rebaseline env dir v
      | Incremental \<Rightarrow> fail (Reject BaselineRequired))" for k
    by (cases k) (auto simp: apply_baseline_def apply_rebaseline_def intro: keeps_intros)
  then show ?thesis unfolding apply_media_auto_def by (intro keeps_intros)
qed

lemma keeps_apply_all [keeps_intros]:
  assumes "reflp R" "transp R" "\<And>k. keeps R (f k)"
  shows "keeps R (apply_all f ks n)"
  by (induction ks arbitrary: n) (auto intro!: keeps_intros assms)

lemma forward_entry [keeps_intros]: "keeps forward (apply_entry env source v entry)"
  unfolding apply_entry_def by (intro keeps_intros)

lemma forward_run_catchup [keeps_intros]: "keeps forward (run_catchup env source v plan)"
  by (cases plan; simp; intro keeps_intros)

lemma forward_cycle: "keeps forward (run_corpus_cycle env cd source corpus)"
  unfolding run_corpus_cycle_def by (intro keeps_intros)

section \<open>Passes\<close>

definition logged :: "nat \<times> string \<times> cycle_outcome \<Rightarrow> string" where
  "logged e = fst (snd e)"

definition logged_outcome :: "nat \<times> string \<times> cycle_outcome \<Rightarrow> cycle_outcome" where
  "logged_outcome e = snd (snd e)"

lemma logged_simps [simp]: "logged (t, c, out) = c" "logged_outcome (t, c, out) = out"
  by (simp_all add: logged_def logged_outcome_def)

text \<open>One round of a burst that goes on.\<close>

lemma burst_round:
  assumes "corpus_bursts w corpus (Suc n) st = (st', e)"
  shows "(st' = st \<and> (\<exists>r. e = Return r
            \<and> (r = Inr () \<and> dw_requested w (ds_now st)
               \<or> r = Inl (Reject WrongGeneration) \<and> \<not> dw_requested w (ds_now st) \<and> \<not> dw_alive w (ds_now st))))
    \<or> (\<not> dw_requested w (ds_now st) \<and> dw_alive w (ds_now st)
       \<and> (\<exists>s' result st1. run_corpus_cycle (dw_env w (ds_now st)) (dw_codec w) (dw_source w (ds_now st)) corpus (ds_db st)
              = (s', result)
           \<and> st1 = st\<lparr>ds_db := s', ds_now := ds_now st + 1,
                 ds_log := ds_log st @ [(ds_now st, corpus, classify result)]\<rparr>
           \<and> (if classify result = CycleProgress then corpus_bursts w corpus n st1 = (st', e)
              else st' = st1 \<and> e = GoOn (classify result = CycleRetryable))))"
proof -
  obtain s' result where run: "run_corpus_cycle (dw_env w (ds_now st)) (dw_codec w) (dw_source w (ds_now st)) corpus (ds_db st)
      = (s', result)" by fastforce
  show ?thesis
  proof (cases "check_before_apply (dw_requested w (ds_now st)) (dw_alive w (ds_now st))")
    case Proceed
    then have "\<not> dw_requested w (ds_now st)" "dw_alive w (ds_now st)"
      by (simp_all add: check_before_apply_def split: if_splits)
    with assms run Proceed show ?thesis by (cases "classify result") (auto simp: Let_def)
  next
    case Shutdown
    then have "dw_requested w (ds_now st)" by (simp add: check_before_apply_def split: if_splits)
    with assms Shutdown show ?thesis by (auto simp: Let_def)
  next
    case LeaseLost
    then have "\<not> dw_requested w (ds_now st)" "\<not> dw_alive w (ds_now st)"
      by (simp_all add: check_before_apply_def split: if_splits)
    with assms LeaseLost show ?thesis by (auto simp: Let_def)
  qed
qed

text \<open>What a run from one state to another observed, and what it left.\<close>

definition observed :: "('k, 's) daemon_world \<Rightarrow> string set \<Rightarrow> daemon_state \<Rightarrow> daemon_state \<Rightarrow> bool" where
  "observed w corpora st st' \<longleftrightarrow>
     forward (ds_db st) (ds_db st') \<and> ds_now st \<le> ds_now st' \<and>
     (\<exists>new. ds_log st' = ds_log st @ new
       \<and> (\<forall>(t, c, out)\<in>set new. ds_now st \<le> t \<and> t < ds_now st' \<and> c \<in> corpora \<and> \<not> dw_requested w t \<and> dw_alive w t))"

definition ended :: "('k, 's) daemon_world \<Rightarrow> daemon_state \<Rightarrow> (unit, sync_error) result \<Rightarrow> bool" where
  "ended w st r \<longleftrightarrow> (case r of
     Inr _ \<Rightarrow> \<exists>t\<le>ds_now st. dw_requested w t
   | Inl e \<Rightarrow> e = Reject WrongGeneration \<and> \<not> dw_requested w (ds_now st) \<and> \<not> dw_alive w (ds_now st))"

lemma observed_refl: "observed w cs st st"
  by (simp add: observed_def forward_def mirror_le_refl)

lemma observed_trans:
  assumes "observed w cs a b" "observed w cs b c"
  shows "observed w cs a c"
proof -
  from assms obtain x y where
    "ds_log b = ds_log a @ x" "ds_log c = ds_log b @ y"
    and x: "\<forall>(t, k, out)\<in>set x. ds_now a \<le> t \<and> t < ds_now b \<and> k \<in> cs \<and> \<not> dw_requested w t \<and> dw_alive w t"
    and y: "\<forall>(t, k, out)\<in>set y. ds_now b \<le> t \<and> t < ds_now c \<and> k \<in> cs \<and> \<not> dw_requested w t \<and> dw_alive w t"
    by (auto simp: observed_def)
  moreover have "ds_now a \<le> ds_now b" "ds_now b \<le> ds_now c" "forward (ds_db a) (ds_db b)" "forward (ds_db b) (ds_db c)"
    using assms by (simp_all add: observed_def)
  ultimately show ?thesis
    unfolding observed_def by (auto intro: transpD [OF transp_forward] simp: case_prod_beta)
qed

lemma observed_mono: "observed w cs a b \<Longrightarrow> cs \<subseteq> ds \<Longrightarrow> observed w ds a b"
  by (auto simp: observed_def case_prod_beta)

lemma observed_cycle:
  assumes "run_corpus_cycle env cd source corpus (ds_db st) = (s', result)"
    and "\<not> dw_requested w (ds_now st)" "dw_alive w (ds_now st)"
  shows "observed w {corpus} st (st\<lparr>ds_db := s', ds_now := ds_now st + 1, ds_log := ds_log st @ [(ds_now st, corpus, out)]\<rparr>)"
  using assms keepsD [OF forward_cycle assms(1)] by (simp add: observed_def)

lemma bursts_observed:
  "corpus_bursts w corpus n st = (st', e) \<Longrightarrow>
     observed w {corpus} st st' \<and> (case e of GoOn _ \<Rightarrow> True | Return r \<Rightarrow> ended w st' r)"
proof (induction n arbitrary: st)
  case (Suc n)
  from burst_round [OF Suc.prems] show ?case
  proof (elim disjE exE conjE)
    fix s' result st1
    assume go: "\<not> dw_requested w (ds_now st)" "dw_alive w (ds_now st)"
      and run: "run_corpus_cycle (dw_env w (ds_now st)) (dw_codec w) (dw_source w (ds_now st)) corpus (ds_db st) = (s', result)"
      and st1: "st1 = st\<lparr>ds_db := s', ds_now := ds_now st + 1, ds_log := ds_log st @ [(ds_now st, corpus, classify result)]\<rparr>"
      and next': "if classify result = CycleProgress then corpus_bursts w corpus n st1 = (st', e)
              else st' = st1 \<and> e = GoOn (classify result = CycleRetryable)"
    have one: "observed w {corpus} st st1" unfolding st1 by (rule observed_cycle [OF run go])
    show ?thesis
    proof (cases "classify result = CycleProgress")
      case True
      with next' Suc.IH [of st1] observed_trans [OF one] show ?thesis by auto
    next
      case False
      with next' one show ?thesis by simp
    qed
  qed (auto simp: observed_refl ended_def)
qed (auto simp: observed_refl)

lemma pass_observed:
  "corpora_pass w n cs any st = (st', e) \<Longrightarrow>
     observed w (set cs) st st' \<and> (case e of GoOn _ \<Rightarrow> True | Return r \<Rightarrow> ended w st' r)"
proof (induction cs arbitrary: any st)
  case (Cons c cs)
  obtain st1 e1 where one: "corpus_bursts w c n st = (st1, e1)" by fastforce
  from bursts_observed [OF one] have obs: "observed w (set (c # cs)) st st1"
    by (auto intro: observed_mono)
  show ?case
  proof (cases e1)
    case (Return r)
    with Cons.prems one have "st' = st1" "e = Return r" by simp_all
    with obs bursts_observed [OF one] Return show ?thesis by simp
  next
    case (GoOn b)
    with Cons.prems one have "corpora_pass w n cs (any \<or> b) st1 = (st', e)" by simp
    from Cons.IH [OF this] obs show ?thesis by (auto intro: observed_trans observed_mono)
  qed
qed (auto simp: observed_refl)

text \<open>A corpus's block of the log: at least one cycle, at most a burst, all but the last productive.\<close>

definition corpus_block :: "nat \<Rightarrow> string \<Rightarrow> (nat \<times> string \<times> cycle_outcome) list \<Rightarrow> bool" where
  "corpus_block n c block \<longleftrightarrow> block \<noteq> [] \<and> length block \<le> n \<and> (\<forall>e\<in>set block. logged e = c)
     \<and> (\<forall>e\<in>set (butlast block). logged_outcome e = CycleProgress)"

lemma bursts_block:
  "corpus_bursts w corpus (Suc n) st = (st', GoOn b) \<Longrightarrow>
     \<exists>block. ds_log st' = ds_log st @ block \<and> corpus_block (Suc n) corpus block
       \<and> b = (logged_outcome (last block) = CycleRetryable)
       \<and> (logged_outcome (last block) = CycleProgress \<longrightarrow> length block = Suc n)"
proof (induction n arbitrary: st)
  case 0
  from burst_round [OF 0] obtain out where
    "ds_log st' = ds_log st @ [(ds_now st, corpus, out)]" "b = (out = CycleRetryable)"
    by (auto split: if_splits)
  then show ?case
    by (intro exI [of _ "[(ds_now st, corpus, out)]"]) (simp add: corpus_block_def)
next
  case (Suc n)
  from burst_round [OF Suc.prems] obtain s' result st1 where
    st1: "st1 = st\<lparr>ds_db := s', ds_now := ds_now st + 1, ds_log := ds_log st @ [(ds_now st, corpus, classify result)]\<rparr>"
    and next': "if classify result = CycleProgress then corpus_bursts w corpus (Suc n) st1 = (st', GoOn b)
        else st' = st1 \<and> GoOn b = GoOn (classify result = CycleRetryable)"
    by blast
  show ?case
  proof (cases "classify result = CycleProgress")
    case True
    with next' Suc.IH [of st1] obtain block where "ds_log st' = ds_log st1 @ block" "corpus_block (Suc n) corpus block"
      "b = (logged_outcome (last block) = CycleRetryable)"
      "logged_outcome (last block) = CycleProgress \<longrightarrow> length block = Suc n" by auto
    then show ?thesis
      using True by (intro exI [of _ "(ds_now st, corpus, CycleProgress) # block"]) (auto simp: st1 corpus_block_def)
  next
    case False
    with next' show ?thesis
      by (intro exI [of _ "[(ds_now st, corpus, classify result)]"]) (auto simp: st1 corpus_block_def)
  qed
qed

lemma burst_now:
  "corpus_bursts w corpus n st = (st', e) \<Longrightarrow> ds_now st' + length (ds_log st) = ds_now st + length (ds_log st')"
proof (induction n arbitrary: st)
  case (Suc n)
  from burst_round [OF Suc.prems] show ?case by (auto split: if_splits dest: Suc.IH)
qed simp

lemma pass_blocks:
  assumes "n > 0"
  shows "corpora_pass w n cs any st = (st', GoOn b) \<Longrightarrow>
    \<exists>blocks. ds_log st' = ds_log st @ concat blocks \<and> list_all2 (corpus_block n) cs blocks
      \<and> b = (any \<or> list_ex (\<lambda>block. logged_outcome (last block) = CycleRetryable) blocks)"
proof (induction cs arbitrary: any st)
  case Nil
  then show ?case by (intro exI [of _ "[]"]) auto
next
  case (Cons c cs)
  obtain st1 e1 where one: "corpus_bursts w c n st = (st1, e1)" by fastforce
  with Cons.prems obtain b1 where e1: "e1 = GoOn b1" by (cases e1) auto
  obtain k where k: "n = Suc k" using assms by (cases n) auto
  from bursts_block [OF one [unfolded e1 k]] obtain block where
    block: "ds_log st1 = ds_log st @ block" "corpus_block n c block" "b1 = (logged_outcome (last block) = CycleRetryable)"
    by (auto simp: k)
  from Cons.prems one e1 have "corpora_pass w n cs (any \<or> b1) st1 = (st', GoOn b)" by simp
  from Cons.IH [OF this] obtain blocks where "ds_log st' = ds_log st1 @ concat blocks"
    "list_all2 (corpus_block n) cs blocks"
    "b = ((any \<or> b1) \<or> list_ex (\<lambda>block. logged_outcome (last block) = CycleRetryable) blocks)" by blast
  with block show ?case by (intro exI [of _ "block # blocks"]) auto
qed

lemma bursts_positive: "unat (max (n :: u32) 1) > 0"
proof -
  have "(1 :: u32) \<le> max n 1" by simp
  then have "unat (1 :: u32) \<le> unat (max n 1)" by (simp only: word_le_nat_alt)
  then show ?thesis by simp
qed

lemma classify_table:
  "classify result = CycleRejected code \<longleftrightarrow> result = Inl (Reject code)"
  "classify result = CycleUpToDate \<longleftrightarrow> result = Inr ReportUpToDate"
  "classify result = CycleProgress \<longleftrightarrow> (\<exists>r. result = Inr r \<and> r \<noteq> ReportUpToDate)"
  "classify result = CycleRetryable \<longleftrightarrow> (\<exists>e. result = Inl e \<and> (\<forall>code. e \<noteq> Reject code))"
  by (cases result; cases "projl result"; cases "projr result"; simp)+


section \<open>The loop\<close>

lemma loop_observed:
  "daemon_loop w config fuel backoff st = Some (st', r) \<Longrightarrow>
     observed w (set (dc_corpora config)) st st' \<and> ended w st' r"
proof (induction fuel arbitrary: backoff st)
  case (Suc fuel)
  obtain st1 e where pass: "corpora_pass w (unat (max (dc_max_burst config) 1)) (dc_corpora config) False st = (st1, e)"
    by fastforce
  note obs = pass_observed [OF pass]
  show ?case
  proof (cases e)
    case (Return r')
    with Suc.prems pass obs show ?thesis by simp
  next
    case (GoOn b)
    define st2 where "st2 = st1\<lparr>ds_now := ds_now st1 + 1, ds_sleeps := ds_sleeps st1 @ [fst (next_sleep config b backoff)]\<rparr>"
    have "observed w (set (dc_corpora config)) st1 st2"
      by (simp add: observed_def st2_def forward_def mirror_le_refl)
    with obs have obs2: "observed w (set (dc_corpora config)) st st2" by (blast intro: observed_trans)
    show ?thesis
    proof (cases "shutdown_wait_timeout (dw_requested w (ds_now st1)) (dw_requested w (ds_now st1 + 1))")
      case True
      with Suc.prems pass GoOn have res: "st' = st2" "r = Inr ()"
        by (simp_all add: st2_def case_prod_beta Let_def)
      have "\<exists>t\<le>ds_now st2. dw_requested w t"
        using True by (auto simp: shutdown_wait_timeout_def st2_def split: if_splits intro: exI [of _ "ds_now st1"] exI [of _ "Suc (ds_now st1)"])
      with obs2 res show ?thesis by (simp add: ended_def)
    next
      case False
      with Suc.prems pass GoOn have "daemon_loop w config fuel (snd (next_sleep config b backoff)) st2 = Some (st', r)"
        by (simp add: st2_def case_prod_beta Let_def)
      from Suc.IH [OF this] obs2 show ?thesis by (auto intro: observed_trans)
    qed
  qed
qed simp

text \<open>
  C1.  The daemon never applies without exclusivity and never starts work after a shutdown: every cycle
  of a finished run was started with the lease alive and no shutdown requested, for a configured corpus;
  it returned an error only because the lease was lost, and cleanly only because shutdown was requested;
  and the client is sound with every position at or ahead of where it was.
\<close>

theorem daemon_safe:
  assumes "run_daemon w config fuel s = Some (st, r)"
  shows "(\<forall>(t, c, out)\<in>set (ds_log st). c \<in> set (dc_corpora config) \<and> \<not> dw_requested w t \<and> dw_alive w t)
    \<and> (case r of Inr _ \<Rightarrow> \<exists>t\<le>ds_now st. dw_requested w t
       | Inl e \<Rightarrow> e = Reject WrongGeneration \<and> \<not> dw_requested w (ds_now st) \<and> \<not> dw_alive w (ds_now st))
    \<and> (client_ok s \<longrightarrow> client_ok (ds_db st) \<and> mirror_le (mirror s) (mirror (ds_db st)))"
  using loop_observed [OF assms [unfolded run_daemon_def]]
  by (auto simp: observed_def ended_def forward_def)

lemma backoff_iterate:
  "((\<lambda>b. snd (next_sleep config True b)) ^^ k) (dc_min_backoff config) =
     (if k = 0 then dc_min_backoff config else min (dc_min_backoff config * 2 ^ k) (dc_max_backoff config))"
  by (induction k) (auto simp: next_sleep_def min_def)

lemma pass_sleeps: "corpora_pass w n cs any st = (st', e) \<Longrightarrow> ds_sleeps st' = ds_sleeps st"
proof (induction cs arbitrary: any st)
  case (Cons c cs)
  have bursts: "corpus_bursts w c k a = (a', e') \<Longrightarrow> ds_sleeps a' = ds_sleeps a" for k a a' e'
  proof (induction k arbitrary: a)
    case (Suc k)
    from burst_round [OF Suc.prems] show ?case by (auto split: if_splits dest: Suc.IH)
  qed simp
  obtain st1 e1 where "corpus_bursts w c n st = (st1, e1)" by fastforce
  with Cons bursts [OF this] show ?case by (cases e1) auto
qed simp

lemma loop_sleeps:
  assumes "backoff \<le> max (dc_min_backoff config) (dc_max_backoff config)"
    and "\<forall>x\<in>set (ds_sleeps st). x \<le> max (dc_poll_interval config) (max (dc_min_backoff config) (dc_max_backoff config))"
    and "daemon_loop w config fuel backoff st = Some (st', r)"
  shows "\<forall>x\<in>set (ds_sleeps st'). x \<le> max (dc_poll_interval config) (max (dc_min_backoff config) (dc_max_backoff config))"
  using assms
proof (induction fuel arbitrary: backoff st)
  case (Suc fuel)
  obtain st1 e where pass: "corpora_pass w (unat (max (dc_max_burst config) 1)) (dc_corpora config) False st = (st1, e)"
    by fastforce
  note same = pass_sleeps [OF pass]
  show ?case
  proof (cases e)
    case (Return r')
    with Suc.prems pass same show ?thesis by simp
  next
    case (GoOn b)
    define st2 where "st2 = st1\<lparr>ds_now := ds_now st1 + 1, ds_sleeps := ds_sleeps st1 @ [fst (next_sleep config b backoff)]\<rparr>"
    have sleeps: "\<forall>x\<in>set (ds_sleeps st2). x \<le> max (dc_poll_interval config) (max (dc_min_backoff config) (dc_max_backoff config))"
      using Suc.prems(1,2) same by (auto simp: st2_def next_sleep_def)
    have bound: "snd (next_sleep config b backoff) \<le> max (dc_min_backoff config) (dc_max_backoff config)"
      by (auto simp: next_sleep_def)
    show ?thesis
      using Suc.prems(3) pass GoOn sleeps Suc.IH [OF bound sleeps]
      by (auto simp: st2_def case_prod_beta Let_def split: if_splits)
  qed
qed simp


section \<open>Stopping\<close>

lemma requested_pass:
  assumes "corpora_pass w (Suc n) cs any st = (st', e)" "dw_requested w (ds_now st)"
  shows "st' = st \<and> (if cs = [] then e = GoOn any else e = Return (Inr ()))"
  using assms by (cases cs) (auto simp: check_before_apply_def)

lemma loop_stops:
  assumes sticky: "\<forall>t\<ge>T. dw_requested w t"
  shows "T < fuel + ds_now st \<Longrightarrow> fuel > 0 \<Longrightarrow> \<exists>st' r. daemon_loop w config fuel backoff st = Some (st', r)"
proof (induction fuel arbitrary: backoff st)
  case (Suc fuel)
  obtain st1 e where pass: "corpora_pass w (unat (max (dc_max_burst config) 1)) (dc_corpora config) False st = (st1, e)"
    by fastforce
  have now: "ds_now st \<le> ds_now st1" using pass_observed [OF pass] by (simp add: observed_def)
  show ?case
  proof (cases e)
    case (Return r)
    with pass show ?thesis by simp
  next
    case (GoOn b)
    define st2 where "st2 = st1\<lparr>ds_now := ds_now st1 + 1, ds_sleeps := ds_sleeps st1 @ [fst (next_sleep config b backoff)]\<rparr>"
    show ?thesis
    proof (cases "T \<le> ds_now st1")
      case True
      with sticky pass GoOn show ?thesis by (simp add: shutdown_wait_timeout_def case_prod_beta Let_def)
    next
      case False
      with Suc.prems now have "T < fuel + ds_now st2" "fuel > 0" by (auto simp: st2_def)
      from Suc.IH [OF this, of "snd (next_sleep config b backoff)"] pass GoOn show ?thesis
        by (auto simp: st2_def case_prod_beta Let_def)
    qed
  qed
qed simp

text \<open>
  C20.  A requested shutdown ends the daemon: once the token is set, at whatever observation \<open>T\<close>, the loop
  returns within \<open>T + 1\<close> passes, whatever the source, the files, the lease and the corpora do.
\<close>

theorem shutdown_terminates:
  assumes "\<forall>t\<ge>T. dw_requested w t"
  shows "\<exists>st r. run_daemon w config (T + 1) s = Some (st, r)"
  unfolding run_daemon_def by (rule loop_stops [OF assms]) simp_all

section \<open>A burst drains the corpus\<close>

lemma cycle_lands:
  assumes ok: "client_ok s" and served: "src_manifest source corpus = Inr doc"
    and honest: "\<And>v. describes_artifacts env source v (sd_payload doc)"
    and head: "uint (ps_get (rm_head_sequence (sd_payload doc))) \<le> i64_max"
    and run: "run_corpus_cycle env cd source corpus s = (s', Inr report)"
  shows "client_ok s' \<and> corpus = corpus_as_str (rm_corpus (sd_payload doc)) \<and> lands (sd_payload doc) s s' report"
proof -
  from run obtain v m where m: "fetch_verify_manifest (src_manifest source) v cd corpus = Inr m"
    and go: "run_catchup env source v (plan_catchup m (read_client_cursor s corpus)) s = (s', Inr report)"
    by (auto simp: run_corpus_cycle_def action_simps lift_res_eq_Inr)
  from m served have "m = sd_payload doc" "corpus = corpus_as_str (rm_corpus m)"
    by (auto simp: fetch_verify_manifest_def check_manifest_corpus_def result_simps split: if_splits)
  with run_catchup_lands [OF ok honest head refl] go show ?thesis by blast
qed

text \<open>The world stands still during the burst.\<close>

definition steady ::
  "('k, 's) daemon_world \<Rightarrow> ('k, 's) apply_env \<Rightarrow> package_source \<Rightarrow> bool" where
  "steady w env source \<longleftrightarrow> (\<forall>t. dw_env w t = env \<and> dw_source w t = source)"

definition drained :: "remote_manifest \<Rightarrow> daemon_state \<Rightarrow> bool" where
  "drained m st \<longleftrightarrow> (case logged_outcome (last (ds_log st)) of
     CycleProgress \<Rightarrow> False
   | CycleUpToDate \<Rightarrow> client_sequence (ds_db st) (corpus_as_str (rm_corpus m)) = Some (ps_get (rm_head_sequence m))
   | _ \<Rightarrow> True)"

lemma burst_cases:
  assumes world: "steady w env source" and ok: "client_ok (ds_db st)"
    and served: "src_manifest source corpus = Inr doc"
    and honest: "\<And>v. describes_artifacts env source v (sd_payload doc)"
    and head: "uint (ps_get (rm_head_sequence (sd_payload doc))) \<le> i64_max"
    and run: "corpus_bursts w corpus (Suc n) st = (st', GoOn b)"
  shows "drained (sd_payload doc) st'
    \<or> (\<exists>st1 report. client_ok (ds_db st1) \<and> lands (sd_payload doc) (ds_db st) (ds_db st1) report \<and> report \<noteq> ReportUpToDate
         \<and> corpus_bursts w corpus n st1 = (st', GoOn b))"
proof -
  have same: "dw_env w t = env" "dw_source w t = source" for t using world by (simp_all add: steady_def)
  from burst_round [OF run, unfolded same] obtain s' result st1 where
    cycle: "run_corpus_cycle env (dw_codec w) source corpus (ds_db st) = (s', result)"
    and st1: "st1 = st\<lparr>ds_db := s', ds_now := ds_now st + 1, ds_log := ds_log st @ [(ds_now st, corpus, classify result)]\<rparr>"
    and next': "if classify result = CycleProgress then corpus_bursts w corpus n st1 = (st', GoOn b)
        else st' = st1 \<and> GoOn b = GoOn (classify result = CycleRetryable)"
    by blast
  show ?thesis
  proof (cases result)
    case (Inl e)
    then have "classify result \<noteq> CycleProgress" "classify result \<noteq> CycleUpToDate"
      by (simp_all add: classify_table del: classify.simps)
    with next' show ?thesis by (cases "classify result") (auto simp: drained_def st1)
  next
    case (Inr report)
    with cycle_lands [OF ok served honest head, of "dw_codec w" s' report] cycle
    have land: "client_ok s'" "lands (sd_payload doc) (ds_db st) s' report" by simp_all
    show ?thesis
    proof (cases "report = ReportUpToDate")
      case True
      with land(2) next' Inr show ?thesis by (auto simp: drained_def st1 lands_def Let_def)
    next
      case False
      then have "classify result = CycleProgress" using Inr by (cases report) simp_all
      with next' have "corpus_bursts w corpus n st1 = (st', GoOn b)" by simp
      moreover have "ds_db st1 = s'" by (simp add: st1)
      ultimately show ?thesis using land False by metis
    qed
  qed
qed

lemma lands_from_head:
  "lands m s s' report \<Longrightarrow> client_sequence s (corpus_as_str (rm_corpus m)) = Some (ps_get (rm_head_sequence m)) \<Longrightarrow>
     report = ReportUpToDate"
  by (cases report) (auto simp: lands_def Let_def)

lemma lands_twice:
  assumes "lands m s t r1" "lands m t u r2" "r1 \<noteq> ReportUpToDate" "r2 \<noteq> ReportUpToDate"
  shows "client_sequence u (corpus_as_str (rm_corpus m)) = Some (ps_get (rm_head_sequence m))"
  using assms by (cases r1; cases r2) (auto simp: lands_def Let_def)

text \<open>
  C19.  One burst drains a corpus.  While the published manifest and its artifacts stand still and are what
  they claim, a burst of at least three cycles that is not cut short by shutdown or a lost lease never
  ends on progress: it ends at the signed head with nothing left to do, or on an error.  A baseline and
  its tail take two productive cycles; the default burst of sixteen is enough.
\<close>

theorem burst_drains:
  assumes "steady w env source" and "client_ok (ds_db st)"
    and "src_manifest source corpus = Inr doc"
    and "\<And>v. describes_artifacts env source v (sd_payload doc)"
    and "uint (ps_get (rm_head_sequence (sd_payload doc))) \<le> i64_max"
    and "n \<ge> 3" and "corpus_bursts w corpus n st = (st', GoOn b)"
  shows "drained (sd_payload doc) st'"
proof (rule ccontr)
  let ?m = "sd_payload doc"
  assume not: "\<not> drained ?m st'"
  note step = burst_cases [OF assms(1) _ assms(3-5)]
  obtain k where "n = Suc (Suc (Suc k))" using assms(6) by (metis Suc_le_D numeral_3_eq_3 Suc_le_mono)
  with step [OF assms(2)] not assms(7) obtain s1 r1 where
    one: "client_ok (ds_db s1)" "lands ?m (ds_db st) (ds_db s1) r1" "r1 \<noteq> ReportUpToDate"
    "corpus_bursts w corpus (Suc (Suc k)) s1 = (st', GoOn b)" by blast
  from step [OF one(1,4)] not obtain s2 r2 where
    two: "client_ok (ds_db s2)" "lands ?m (ds_db s1) (ds_db s2) r2" "r2 \<noteq> ReportUpToDate"
    "corpus_bursts w corpus (Suc k) s2 = (st', GoOn b)" by blast
  from step [OF two(1,4)] not obtain s3 :: daemon_state and r3 where
    three: "lands ?m (ds_db s2) (ds_db s3) r3" "r3 \<noteq> ReportUpToDate" by blast
  from lands_from_head [OF three(1) lands_twice [OF one(2) two(2) one(3) two(3)]] three(2) show False by blast
qed

section \<open>A small daemon\<close>

definition sample_world :: "(string, string) daemon_world" where
  "sample_world = \<lparr>dw_requested = (\<lambda>t. 3 \<le> t), dw_alive = (\<lambda>t. True),
     dw_env = (\<lambda>t. sample_env sample_incremental), dw_source = (\<lambda>t. sample_source),
     dw_codec = \<lparr>cd_to_json = (\<lambda>m. Inr JNull), cd_print = (\<lambda>j. []), cd_backing = bt_insert\<rparr>\<rparr>"

definition sample_anchored_db :: db where
  "sample_anchored_db = sample_db\<lparr>db_anchors :=
     [((''producer'', 1, ''package''), (''ed25519'', sample_key_text 32))]\<rparr>"

definition sample_start :: daemon_state where
  "sample_start = \<lparr>ds_db = sample_anchored_db, ds_now = 0, ds_log = [], ds_sleeps = []\<rparr>"

definition sample_config :: daemon_config where
  "sample_config = \<lparr>dc_corpora = [''core''], dc_poll_interval = 30, dc_min_backoff = 2, dc_max_backoff = 60,
     dc_max_burst = 16\<rparr>"

definition sample_end :: daemon_state where
  "sample_end = fst (corpus_bursts sample_world ''core'' 16 sample_start)"

lemma sample_burst:
  "ds_log (fst (corpus_bursts sample_world ''core'' 16 sample_start)) =
     [(0, ''core'', CycleProgress), (1, ''core'', CycleUpToDate)]
   \<and> snd (corpus_bursts sample_world ''core'' 16 sample_start) = GoOn False"
  by code_simp

lemma sample_log: "ds_log sample_end = [(0, ''core'', CycleProgress), (1, ''core'', CycleUpToDate)]"
  unfolding sample_end_def by (rule sample_burst [THEN conjunct1])

lemma sample_burst_run: "corpus_bursts sample_world ''core'' 16 sample_start = (sample_end, GoOn False)"
  unfolding sample_end_def using sample_burst [THEN conjunct2] by (metis prod.collapse)

lemma sample_pass:
  "corpora_pass sample_world (unat (max (dc_max_burst sample_config) 1)) (dc_corpora sample_config) False sample_start =
     (sample_end, GoOn False)"
proof -
  have "unat (max (dc_max_burst sample_config) 1) = 16" "dc_corpora sample_config = [''core'']"
    by (simp_all add: sample_config_def)
  then show ?thesis by (simp only: corpora_pass.simps sample_burst_run prod.case pass_end.case simp_thms)
qed


definition sample_run :: "(daemon_state \<times> (unit, sync_error) result) option" where
  "sample_run = run_daemon sample_world sample_config 4 sample_anchored_db"

lemma sample_finishes: "\<exists>st. sample_run = Some (st, Inr ())"
proof -
  have "ds_now sample_end = 2"
    using burst_now [OF sample_burst_run] sample_log by (simp add: sample_start_def)
  then have "dw_requested sample_world (ds_now sample_end + 1)" by (simp add: sample_world_def)
  then show ?thesis
    using sample_pass
    by (simp add: sample_run_def run_daemon_def eval_nat_numeral sample_start_def Let_def case_prod_beta
        shutdown_wait_timeout_def del: corpora_pass.simps)
qed

lemma sample_anchored_ok: "client_ok sample_anchored_db"
proof -
  have "topology_ok sample_anchored_db"
    by (rule topology_same_control [OF sample_topology_ok])
      (simp_all add: sample_anchored_db_def del: sample_db_fields)
  moreover have "columns_typed sample_anchored_db"
    by (simp add: columns_typed_def sample_anchored_db_def i64_max_def i32_max_def) (simp add: sample_db_def)
  ultimately show ?thesis by (simp add: client_ok_def sample_anchored_db_def)
qed

lemma daemon_safe_witness: "\<exists>st. sample_run = Some (st, Inr ()) \<and> client_ok (ds_db st) \<and> (\<exists>t\<le>ds_now st. 3 \<le> t)"
proof -
  obtain st where st: "sample_run = Some (st, Inr ())" using sample_finishes by blast
  from daemon_safe [OF st [unfolded sample_run_def]] sample_anchored_ok st show ?thesis
    by (auto simp: sample_world_def)
qed


lemma shutdown_terminates_witness: "\<exists>st r. run_daemon sample_world sample_config (3 + 1) sample_anchored_db = Some (st, r)"
  by (rule shutdown_terminates) (simp add: sample_world_def)

lemma sample_describes_any: "describes_artifacts (sample_env sample_incremental) sample_source v sample_remote"
proof -
  have "read_signed_manifest (sample_env sample_incremental) dir v = Inr em \<Longrightarrow> em = sample_incremental" for dir em
    by (auto simp: read_signed_manifest_def sample_env_def result_simps)
  moreover have "corpus_of sample_incremental = ''core''"
    "ap_result_sequence (em_apply sample_incremental) = PackageSequence 8" by code_simp+
  ultimately show ?thesis
    by (auto simp: describes_artifacts_def sample_source_def sample_remote_def sample_entry_def)
qed

lemma burst_drains_witness:
  "client_sequence (ds_db sample_end) ''core'' = Some 8"
proof -
  have "drained sample_remote sample_end"
  proof (rule burst_drains [of sample_world "sample_env sample_incremental" sample_source sample_start "''core''"
        "\<lparr>sd_payload = sample_remote, sd_signature = sample_signature\<rparr>" 16, simplified signed.simps])
    show "steady sample_world (sample_env sample_incremental) sample_source"
      by (simp add: steady_def sample_world_def)
    show "client_ok (ds_db sample_start)" by (simp add: sample_start_def sample_anchored_ok)
    show "src_manifest sample_source ''core'' = Inr \<lparr>sd_payload = sample_remote, sd_signature = sample_signature\<rparr>"
      by (simp add: sample_source_def)
    show "describes_artifacts (sample_env sample_incremental) sample_source v sample_remote" for v
      by (rule sample_describes_any)
    show "uint (ps_get (rm_head_sequence sample_remote)) \<le> i64_max" by (simp add: sample_remote_def i64_max_def)
    show "corpus_bursts sample_world ''core'' 16 sample_start =
        (sample_end, GoOn False)" by (rule sample_burst_run)
  qed simp
  then show ?thesis by (simp add: drained_def sample_log sample_remote_def)
qed

end
