(* ===== verification/Outbox.thy ===== *)
theory Outbox
  imports Contract Json Errors
begin

text \<open>
  The change-capture ledger (\<open>storage/outbox.rs\<close>).  Writers are transactions that append to the ledger
  under a shared fence; the builder freezes its high-water mark under the exclusive fence.  PostgreSQL is
  modelled as far as the code relies on it: \<open>bigserial\<close> numbers are handed out at insert and never
  given back, rows become visible at commit, a transaction-scoped shared advisory lock is held until the
  end of its transaction, and an exclusive one waits for all shared holders.
\<close>

section \<open>Events and rows\<close>

record outbox_context =
  ox_ingest_run_id :: string
  ox_schema_version :: int

record outbox_event =
  ev_corpus :: string
  ev_table_name :: string
  ev_op :: event_kind
  ev_scope_kind :: string
  ev_scope_key :: string
  ev_row_pk :: "json option"
  ev_row_hash :: "string option"
  ev_before_hash :: "string option"
  ev_after_hash :: "string option"
  ev_payload :: "json option"
  ev_builder_versions :: "json option"
  ev_embedding_fingerprint :: "string option"

definition outbox_event_scope :: "string \<Rightarrow> string \<Rightarrow> event_kind \<Rightarrow> string \<Rightarrow> string \<Rightarrow> outbox_event" where
  "outbox_event_scope corpus table_name op scope_kind scope_key = \<lparr>ev_corpus = corpus,
     ev_table_name = table_name, ev_op = op, ev_scope_kind = scope_kind, ev_scope_key = scope_key,
     ev_row_pk = None, ev_row_hash = None, ev_before_hash = None, ev_after_hash = None, ev_payload = None,
     ev_builder_versions = None, ev_embedding_fingerprint = None\<rparr>"

record log_row =
  lr_change_seq :: int
  lr_corpus :: string
  lr_ingest_run_id :: string
  lr_table_name :: string
  lr_op :: string
  lr_scope_kind :: string
  lr_scope_key :: string
  lr_row_pk :: json
  lr_row_hash :: "string option"
  lr_before_hash :: "string option"
  lr_after_hash :: "string option"
  lr_payload :: "json option"
  lr_builder_versions :: json
  lr_embedding_fingerprint :: "string option"
  lr_schema_version :: int

definition or_empty_object :: "json option \<Rightarrow> json" where
  "or_empty_object v = (case v of None \<Rightarrow> JObject [] | Some j \<Rightarrow> j)"

definition log_row_of :: "outbox_context \<Rightarrow> outbox_event \<Rightarrow> int \<Rightarrow> log_row" where
  "log_row_of ctx event seq = \<lparr>lr_change_seq = seq, lr_corpus = ev_corpus event,
     lr_ingest_run_id = ox_ingest_run_id ctx, lr_table_name = ev_table_name event,
     lr_op = event_kind_as_str (ev_op event), lr_scope_kind = ev_scope_kind event,
     lr_scope_key = ev_scope_key event, lr_row_pk = or_empty_object (ev_row_pk event),
     lr_row_hash = ev_row_hash event, lr_before_hash = ev_before_hash event,
     lr_after_hash = ev_after_hash event, lr_payload = ev_payload event,
     lr_builder_versions = or_empty_object (ev_builder_versions event),
     lr_embedding_fingerprint = ev_embedding_fingerprint event, lr_schema_version = ox_schema_version ctx\<rparr>"

section \<open>The ledger and its fence\<close>

text \<open>
  Committed rows in commit order, the next number of the serial column, the uncommitted rows of each
  transaction, the transactions that hold the shared fence and whether a builder holds the exclusive one.
\<close>

record ledger =
  lg_rows :: "log_row list"
  lg_next :: int
  lg_pending :: "nat \<Rightarrow> log_row list"
  lg_shared :: "nat list"
  lg_fence :: bool

definition empty_ledger :: ledger where
  "empty_ledger = \<lparr>lg_rows = [], lg_next = 1, lg_pending = (\<lambda>_. []), lg_shared = [], lg_fence = False\<rparr>"

text \<open>\<open>None\<close> means that the statement waits for a lock.\<close>

definition emit_change ::
  "nat \<Rightarrow> outbox_context \<Rightarrow> outbox_event \<Rightarrow> ledger \<Rightarrow> (ledger \<times> (change_seq, storage_error) result) option" where
  "emit_change txn ctx event l =
     (if lg_fence l then None
      else
        let l1 = l\<lparr>lg_shared := (if txn \<in> set (lg_shared l) then lg_shared l else txn # lg_shared l)\<rparr>; seq = lg_next l
        in if seq > i64_max then Some (l1, Inl PostgresClient)
           else Some (l1\<lparr>lg_next := seq + 1,
                        lg_pending := (lg_pending l)(txn := lg_pending l txn @ [log_row_of ctx event seq])\<rparr>,
                      map_err (\<lambda>_. OutboxError) (change_seq_from_db seq)))"

definition end_txn :: "nat \<Rightarrow> log_row list \<Rightarrow> ledger \<Rightarrow> ledger" where
  "end_txn txn visible l = l\<lparr>lg_rows := lg_rows l @ visible, lg_pending := (lg_pending l)(txn := []),
     lg_shared := removeAll txn (lg_shared l)\<rparr>"

definition commit_txn :: "nat \<Rightarrow> ledger \<Rightarrow> ledger" where
  "commit_txn txn l = end_txn txn (lg_pending l txn) l"

definition rollback_txn :: "nat \<Rightarrow> ledger \<Rightarrow> ledger" where
  "rollback_txn txn l = end_txn txn [] l"

definition acquire_outbox_fence :: "ledger \<Rightarrow> ledger option" where
  "acquire_outbox_fence l = (if lg_shared l = [] \<and> \<not> lg_fence l then Some (l\<lparr>lg_fence := True\<rparr>) else None)"

definition release_outbox_fence :: "ledger \<Rightarrow> ledger" where
  "release_outbox_fence l = l\<lparr>lg_fence := False\<rparr>"

section \<open>Reading the ledger\<close>

record changed_scope =
  sc_change_seq :: change_seq
  sc_table_name :: string
  sc_op :: event_kind
  sc_scope_kind :: string
  sc_scope_key :: string

definition parse_op :: "string \<Rightarrow> (event_kind, storage_error) result" where
  "parse_op t =
     (if t = ''upsert'' then Inr Upsert else if t = ''delete'' then Inr Delete
      else if t = ''replace_set'' then Inr ReplaceSetEvent else Inl OutboxError)"

definition window_rows :: "ledger \<Rightarrow> string \<Rightarrow> int \<Rightarrow> int \<Rightarrow> log_row list" where
  "window_rows l corpus after through = sort_key lr_change_seq
     (filter (\<lambda>r. lr_corpus r = corpus \<and> lr_change_seq r > after \<and> lr_change_seq r \<le> through) (lg_rows l))"

definition scope_of_row :: "log_row \<Rightarrow> (changed_scope, storage_error) result" where
  "scope_of_row r =
     and_then (parse_op (lr_op r)) (\<lambda>op.
     and_then (map_err (\<lambda>_. OutboxError) (change_seq_from_db (lr_change_seq r))) (\<lambda>seq.
     Inr \<lparr>sc_change_seq = seq, sc_table_name = lr_table_name r, sc_op = op,
          sc_scope_kind = lr_scope_kind r, sc_scope_key = lr_scope_key r\<rparr>))"

definition scopes_changed_for_corpus_with_client ::
  "ledger \<Rightarrow> string \<Rightarrow> change_seq \<Rightarrow> change_seq \<Rightarrow> (changed_scope list, storage_error) result" where
  "scopes_changed_for_corpus_with_client l corpus after through =
     map_result scope_of_row (window_rows l corpus (i64_saturating (cs_get after)) (i64_saturating (cs_get through)))"

text \<open>\<open>COALESCE(max(change_seq), 0)\<close>.\<close>

definition max_change_seq :: "ledger \<Rightarrow> int" where
  "max_change_seq l = foldl max 0 (map lr_change_seq (lg_rows l))"

definition current_change_seq_with_client :: "ledger \<Rightarrow> (change_seq, storage_error) result" where
  "current_change_seq_with_client l = map_err (\<lambda>_. OutboxError) (change_seq_from_db (max_change_seq l))"

section \<open>Runs\<close>

inductive ledger_step :: "ledger \<Rightarrow> ledger \<Rightarrow> bool" where
  emit: "emit_change txn ctx event l = Some (l', r) \<Longrightarrow> ledger_step l l'"
| commit: "ledger_step l (commit_txn txn l)"
| rollback: "ledger_step l (rollback_txn txn l)"
| acquire: "acquire_outbox_fence l = Some l' \<Longrightarrow> ledger_step l l'"
| release: "ledger_step l (release_outbox_fence l)"

text \<open>
  Numbers in use lie between 1 and the next one, no number is used twice, only holders of the shared
  fence have uncommitted rows, and nobody holds it while the exclusive fence is held.
\<close>

definition row_in_use :: "int \<Rightarrow> log_row \<Rightarrow> bool" where
  "row_in_use bound r \<longleftrightarrow> 1 \<le> lr_change_seq r \<and> lr_change_seq r < bound \<and> (\<exists>op. parse_op (lr_op r) = Inr op)"

definition ledger_ok :: "ledger \<Rightarrow> bool" where
  "ledger_ok l \<longleftrightarrow>
     (\<forall>r\<in>set (lg_rows l). row_in_use (lg_next l) r)
     \<and> (\<forall>t. \<forall>r\<in>set (lg_pending l t). row_in_use (lg_next l) r)
     \<and> 1 \<le> lg_next l \<and> lg_next l \<le> i64_max + 1
     \<and> (\<forall>t. lg_pending l t \<noteq> [] \<longrightarrow> t \<in> set (lg_shared l))
     \<and> (lg_fence l \<longrightarrow> lg_shared l = [])"

text \<open>Since a freeze at \<open>hi\<close>, only larger numbers have been handed out or committed.\<close>

definition after_freeze :: "ledger \<Rightarrow> ledger \<Rightarrow> bool" where
  "after_freeze f l \<longleftrightarrow> lg_next f \<le> lg_next l
     \<and> (\<exists>new. lg_rows l = lg_rows f @ new \<and> (\<forall>r\<in>set new. lg_next f \<le> lr_change_seq r))
     \<and> (\<forall>t. \<forall>r\<in>set (lg_pending l t). lg_next f \<le> lr_change_seq r)"

section \<open>Invariants\<close>

lemma parse_op_of [simp]: "parse_op (event_kind_as_str op) = Inr op"
  by (cases op) (simp_all add: parse_op_def)

lemma emit_change_SomeD:
  assumes "emit_change txn ctx event l = Some (l', r)"
  shows "\<not> lg_fence l \<and> lg_rows l' = lg_rows l \<and> lg_fence l' = lg_fence l
    \<and> set (lg_shared l') = insert txn (set (lg_shared l))
    \<and> ((lg_next l' = lg_next l \<and> lg_pending l' = lg_pending l)
       \<or> (lg_next l \<le> i64_max \<and> lg_next l' = lg_next l + 1
          \<and> lg_pending l' = (lg_pending l)(txn := lg_pending l txn @ [log_row_of ctx event (lg_next l)])))"
  using assms by (auto simp: emit_change_def Let_def split: if_splits)

lemma end_txn_ok:
  assumes "ledger_ok l" "\<forall>r\<in>set visible. row_in_use (lg_next l) r"
  shows "ledger_ok (end_txn txn visible l)"
proof -
  have "\<forall>r\<in>set (lg_rows l @ visible). row_in_use (lg_next l) r" using assms by (auto simp: ledger_ok_def)
  moreover have "\<forall>t. t \<noteq> txn \<longrightarrow> lg_pending l t \<noteq> [] \<longrightarrow> t \<in> set (removeAll txn (lg_shared l))"
    using assms(1) by (simp add: ledger_ok_def)
  ultimately show ?thesis using assms(1) by (simp add: ledger_ok_def end_txn_def)
qed

lemma ledger_step_ok:
  assumes "ledger_step l l'" "ledger_ok l"
  shows "ledger_ok l'"
  using assms
proof (induction rule: ledger_step.induct)
  case (emit txn ctx event l l' r)
  note e = emit_change_SomeD [OF emit(1)]
  then consider "lg_next l' = lg_next l" "lg_pending l' = lg_pending l"
    | "lg_next l \<le> i64_max" "lg_next l' = lg_next l + 1"
      "lg_pending l' = (lg_pending l)(txn := lg_pending l txn @ [log_row_of ctx event (lg_next l)])" by blast
  then show ?case
  proof cases
    case 1
    with e emit(2) show ?thesis by (auto simp: ledger_ok_def)
  next
    case 2
    have "row_in_use (lg_next l') r" if "row_in_use (lg_next l) r" for r
      using that 2(2) by (simp add: row_in_use_def)
    moreover have "row_in_use (lg_next l') (log_row_of ctx event (lg_next l))"
      using 2(2) emit(2) by (simp add: row_in_use_def log_row_of_def ledger_ok_def)
    ultimately show ?thesis using e 2 emit(2) by (simp add: ledger_ok_def)
  qed
next
  case (commit l txn)
  then show ?case unfolding commit_txn_def by (intro end_txn_ok) (simp_all add: ledger_ok_def)
next
  case (rollback l txn)
  then show ?case unfolding rollback_txn_def by (intro end_txn_ok) simp_all
next
  case (acquire l l')
  then have "l' = l\<lparr>lg_fence := True\<rparr>" "lg_shared l = []"
    by (simp_all add: acquire_outbox_fence_def split: if_splits)
  with acquire(2) show ?case by (simp add: ledger_ok_def)
next
  case (release l)
  then show ?case by (simp add: ledger_ok_def release_outbox_fence_def)
qed

lemma after_freeze_step:
  assumes "ledger_step l l'" "after_freeze f l"
  shows "after_freeze f l'"
  using assms
proof (induction rule: ledger_step.induct)
  case (emit txn ctx event l l' r)
  from emit_change_SomeD [OF emit(1)] emit(2) show ?case
    by (auto simp: after_freeze_def log_row_of_def split: if_splits)
next
  case (commit l txn)
  from commit(1) obtain new where "lg_rows l = lg_rows f @ new" "\<forall>r\<in>set new. lg_next f \<le> lr_change_seq r"
    "\<forall>t. \<forall>r\<in>set (lg_pending l t). lg_next f \<le> lr_change_seq r" "lg_next f \<le> lg_next l"
    by (auto simp: after_freeze_def)
  then show ?case
    unfolding after_freeze_def commit_txn_def end_txn_def
    by (auto intro!: exI [of _ "new @ lg_pending l txn"])
next
  case (rollback l txn)
  then show ?case by (auto simp: after_freeze_def rollback_txn_def end_txn_def)
next
  case (acquire l l')
  then have "l' = l\<lparr>lg_fence := True\<rparr>" by (simp add: acquire_outbox_fence_def split: if_splits)
  with acquire(2) show ?case by (simp add: after_freeze_def)
next
  case (release l)
  then show ?case by (simp add: after_freeze_def release_outbox_fence_def)
qed

lemma ledger_run:
  assumes "ledger_step\<^sup>*\<^sup>* f l" "ledger_ok f" "lg_fence f"
  shows "ledger_ok l \<and> after_freeze f l"
  using assms
proof (induction rule: rtranclp_induct)
  case base
  then have "lg_pending f t = []" for t by (auto simp: ledger_ok_def)
  with base show ?case by (simp add: after_freeze_def)
next
  case (step l m)
  then show ?case using ledger_step_ok after_freeze_step by blast
qed

section \<open>Windows\<close>

lemma foldl_max: "foldl max a xs = Max (insert a (set xs))" for a :: int
proof (induction xs arbitrary: a)
  case (Cons x xs)
  have "Max (insert (max a x) (set xs)) = Max (insert a (set (x # xs)))"
    by (cases "xs = []") (simp_all add: max.assoc max.commute max.left_commute)
  with Cons show ?case by simp
qed simp

lemma max_change_seq_upper: "r \<in> set (lg_rows l) \<Longrightarrow> lr_change_seq r \<le> max_change_seq l"
  by (simp add: max_change_seq_def foldl_max)

lemma max_change_seq_bounds:
  assumes "ledger_ok l"
  shows "0 \<le> max_change_seq l" "max_change_seq l < lg_next l" "max_change_seq l \<le> i64_max"
proof -
  show "0 \<le> max_change_seq l" by (simp add: max_change_seq_def foldl_max)
  have "r \<in> set (lg_rows l) \<Longrightarrow> lr_change_seq r < lg_next l" for r using assms by (auto simp: ledger_ok_def row_in_use_def)
  moreover have "1 \<le> lg_next l" "lg_next l \<le> i64_max + 1" using assms by (auto simp: ledger_ok_def)
  ultimately show "max_change_seq l < lg_next l" by (auto simp: max_change_seq_def foldl_max)
  then show "max_change_seq l \<le> i64_max" using \<open>lg_next l \<le> i64_max + 1\<close> by linarith
qed

lemma sort_key_split:
  assumes "\<forall>x\<in>set xs. P x \<longrightarrow> (\<forall>y\<in>set xs. \<not> P y \<longrightarrow> (f x :: int) < f y)"
  shows "sort_key f xs = sort_key f (filter P xs) @ sort_key f (filter (\<lambda>x. \<not> P x) xs)"
proof (rule properties_for_sort_key)
  show "mset (sort_key f (filter P xs) @ sort_key f (filter (\<lambda>x. \<not> P x) xs)) = mset xs"
    by (simp flip: mset_filter) (simp add: multiset_partition [symmetric])
  show "sorted (map f (sort_key f (filter P xs) @ sort_key f (filter (\<lambda>x. \<not> P x) xs)))"
    using assms by (auto simp: sorted_append intro: less_imp_le)
  show "filter (\<lambda>x. f k = f x) (sort_key f (filter P xs) @ sort_key f (filter (\<lambda>x. \<not> P x) xs))
      = filter (\<lambda>x. f k = f x) xs"
    if "k \<in> set (sort_key f (filter P xs) @ sort_key f (filter (\<lambda>x. \<not> P x) xs))" for k
  proof -
    have stable: "filter (\<lambda>x. f k = f x) (sort_key f ys) = filter (\<lambda>x. f k = f x) ys" for ys
      using sort_key_stable [of f "f k" ys] by (simp add: eq_commute)
    show ?thesis
    proof (cases "P k")
      case True
      have "filter (\<lambda>x. f k = f x) (filter (\<lambda>x. \<not> P x) xs) = []"
        using assms True that by (force simp: filter_empty_conv)
      moreover have "filter (\<lambda>x. f k = f x) (filter P xs) = filter (\<lambda>x. f k = f x) xs"
        using assms True that by (force intro!: filter_cong)
      ultimately show ?thesis by (simp add: stable)
    next
      case False
      have "filter (\<lambda>x. f k = f x) (filter P xs) = []"
        using assms False that by (force simp: filter_empty_conv)
      moreover have "filter (\<lambda>x. f k = f x) (filter (\<lambda>x. \<not> P x) xs) = filter (\<lambda>x. f k = f x) xs"
        using assms False that by (force intro!: filter_cong)
      ultimately show ?thesis by (simp add: stable)
    qed
  qed
qed

lemma window_split:
  assumes "a \<le> b" "b \<le> c"
  shows "window_rows l corpus a c = window_rows l corpus a b @ window_rows l corpus b c"
proof -
  let ?W = "filter (\<lambda>r. lr_corpus r = corpus \<and> lr_change_seq r > a \<and> lr_change_seq r \<le> c) (lg_rows l)"
  have "sort_key lr_change_seq ?W = sort_key lr_change_seq (filter (\<lambda>r. lr_change_seq r \<le> b) ?W)
      @ sort_key lr_change_seq (filter (\<lambda>r. \<not> lr_change_seq r \<le> b) ?W)"
    by (rule sort_key_split) auto
  moreover have "filter (\<lambda>r. lr_change_seq r \<le> b) ?W =
      filter (\<lambda>r. lr_corpus r = corpus \<and> lr_change_seq r > a \<and> lr_change_seq r \<le> b) (lg_rows l)"
    using assms by (auto intro: filter_cong)
  moreover have "filter (\<lambda>r. \<not> lr_change_seq r \<le> b) ?W =
      filter (\<lambda>r. lr_corpus r = corpus \<and> lr_change_seq r > b \<and> lr_change_seq r \<le> c) (lg_rows l)"
    using assms by (auto intro: filter_cong)
  ultimately show ?thesis by (simp add: window_rows_def)
qed

lemma window_stable:
  assumes "after_freeze f l" "ledger_ok f" "b \<le> max_change_seq f"
  shows "window_rows l corpus a b = window_rows f corpus a b"
proof -
  from assms(1) obtain new where rows: "lg_rows l = lg_rows f @ new" "\<forall>r\<in>set new. lg_next f \<le> lr_change_seq r"
    by (auto simp: after_freeze_def)
  have "b < lg_next f" using max_change_seq_bounds(2) [OF assms(2)] assms(3) by linarith
  then have "filter (\<lambda>r. lr_corpus r = corpus \<and> lr_change_seq r > a \<and> lr_change_seq r \<le> b) new = []"
    using rows(2) by (fastforce simp: filter_empty_conv)
  then show ?thesis by (simp add: window_rows_def rows(1))
qed

lemma map_result_append:
  "map_result f (xs @ ys) = and_then (map_result f xs) (\<lambda>a. and_then (map_result f ys) (\<lambda>b. Inr (a @ b)))"
  by (induction xs) (auto simp: and_then_assoc and_then_def split: sum.splits)

lemma scopes_eq:
  assumes "ledger_ok l"
  shows "\<exists>ss. scopes_changed_for_corpus_with_client l corpus a b = Inr ss
    \<and> map (\<lambda>s. (int (unat (cs_get (sc_change_seq s))), sc_table_name s, event_kind_as_str (sc_op s), sc_scope_kind s, sc_scope_key s)) ss
      = map (\<lambda>r. (lr_change_seq r, lr_table_name r, lr_op r, lr_scope_kind r, lr_scope_key r))
          (window_rows l corpus (i64_saturating (cs_get a)) (i64_saturating (cs_get b)))"
proof -
  have each: "\<exists>s. scope_of_row r = Inr s \<and>
     (int (unat (cs_get (sc_change_seq s))), sc_table_name s, event_kind_as_str (sc_op s), sc_scope_kind s, sc_scope_key s)
      = (lr_change_seq r, lr_table_name r, lr_op r, lr_scope_kind r, lr_scope_key r)"
    if r: "row_in_use (lg_next l) r" for r
  proof -
    from r obtain op where op: "parse_op (lr_op r) = Inr op" by (auto simp: row_in_use_def)
    then have "lr_op r = event_kind_as_str op" by (auto simp: parse_op_def split: if_splits)
    moreover have "0 \<le> lr_change_seq r" "lr_change_seq r < 2 ^ 64"
      using r assms by (auto simp: row_in_use_def ledger_ok_def i64_max_def)
    then have "int (unat (word_of_int (lr_change_seq r) :: u64)) = lr_change_seq r"
      by (simp add: uint_word_of_int take_bit_int_eq_self)
    ultimately show ?thesis
      using op \<open>0 \<le> lr_change_seq r\<close>
      by (simp add: scope_of_row_def change_seq_from_db_def u64_try_from_def ok_or_def)
  qed
  have all: "\<exists>ss. map_result scope_of_row rs = Inr ss \<and>
     map (\<lambda>s. (int (unat (cs_get (sc_change_seq s))), sc_table_name s, event_kind_as_str (sc_op s), sc_scope_kind s, sc_scope_key s)) ss
      = map (\<lambda>r. (lr_change_seq r, lr_table_name r, lr_op r, lr_scope_kind r, lr_scope_key r)) rs"
    if "\<forall>r\<in>set rs. row_in_use (lg_next l) r" for rs
    using that
  proof (induction rs)
    case (Cons r rs)
    then obtain ss where "map_result scope_of_row rs = Inr ss \<and>
     map (\<lambda>s. (int (unat (cs_get (sc_change_seq s))), sc_table_name s, event_kind_as_str (sc_op s), sc_scope_kind s, sc_scope_key s)) ss
      = map (\<lambda>r. (lr_change_seq r, lr_table_name r, lr_op r, lr_scope_kind r, lr_scope_key r)) rs" by auto
    with each [of r] Cons.prems show ?case by auto
  qed simp
  have "\<forall>r\<in>set (window_rows l corpus x y). row_in_use (lg_next l) r" for x y
    using assms by (auto simp: window_rows_def ledger_ok_def)
  from all [OF this] show ?thesis by (simp add: scopes_changed_for_corpus_with_client_def)
qed

lemma current_change_seq_eq:
  assumes "ledger_ok l" "current_change_seq_with_client l = Inr hi"
  shows "i64_saturating (cs_get hi) = max_change_seq l" "uint (cs_get hi) = max_change_seq l"
proof -
  note b = max_change_seq_bounds [OF assms(1)]
  then have "hi = ChangeSeq (word_of_int (max_change_seq l))"
    using assms(2) by (simp add: current_change_seq_with_client_def change_seq_from_db_def u64_try_from_def ok_or_def)
  with b show "uint (cs_get hi) = max_change_seq l"
    by (simp add: i64_max_def uint_word_of_int take_bit_int_eq_self)
  with b(3) show "i64_saturating (cs_get hi) = max_change_seq l" by (simp add: i64_saturating_def)
qed

lemma frozen_max_mono:
  assumes "after_freeze f l"
  shows "max_change_seq f \<le> max_change_seq l"
  using assms by (auto simp: after_freeze_def max_change_seq_def foldl_max intro!: Max_mono)

lemma scopes_split:
  assumes "i64_saturating (cs_get a) \<le> i64_saturating (cs_get b)" "i64_saturating (cs_get b) \<le> i64_saturating (cs_get c)"
  shows "scopes_changed_for_corpus_with_client l corpus a c =
    and_then (scopes_changed_for_corpus_with_client l corpus a b) (\<lambda>xs.
    and_then (scopes_changed_for_corpus_with_client l corpus b c) (\<lambda>ys. Inr (xs @ ys)))"
  by (simp add: scopes_changed_for_corpus_with_client_def window_split [OF assms] map_result_append)

section \<open>A frozen window is final\<close>

text \<open>
  C11. The high-water fence makes a build window final.  When a builder freezes the mark \<open>hi\<close> while it holds the
  exclusive fence, then whatever writers do afterwards (emit, commit, roll back, in any order) the scopes of
  \<open>(lo, hi]\<close> are what the builder read at the freeze: no row with a number at or below \<open>hi\<close> becomes
  visible later.  The next window \<open>(hi, hi2]\<close> takes up exactly where this one ends, so two consecutive
  windows read together give the changes of \<open>(lo, hi2]\<close>, each once and in order, and neither read fails.
\<close>
theorem frozen_window_is_final:
  assumes ok: "ledger_ok f" and fence: "lg_fence f" and run: "ledger_step\<^sup>*\<^sup>* f l"
    and hi: "current_change_seq_with_client f = Inr hi" and hi2: "current_change_seq_with_client l = Inr hi2"
    and lo: "cs_get lo \<le> cs_get hi"
  shows "\<exists>xs ys. scopes_changed_for_corpus_with_client f corpus lo hi = Inr xs
    \<and> scopes_changed_for_corpus_with_client l corpus lo hi = Inr xs
    \<and> scopes_changed_for_corpus_with_client l corpus hi hi2 = Inr ys
    \<and> scopes_changed_for_corpus_with_client l corpus lo hi2 = Inr (xs @ ys)
    \<and> (\<forall>r\<in>set (lg_rows l) - set (lg_rows f). int (unat (cs_get hi)) < lr_change_seq r)"
proof -
  from ledger_run [OF run ok fence] have okl: "ledger_ok l" and af: "after_freeze f l" by auto
  note m = current_change_seq_eq(1) [OF ok hi] current_change_seq_eq(1) [OF okl hi2]
  from scopes_eq [OF ok] obtain xs where xs: "scopes_changed_for_corpus_with_client f corpus lo hi = Inr xs" by blast
  from scopes_eq [OF okl] obtain ys where ys: "scopes_changed_for_corpus_with_client l corpus hi hi2 = Inr ys" by blast
  have xs': "scopes_changed_for_corpus_with_client l corpus lo hi = Inr xs"
    using xs window_stable [OF af ok] m(1) by (simp add: scopes_changed_for_corpus_with_client_def)
  have "scopes_changed_for_corpus_with_client l corpus lo hi2 = Inr (xs @ ys)"
    using scopes_split [of lo hi hi2 l corpus] i64_saturating_mono [OF lo] frozen_max_mono [OF af] m xs' ys by simp
  moreover have "int (unat (cs_get hi)) = max_change_seq f"
    using current_change_seq_eq(2) [OF ok hi] by simp
  then have "int (unat (cs_get hi)) < lr_change_seq r" if "r \<in> set (lg_rows l) - set (lg_rows f)" for r
    using that af max_change_seq_bounds(2) [OF ok] by (fastforce simp: after_freeze_def)
  ultimately show ?thesis using xs xs' ys by blast
qed

definition sample_context :: outbox_context where
  "sample_context = \<lparr>ox_ingest_run_id = ''run-1'', ox_schema_version = 30\<rparr>"

definition sample_event :: "string \<Rightarrow> outbox_event" where
  "sample_event key = outbox_event_scope ''core'' ''documents'' Upsert ''document'' key"

definition after_emit :: "nat \<Rightarrow> string \<Rightarrow> ledger \<Rightarrow> ledger" where
  "after_emit txn key l = (case emit_change txn sample_context (sample_event key) l of None \<Rightarrow> l | Some (l', _) \<Rightarrow> l')"

text \<open>Two writers commit in the order opposite to their numbers, then the builder freezes, then a third one writes.\<close>

definition sample_frozen :: ledger where
  "sample_frozen = (commit_txn 1 (commit_txn 2 (after_emit 2 ''b'' (after_emit 1 ''a'' empty_ledger))))\<lparr>lg_fence := True\<rparr>"

definition sample_later :: ledger where
  "sample_later = commit_txn 3 (after_emit 3 ''c'' (release_outbox_fence sample_frozen))"

lemma after_emit_step:
  assumes "\<not> lg_fence l"
  shows "ledger_step l (after_emit txn key l)"
proof -
  from assms obtain p where "emit_change txn sample_context (sample_event key) l = Some p"
    by (cases "emit_change txn sample_context (sample_event key) l")
      (simp_all add: emit_change_def Let_def split: if_splits)
  then show ?thesis by (cases p) (simp add: after_emit_def ledger_step.emit)
qed

lemma sample_run: "ledger_step\<^sup>*\<^sup>* sample_frozen sample_later"
proof -
  have "ledger_step sample_frozen (release_outbox_fence sample_frozen)" by (rule ledger_step.release)
  moreover have "ledger_step (release_outbox_fence sample_frozen) (after_emit 3 ''c'' (release_outbox_fence sample_frozen))"
    by (rule after_emit_step) (simp add: release_outbox_fence_def)
  ultimately show ?thesis unfolding sample_later_def
    by (meson ledger_step.commit rtranclp.rtrancl_into_rtrancl rtranclp.rtrancl_refl)
qed

lemma sample_frozen_eq: "sample_frozen = \<lparr>lg_rows = [log_row_of sample_context (sample_event ''b'') 2,
    log_row_of sample_context (sample_event ''a'') 1], lg_next = 3, lg_pending = (\<lambda>_. []), lg_shared = [], lg_fence = True\<rparr>"
  by (auto simp: sample_frozen_def after_emit_def emit_change_def empty_ledger_def i64_max_def commit_txn_def end_txn_def
      Let_def)

lemma sample_later_eq: "sample_later = \<lparr>lg_rows = [log_row_of sample_context (sample_event ''b'') 2,
    log_row_of sample_context (sample_event ''a'') 1, log_row_of sample_context (sample_event ''c'') 3], lg_next = 4,
    lg_pending = (\<lambda>_. []), lg_shared = [], lg_fence = False\<rparr>"
  by (auto simp: sample_later_def sample_frozen_eq after_emit_def emit_change_def i64_max_def commit_txn_def end_txn_def
      Let_def release_outbox_fence_def)

theorem frozen_window_is_final_witness:
  "\<exists>xs ys. scopes_changed_for_corpus_with_client sample_frozen ''core'' (ChangeSeq 0) (ChangeSeq 2) = Inr xs
    \<and> scopes_changed_for_corpus_with_client sample_later ''core'' (ChangeSeq 2) (ChangeSeq 3) = Inr ys
    \<and> map sc_scope_key (xs @ ys) = [''a'', ''b'', ''c'']"
proof -
  have ok: "ledger_ok sample_frozen"
    by (simp add: sample_frozen_eq ledger_ok_def row_in_use_def log_row_of_def sample_event_def
        outbox_event_scope_def i64_max_def del: event_kind_as_str.simps)
  have cur: "current_change_seq_with_client sample_frozen = Inr (ChangeSeq 2)"
    "current_change_seq_with_client sample_later = Inr (ChangeSeq 3)"
    by (simp_all add: current_change_seq_with_client_def max_change_seq_def sample_frozen_eq sample_later_eq
        log_row_of_def change_seq_from_db_def u64_try_from_def ok_or_def)
  have all: "scopes_changed_for_corpus_with_client sample_later ''core'' (ChangeSeq 0) (ChangeSeq 3)
    = Inr (map (\<lambda>(n, k). \<lparr>sc_change_seq = ChangeSeq n, sc_table_name = ''documents'', sc_op = Upsert,
        sc_scope_kind = ''document'', sc_scope_key = k\<rparr>) [(1, ''a''), (2, ''b''), (3, ''c'')])"
    unfolding sample_later_eq by code_simp
  have "lg_fence sample_frozen" by (simp add: sample_frozen_eq)
  from frozen_window_is_final [OF ok this sample_run cur, of "ChangeSeq 0" "''core''"] obtain xs ys
    where xs: "scopes_changed_for_corpus_with_client sample_frozen ''core'' (ChangeSeq 0) (ChangeSeq 2) = Inr xs"
      and ys: "scopes_changed_for_corpus_with_client sample_later ''core'' (ChangeSeq 2) (ChangeSeq 3) = Inr ys"
      and "scopes_changed_for_corpus_with_client sample_later ''core'' (ChangeSeq 0) (ChangeSeq 3) = Inr (xs @ ys)"
    by auto
  then have "map sc_scope_key (xs @ ys) = [''a'', ''b'', ''c'']"
    unfolding all sum.inject by (drule_tac sym) (simp del: map_append append_eq_conv_conj)
  with xs ys show ?thesis by (intro exI conjI)
qed

end
