(* ===== verification/Package_Catalog.thy ===== *)
theory Package_Catalog
  imports Contract Json Errors
begin

text \<open>
  The producer's package catalog (\<open>storage/package_catalog.rs\<close>): one row per built package, the bridge
  between the global change sequence and the per-corpus package sequence.  The table is the list of its
  rows; its primary key is (corpus, package sequence) and package ids are unique.
\<close>

section \<open>Rows\<close>

record package_catalog_row =
  pr_corpus :: string
  pr_package_sequence :: int
  pr_package_id :: string
  pr_package_kind :: string
  pr_baseline_id :: string
  pr_generation :: string
  pr_included_change_seq_low :: int
  pr_included_change_seq_high :: int
  pr_previous_package_id :: "string option"
  pr_previous_package_digest :: "string option"
  pr_package_digest :: "string option"
  pr_manifest_digest :: "string option"
  pr_schema_version :: int
  pr_embedding_fingerprint :: string
  pr_builder_versions :: json
  pr_status :: string

record latest_package =
  lp_package_sequence :: int
  lp_package_id :: string
  lp_package_digest :: "string option"
  lp_baseline_id :: string
  lp_generation :: string
  lp_included_change_seq_high :: int
  lp_schema_version :: int
  lp_embedding_fingerprint :: string
  lp_builder_versions :: json

record catalog_row =
  ct_package_sequence :: int
  ct_package_id :: string
  ct_package_kind :: string
  ct_baseline_id :: string
  ct_generation :: string
  ct_included_change_seq_low :: int
  ct_included_change_seq_high :: int
  ct_package_digest :: "string option"
  ct_manifest_digest :: "string option"
  ct_schema_version :: int
  ct_embedding_fingerprint :: string
  ct_builder_versions :: json
  ct_status :: string

type_synonym catalog = "package_catalog_row list"

text \<open>The check constraints of the table.\<close>

definition catalog_check :: "package_catalog_row \<Rightarrow> bool" where
  "catalog_check r \<longleftrightarrow> pr_package_kind r \<in> {''baseline'', ''rebaseline'', ''incremental''}
     \<and> pr_status r \<in> {''built'', ''published'', ''failed''}"

section \<open>Operations\<close>

definition same_identity :: "package_catalog_row \<Rightarrow> package_catalog_row \<Rightarrow> bool" where
  "same_identity existing row \<longleftrightarrow>
     pr_corpus existing = pr_corpus row
     \<and> pr_package_sequence existing = pr_package_sequence row
     \<and> pr_package_kind existing = pr_package_kind row
     \<and> pr_baseline_id existing = pr_baseline_id row
     \<and> pr_generation existing = pr_generation row
     \<and> pr_included_change_seq_low existing = pr_included_change_seq_low row
     \<and> pr_included_change_seq_high existing = pr_included_change_seq_high row
     \<and> pr_package_digest existing = pr_package_digest row
     \<and> pr_manifest_digest existing = pr_manifest_digest row
     \<and> pr_schema_version existing = pr_schema_version row
     \<and> pr_embedding_fingerprint existing = pr_embedding_fingerprint row"

definition insert_package_catalog_row ::
  "package_catalog_row \<Rightarrow> catalog \<Rightarrow> (catalog, storage_error) result" where
  "insert_package_catalog_row row catalog =
     (if \<not> catalog_check row then Inl PostgresClient
      else case List.find (\<lambda>r. pr_package_id r = pr_package_id row) catalog of
        Some existing \<Rightarrow> if same_identity existing row then Inr catalog else Inl PackageCatalogError
      | None \<Rightarrow>
          if list_ex (\<lambda>r. pr_corpus r = pr_corpus row \<and> pr_package_sequence r = pr_package_sequence row) catalog
          then Inl PostgresClient
          else Inr (catalog @ [row]))"

definition corpus_rows :: "catalog \<Rightarrow> string \<Rightarrow> package_catalog_row list" where
  "corpus_rows catalog corpus = sort_key pr_package_sequence (filter (\<lambda>r. pr_corpus r = corpus) catalog)"

definition latest_of_row :: "package_catalog_row \<Rightarrow> latest_package" where
  "latest_of_row r = \<lparr>lp_package_sequence = pr_package_sequence r, lp_package_id = pr_package_id r,
     lp_package_digest = pr_package_digest r, lp_baseline_id = pr_baseline_id r,
     lp_generation = pr_generation r, lp_included_change_seq_high = pr_included_change_seq_high r,
     lp_schema_version = pr_schema_version r, lp_embedding_fingerprint = pr_embedding_fingerprint r,
     lp_builder_versions = pr_builder_versions r\<rparr>"

definition latest_package_for_corpus :: "catalog \<Rightarrow> string \<Rightarrow> latest_package option" where
  "latest_package_for_corpus catalog corpus =
     (let rows = corpus_rows catalog corpus in if rows = [] then None else Some (latest_of_row (last rows)))"

definition package_catalog_status :: "catalog \<Rightarrow> string \<Rightarrow> string \<Rightarrow> string option" where
  "package_catalog_status catalog corpus package_id =
     map_option pr_status (List.find (\<lambda>r. pr_corpus r = corpus \<and> pr_package_id r = package_id) catalog)"

definition delete_unpublished_package_row :: "string \<Rightarrow> string \<Rightarrow> catalog \<Rightarrow> catalog \<times> nat" where
  "delete_unpublished_package_row corpus package_id catalog =
     (let gone = (\<lambda>r. pr_corpus r = corpus \<and> pr_package_id r = package_id \<and> pr_status r = ''built'')
      in (filter (\<lambda>r. \<not> gone r) catalog, length (filter gone catalog)))"

definition catalog_row_of :: "package_catalog_row \<Rightarrow> catalog_row" where
  "catalog_row_of r = \<lparr>ct_package_sequence = pr_package_sequence r, ct_package_id = pr_package_id r,
     ct_package_kind = pr_package_kind r, ct_baseline_id = pr_baseline_id r, ct_generation = pr_generation r,
     ct_included_change_seq_low = pr_included_change_seq_low r,
     ct_included_change_seq_high = pr_included_change_seq_high r, ct_package_digest = pr_package_digest r,
     ct_manifest_digest = pr_manifest_digest r, ct_schema_version = pr_schema_version r,
     ct_embedding_fingerprint = pr_embedding_fingerprint r, ct_builder_versions = pr_builder_versions r,
     ct_status = pr_status r\<rparr>"

definition catalog_rows_for_corpus :: "catalog \<Rightarrow> string \<Rightarrow> catalog_row list" where
  "catalog_rows_for_corpus catalog corpus = map catalog_row_of (corpus_rows catalog corpus)"

definition is_media_kind :: "string \<Rightarrow> bool" where
  "is_media_kind kind \<longleftrightarrow> kind = ''baseline'' \<or> kind = ''rebaseline''"

definition latest_media_package_for_corpus :: "catalog \<Rightarrow> string \<Rightarrow> catalog_row option" where
  "latest_media_package_for_corpus catalog corpus =
     List.find (\<lambda>r. is_media_kind (ct_package_kind r)) (rev (catalog_rows_for_corpus catalog corpus))"

text \<open>The update of \<open>mark_package_published\<close> (\<open>cycle.rs\<close>), with the number of rows it matched.\<close>

definition set_published :: "string \<Rightarrow> string \<Rightarrow> catalog \<Rightarrow> catalog \<times> nat" where
  "set_published corpus package_id catalog =
     (let hit = (\<lambda>r. pr_corpus r = corpus \<and> pr_package_id r = package_id)
      in (map (\<lambda>r. if hit r then r\<lparr>pr_status := ''published''\<rparr> else r) catalog, length (filter hit catalog)))"

section \<open>The keys of the table\<close>

definition catalog_ok :: "catalog \<Rightarrow> bool" where
  "catalog_ok catalog \<longleftrightarrow> distinct (map pr_package_id catalog)
     \<and> distinct (map (\<lambda>r. (pr_corpus r, pr_package_sequence r)) catalog)
     \<and> list_all catalog_check catalog"

lemma find_None_iff': "List.find P xs = None \<longleftrightarrow> (\<forall>x\<in>set xs. \<not> P x)"
  by (auto simp: find_None_iff)

lemma insert_package_catalog_row_InrD:
  assumes "insert_package_catalog_row row catalog = Inr c'"
  shows "(c' = catalog \<and> (\<exists>r\<in>set catalog. pr_package_id r = pr_package_id row \<and> same_identity r row))
    \<or> (c' = catalog @ [row] \<and> catalog_check row \<and> (\<forall>r\<in>set catalog. pr_package_id r \<noteq> pr_package_id row)
       \<and> (\<forall>r\<in>set catalog. (pr_corpus r, pr_package_sequence r) \<noteq> (pr_corpus row, pr_package_sequence row)))"
proof (cases "List.find (\<lambda>r. pr_package_id r = pr_package_id row) catalog")
  case None
  then have "\<forall>r\<in>set catalog. pr_package_id r \<noteq> pr_package_id row" by (simp add: find_None_iff')
  with assms None show ?thesis by (auto simp: insert_package_catalog_row_def list_ex_iff split: if_splits)
next
  case (Some r)
  from find_SomeD [OF this] have "r \<in> set catalog" "pr_package_id r = pr_package_id row" by auto
  with assms Some show ?thesis by (auto simp: insert_package_catalog_row_def split: if_splits)
qed

lemma insert_package_catalog_row_ok:
  assumes "catalog_ok catalog" "insert_package_catalog_row row catalog = Inr c'"
  shows "catalog_ok c'"
  using insert_package_catalog_row_InrD [OF assms(2)]
proof (elim disjE conjE)
  assume "c' = catalog" with assms(1) show ?thesis by simp
next
  assume c: "c' = catalog @ [row]" and k: "catalog_check row"
    and id: "\<forall>r\<in>set catalog. pr_package_id r \<noteq> pr_package_id row"
    and pk: "\<forall>r\<in>set catalog. (pr_corpus r, pr_package_sequence r) \<noteq> (pr_corpus row, pr_package_sequence row)"
  from id have "pr_package_id row \<notin> pr_package_id ` set catalog" by force
  moreover from pk have "(pr_corpus row, pr_package_sequence row) \<notin> (\<lambda>r. (pr_corpus r, pr_package_sequence r)) ` set catalog"
    by force
  ultimately show ?thesis using assms(1) k by (simp add: catalog_ok_def c)
qed

lemma set_published_keys:
  "map pr_package_id (fst (set_published corpus package_id catalog)) = map pr_package_id catalog"
  "map (\<lambda>r. (pr_corpus r, pr_package_sequence r)) (fst (set_published corpus package_id catalog))
     = map (\<lambda>r. (pr_corpus r, pr_package_sequence r)) catalog"
  by (induction catalog) (auto simp: set_published_def Let_def)

lemma set_published_ok: "catalog_ok catalog \<Longrightarrow> catalog_ok (fst (set_published corpus package_id catalog))"
  unfolding catalog_ok_def set_published_keys
  by (auto simp: set_published_def Let_def catalog_check_def list_all_iff)

lemma delete_unpublished_ok:
  "catalog_ok catalog \<Longrightarrow> catalog_ok (fst (delete_unpublished_package_row corpus package_id catalog))"
  by (auto simp: catalog_ok_def delete_unpublished_package_row_def Let_def distinct_map list_all_iff inj_on_def)

text \<open>The rows of a corpus come in strictly increasing sequence order.\<close>

lemma set_corpus_rows: "set (corpus_rows catalog corpus) = {r \<in> set catalog. pr_corpus r = corpus}"
  by (simp add: corpus_rows_def)

lemma corpus_rows_strict:
  assumes "catalog_ok catalog"
  shows "sorted_wrt (<) (map pr_package_sequence (corpus_rows catalog corpus))"
proof -
  have "distinct (map pr_package_sequence (filter (\<lambda>r. pr_corpus r = corpus) catalog))"
    using assms by (auto simp: catalog_ok_def distinct_map inj_on_def)
  then have "distinct (map pr_package_sequence (corpus_rows catalog corpus))"
    by (auto simp: corpus_rows_def distinct_map)
  moreover have "sorted (map pr_package_sequence (corpus_rows catalog corpus))" by (simp add: corpus_rows_def)
  ultimately show ?thesis by (simp add: strict_sorted_iff)
qed

lemma latest_package_greatest:
  assumes "latest_package_for_corpus catalog corpus = Some lp" "r \<in> set catalog" "pr_corpus r = corpus"
  shows "pr_package_sequence r \<le> lp_package_sequence lp"
proof -
  let ?rs = "corpus_rows catalog corpus"
  have "?rs \<noteq> []" and lp: "lp = latest_of_row (last ?rs)"
    using assms(1) by (auto simp: latest_package_for_corpus_def Let_def split: if_splits)
  have "sorted (map pr_package_sequence ?rs)" by (simp add: corpus_rows_def)
  then have "sorted (map pr_package_sequence (butlast ?rs @ [last ?rs]))" using \<open>?rs \<noteq> []\<close> by simp
  moreover have "r \<in> set (butlast ?rs @ [last ?rs])"
    using assms(2,3) \<open>?rs \<noteq> []\<close> by (simp add: set_corpus_rows)
  ultimately show ?thesis unfolding lp latest_of_row_def by (auto simp: sorted_append)
qed

end
