(* ===== verification/Remote_Builder.thy ===== *)
theory Remote_Builder
  imports Package_Catalog Catchup
begin

text \<open>
  The producer's remote manifest (\<open>package-build/remote_manifest.rs\<close>) and the layout of the published root
  (\<open>package-build/publish.rs\<close>).  The file system is the map of its files; serde, SHA-256 and the signer are
  parameters.
\<close>

section \<open>Errors, files and the published layout\<close>

datatype build_error =
    BuildStorage storage_error
  | BuildPostgres
  | BuildIo
  | BuildJson
  | BuildCanonical canonical_error
  | BuildSign sign_error
  | BuildAttribution attribution_error

definition missing :: build_error where
  "missing = BuildStorage GenerationsError"

type_synonym files = "(string, string) btree"

record build_env =
  be_parse_manifest :: "string \<Rightarrow> embedded_manifest signed option"
  be_print_manifest :: "embedded_manifest signed \<Rightarrow> string"
  be_print_remote :: "remote_manifest signed \<Rightarrow> string"
  be_print_json :: "json \<Rightarrow> string"
  be_print_set :: "replace_set \<Rightarrow> string"
  be_manifest_codec :: "embedded_manifest codec"
  be_remote_codec :: "remote_manifest codec"
  be_sha256 :: "string \<Rightarrow> string"
  be_signer :: signer

definition published_package_dir :: "string \<Rightarrow> string \<Rightarrow> string \<Rightarrow> string" where
  "published_package_dir pub corpus package_id = path_join (path_join (path_join pub corpus) ''packages'') package_id"

definition published_manifest_path :: "string \<Rightarrow> string \<Rightarrow> string" where
  "published_manifest_path pub corpus = path_join (path_join pub corpus) ''manifest.json''"

text \<open>The files below a directory, with their paths relative to it, and their total size.\<close>

definition files_under :: "string \<Rightarrow> files \<Rightarrow> (string \<times> string) list" where
  "files_under dir fs =
     List.map_filter (\<lambda>(path, bytes). map_option (\<lambda>rest. (rest, bytes)) (strip_prefix path (dir @ ''/''))) fs"

definition artifact_dir_size_bytes :: "string \<Rightarrow> files \<Rightarrow> u64" where
  "artifact_dir_size_bytes dir fs = sum_list (map (\<lambda>(_, bytes). of_nat (length bytes)) (files_under dir fs))"

section \<open>Parameters\<close>

record remote_manifest_params =
  mp_publisher :: string
  mp_environment :: string
  mp_generated_at :: string
  mp_catchup_policy :: catchup_policy
  mp_entitlement_tier :: entitlement_tier
  mp_license_epoch :: u32
  mp_audience :: "string option"
  mp_signing_key_id :: key_id
  mp_uri_base :: string
  mp_max_retained_incrementals :: nat
  mp_default_apply_seconds :: u32
  mp_default_load_seconds :: u32

section \<open>Binding an artifact to its catalog row\<close>

definition artifact_uri :: "remote_manifest_params \<Rightarrow> string \<Rightarrow> string \<Rightarrow> string" where
  "artifact_uri params corpus package_id = mp_uri_base params @ corpus @ ''/packages/'' @ package_id"

definition read_published_manifest ::
  "build_env \<Rightarrow> files \<Rightarrow> string \<Rightarrow> string \<Rightarrow> string \<Rightarrow> (embedded_manifest signed, build_error) result" where
  "read_published_manifest env fs pub corpus package_id =
     and_then (ok_or (bt_get fs (manifest_path (published_package_dir pub corpus package_id))) missing) (\<lambda>bytes.
     ok_or (be_parse_manifest env bytes) BuildJson)"

definition manifest_digest_of :: "build_env \<Rightarrow> embedded_manifest \<Rightarrow> (string, canonical_error) result" where
  "manifest_digest_of env m =
     and_then (value_bytes (be_manifest_codec env) m) (\<lambda>b. Inr (digest_bytes (be_sha256 env) b))"

definition verify_catalog_identity ::
  "build_env \<Rightarrow> catalog_row \<Rightarrow> embedded_manifest signed \<Rightarrow> bool \<Rightarrow> (unit, build_error) result" where
  "verify_catalog_identity env row doc expect_incremental =
     (let manifest = sd_payload doc; i = em_identity manifest in
      and_then (ensure (ct_package_digest row = Some (in_artifact_sha256 (em_integrity manifest))) missing) (\<lambda>_.
      and_then (map_err (\<lambda>_. missing) (manifest_digest_of env manifest)) (\<lambda>canonical.
      and_then (ensure (ct_manifest_digest row = Some canonical) missing) (\<lambda>_.
      and_then (ensure (id_package_id i = ct_package_id row) missing) (\<lambda>_.
      and_then (ensure (package_kind_as_str (id_package_kind i) = ct_package_kind row) missing) (\<lambda>_.
      and_then (ensure (id_baseline_id i = ct_baseline_id row) missing) (\<lambda>_.
      and_then (ensure (id_generation i = ct_generation row) missing) (\<lambda>_.
      and_then (ensure (i64_saturating (ps_get (id_to_sequence i)) = ct_package_sequence row) missing) (\<lambda>_.
      if expect_incremental then
        and_then (ensure (id_package_kind i = Incremental) missing) (\<lambda>_.
        ensure (ps_get (id_to_sequence i) = ps_get (ps_next (id_from_sequence i))) missing)
      else Inr ())))))))))"

text \<open>\<open>slice::windows(2)\<close>: the pairs of neighbours.\<close>

fun ensure_gap_free :: "remote_package_entry list \<Rightarrow> (unit, build_error) result" where
  "ensure_gap_free (a # b # es) =
     (if ps_get (re_to_sequence a) \<noteq> ps_get (re_from_sequence b) then Inl missing else ensure_gap_free (b # es))"
| "ensure_gap_free _ = Inr ()"

definition row_counts :: "embedded_manifest \<Rightarrow> (string, u64) btree" where
  "row_counts manifest =
     foldl (\<lambda>counts op. bt_insert (oc_table op)
              ((case bt_get counts (oc_table op) of None \<Rightarrow> 0 | Some n \<Rightarrow> n) + oc_count op) counts)
       [] (ap_operations (em_apply manifest))"

section \<open>Building the manifest\<close>

definition baseline_ref_of ::
  "remote_manifest_params \<Rightarrow> string \<Rightarrow> catalog_row \<Rightarrow> embedded_manifest signed \<Rightarrow> u64 \<Rightarrow> baseline_ref" where
  "baseline_ref_of params corpus media doc bytes =
     (let m = sd_payload doc; i = em_identity m; c = em_compatibility m in
      \<lparr>br_baseline_id = id_baseline_id i, br_generation = id_generation i, br_package_kind = id_package_kind i,
       br_sequence = id_to_sequence i, br_schema_version = co_schema_version c,
       br_minimum_client_version = co_minimum_client_version c,
       br_artifact_uri = artifact_uri params corpus (ct_package_id media),
       br_compressed_size_bytes = bytes, br_uncompressed_size_bytes = bytes,
       br_estimated_load_seconds = mp_default_load_seconds params,
       br_sha256 = in_artifact_sha256 (em_integrity m), br_signature = sd_signature doc\<rparr>)"

definition retained_incrementals :: "nat \<Rightarrow> int \<Rightarrow> catalog_row list \<Rightarrow> catalog_row list" where
  "retained_incrementals max_retained media_id rows =
     (let incrementals = sort_key ct_package_sequence
            (filter (\<lambda>r. ct_package_kind r = ''incremental'' \<and> ct_package_sequence r > media_id) rows)
      in if length incrementals > max_retained
         then drop (length incrementals - max_retained) incrementals else incrementals)"

definition package_entry_of ::
  "remote_manifest_params \<Rightarrow> string \<Rightarrow> catalog_row \<Rightarrow> embedded_manifest signed \<Rightarrow> u64 \<Rightarrow> remote_package_entry" where
  "package_entry_of params corpus row doc bytes =
     (let m = sd_payload doc; c = em_compatibility m in
      \<lparr>re_package_id = ct_package_id row, re_from_sequence = id_from_sequence (em_identity m),
       re_to_sequence = id_to_sequence (em_identity m),
       re_artifact_uri = artifact_uri params corpus (ct_package_id row),
       re_compressed_size_bytes = bytes, re_uncompressed_size_bytes = bytes,
       re_estimated_apply_seconds = mp_default_apply_seconds params, re_row_counts = row_counts m,
       re_requires_baseline = False, re_minimum_client_version = co_minimum_client_version c,
       re_schema_version = co_schema_version c, re_embedding_fingerprint = co_embedding_fingerprint c,
       re_builder_versions = co_builder_versions c, re_sha256 = in_artifact_sha256 (em_integrity m),
       re_signature = sd_signature doc\<rparr>)"

definition build_entry ::
  "build_env \<Rightarrow> files \<Rightarrow> string \<Rightarrow> string \<Rightarrow> remote_manifest_params \<Rightarrow> catalog_row \<Rightarrow>
   (remote_package_entry, build_error) result" where
  "build_entry env fs pub corpus params row =
     and_then (read_published_manifest env fs pub corpus (ct_package_id row)) (\<lambda>doc.
     and_then (verify_catalog_identity env row doc True) (\<lambda>_.
     Inr (package_entry_of params corpus row doc
            (artifact_dir_size_bytes (published_package_dir pub corpus (ct_package_id row)) fs))))"

definition sequence_bounds :: "u64 \<Rightarrow> remote_package_entry list \<Rightarrow> (u64 \<times> u64, build_error) result" where
  "sequence_bounds media_seq packages =
     (if packages = [] then Inr (media_seq, media_seq)
      else and_then (ensure_gap_free packages) (\<lambda>_.
        Inr (ps_get (re_to_sequence (last packages)), ps_get (re_from_sequence (hd packages)))))"

definition below_window_ranges :: "u64 \<Rightarrow> string \<Rightarrow> catchup_range list" where
  "below_window_ranges min_available baseline_id =
     (if min_available > 1
      then [\<lparr>cr_from_sequence = PackageSequence 0, cr_to_sequence = Some (PackageSequence (min_available - 1)),
             cr_mode = RequiresBaseline, cr_baseline_id = Some baseline_id\<rparr>]
      else [])"

definition remote_manifest_of ::
  "build_env \<Rightarrow> remote_manifest_params \<Rightarrow> corpus \<Rightarrow> baseline_ref \<Rightarrow> remote_package_entry list \<Rightarrow>
   u64 \<Rightarrow> u64 \<Rightarrow> remote_manifest" where
  "remote_manifest_of env params corpus baseline packages head min_available =
     \<lparr>rm_manifest_version = 1, rm_generated_at = mp_generated_at params, rm_publisher = mp_publisher params,
      rm_corpus = corpus, rm_environment = mp_environment params, rm_head_sequence = PackageSequence head,
      rm_min_available_sequence = PackageSequence min_available, rm_active_baseline = baseline,
      rm_packages = packages, rm_catchup_ranges = below_window_ranges min_available (br_baseline_id baseline),
      rm_catchup_policy = mp_catchup_policy params,
      rm_entitlement = \<lparr>el_corpus = corpus, el_tier = mp_entitlement_tier params,
        el_license_epoch = mp_license_epoch params, el_audience = mp_audience params\<rparr>,
      rm_signing = \<lparr>si_key_id = mp_signing_key_id params, si_algorithm = sg_algorithm (be_signer env)\<rparr>\<rparr>"

definition build_inner ::
  "build_env \<Rightarrow> files \<Rightarrow> catalog \<Rightarrow> corpus \<Rightarrow> string \<Rightarrow> remote_manifest_params \<Rightarrow>
   (remote_manifest signed, build_error) result" where
  "build_inner env fs catalog corpus_typed pub params =
     (let corpus = corpus_as_str corpus_typed; rows = catalog_rows_for_corpus catalog corpus in
      and_then (ok_or (List.find (\<lambda>r. is_media_kind (ct_package_kind r)) (rev rows)) missing) (\<lambda>media.
      and_then (read_published_manifest env fs pub corpus (ct_package_id media)) (\<lambda>media_signed.
      and_then (verify_catalog_identity env media media_signed False) (\<lambda>_.
      let baseline = baseline_ref_of params corpus media media_signed
            (artifact_dir_size_bytes (published_package_dir pub corpus (ct_package_id media)) fs) in
      and_then (map_result (build_entry env fs pub corpus params)
        (retained_incrementals (mp_max_retained_incrementals params) (ct_package_sequence media) rows)) (\<lambda>packages.
      and_then (sequence_bounds (ps_get (br_sequence baseline)) packages) (\<lambda>(head, min_available).
      map_err BuildSign (seal (be_signer env) (be_remote_codec env)
        (remote_manifest_of env params corpus_typed baseline packages head min_available))))))))"

definition build_remote_manifest ::
  "build_env \<Rightarrow> files \<Rightarrow> catalog \<Rightarrow> string \<Rightarrow> string \<Rightarrow> remote_manifest_params \<Rightarrow>
   (remote_manifest signed, build_error) result" where
  "build_remote_manifest env fs catalog corpus pub params =
     and_then (map_err BuildAttribution (corpus_new corpus)) (\<lambda>corpus_typed.
     build_inner env fs catalog corpus_typed pub params)"

section \<open>The shape of a built manifest\<close>

lemma verify_catalog_identity_InrD:
  assumes "verify_catalog_identity env row doc incr = Inr u"
  shows "i64_saturating (ps_get (id_to_sequence (em_identity (sd_payload doc)))) = ct_package_sequence row
    \<and> package_kind_as_str (id_package_kind (em_identity (sd_payload doc))) = ct_package_kind row
    \<and> id_package_id (em_identity (sd_payload doc)) = ct_package_id row
    \<and> ct_package_digest row = Some (in_artifact_sha256 (em_integrity (sd_payload doc)))
    \<and> (incr \<longrightarrow> ps_get (id_to_sequence (em_identity (sd_payload doc)))
          = ps_get (id_from_sequence (em_identity (sd_payload doc))) + 1)"
  using assms by (auto simp: verify_catalog_identity_def Let_def result_simps ps_next_def split: if_splits)

lemma build_entry_InrD:
  assumes "build_entry env fs pub corpus params row = Inr e"
  shows "re_package_id e = ct_package_id row \<and> ct_package_digest row = Some (re_sha256 e)
    \<and> i64_saturating (ps_get (re_to_sequence e)) = ct_package_sequence row
    \<and> ps_get (re_to_sequence e) = ps_get (re_from_sequence e) + 1"
proof -
  from assms obtain doc u where "verify_catalog_identity env row doc True = Inr u"
    and "e = package_entry_of params corpus row doc
      (artifact_dir_size_bytes (published_package_dir pub corpus (ct_package_id row)) fs)"
    by (auto simp: build_entry_def result_simps)
  then have e: "re_package_id e = ct_package_id row" "re_sha256 e = in_artifact_sha256 (em_integrity (sd_payload doc))"
    "re_to_sequence e = id_to_sequence (em_identity (sd_payload doc))"
    "re_from_sequence e = id_from_sequence (em_identity (sd_payload doc))"
    and v: "verify_catalog_identity env row doc True = Inr u"
    by (simp_all add: package_entry_of_def Let_def)
  show ?thesis using verify_catalog_identity_InrD [OF v] unfolding e by blast
qed

text \<open>A list of \<open>+1\<close> links from a sequence, without a gap.\<close>

fun linked_from :: "u64 \<Rightarrow> remote_package_entry list \<Rightarrow> bool" where
  "linked_from a [] = True"
| "linked_from a (e # es) = (ps_get (re_from_sequence e) = a \<and> ps_get (re_to_sequence e) = a + 1 \<and> a + 1 \<noteq> 0
     \<and> linked_from (a + 1) es)"

lemma unat_Suc: "(a :: u64) + 1 \<noteq> 0 \<Longrightarrow> unat (a + 1) = unat a + 1"
  using unatSuc [of a] by (simp add: add.commute)

lemma gap_free_linked:
  assumes "ensure_gap_free ps = Inr u" "ps \<noteq> []"
    and "\<forall>e\<in>set ps. ps_get (re_to_sequence e) = ps_get (re_from_sequence e) + 1 \<and> ps_get (re_to_sequence e) \<noteq> 0"
  shows "linked_from (ps_get (re_from_sequence (hd ps))) ps"
  using assms
proof (induction ps rule: ensure_gap_free.induct)
  case (1 a b es)
  have gap: "ps_get (re_to_sequence a) = ps_get (re_from_sequence b)" "ensure_gap_free (b # es) = Inr u"
    using 1(2) by (simp_all split: if_splits)
  have "linked_from (ps_get (re_from_sequence (hd (b # es)))) (b # es)" 
  proof (rule "1.IH")
    show "\<forall>e\<in>set (b # es). ps_get (re_to_sequence e) = ps_get (re_from_sequence e) + 1 \<and> ps_get (re_to_sequence e) \<noteq> 0"
      using 1(4) by (intro ballI) (drule bspec, auto)
  qed (use gap in simp_all)
  moreover from gap(1) have "ps_get (re_from_sequence b) = ps_get (re_from_sequence a) + 1" using 1(4) by simp
  ultimately have "linked_from (ps_get (re_from_sequence a) + 1) (b # es)" by simp
  moreover have "ps_get (re_from_sequence a) + 1 \<noteq> 0" using 1(4) by (metis list.set_intros(1))
  ultimately show ?case using 1(4) by (simp add: linked_from.simps(2) [of _ a] del: linked_from.simps)
qed auto

lemma linked_from_last:
  "linked_from a ps \<Longrightarrow> ps \<noteq> [] \<Longrightarrow> unat (ps_get (re_to_sequence (last ps))) = unat a + length ps"
  by (induction a ps rule: linked_from.induct) (auto simp: unat_Suc)

lemma linked_from_above: "linked_from a ps \<Longrightarrow> p \<in> set ps \<Longrightarrow> unat a \<le> unat (ps_get (re_from_sequence p))"
  by (induction a ps rule: linked_from.induct) (auto simp: unat_Suc)

lemma linked_from_split:
  assumes "linked_from a (pre @ xs)"
  shows "\<exists>b. unat b = unat a + length pre \<and> linked_from b xs
    \<and> (\<forall>p\<in>set pre. unat (ps_get (re_from_sequence p)) < unat b)"
  using assms
proof (induction pre arbitrary: a)
  case (Cons e es)
  then have "linked_from (a + 1) (es @ xs)" by simp
  from Cons.IH [OF this] obtain b where "unat b = unat (a + 1) + length es" "linked_from b xs"
    "\<forall>p\<in>set es. unat (ps_get (re_from_sequence p)) < unat b" by blast
  with Cons.prems show ?case by (intro exI [of _ b]) (auto simp: unat_Suc)
qed auto

lemma linked_from_chain:
  assumes "linked_from b xs" "\<forall>p\<in>set pre. unat (ps_get (re_from_sequence p)) < unat b"
    and "rm_packages m = pre @ xs"
  shows "linked_chain m b xs"
  using assms
proof (induction b xs arbitrary: pre rule: linked_from.induct)
  case (2 a e es)
  have "filter (\<lambda>p. ps_get (re_from_sequence p) = a) pre = []" using 2(3) by (auto simp: filter_empty_conv)
  moreover have "filter (\<lambda>p. ps_get (re_from_sequence p) = a) es = []"
    using 2(2) linked_from_above [of "a + 1" es] by (fastforce simp: filter_empty_conv unat_Suc)
  moreover have "linked_chain m (a + 1) es"
    using 2 by (intro "2.IH" [of "pre @ [e]"]) (auto simp: unat_Suc less_SucI)
  ultimately show ?case using 2 by simp
qed simp

text \<open>The planner finds the chain of every cursor inside the window.\<close>

lemma linked_from_build_chain:
  assumes "linked_from a (rm_packages m)" "unat head = unat a + length (rm_packages m)"
    and "a \<le> c" "c \<le> head"
  shows "build_chain m c head = Some (drop (unat c - unat a) (rm_packages m))"
proof -
  let ?i = "unat c - unat a"
  let ?pre = "take ?i (rm_packages m)" and ?xs = "drop ?i (rm_packages m)"
  have i: "unat a \<le> unat c" "unat c \<le> unat head" using assms(3,4) by (simp_all add: word_le_nat_alt)
  have "linked_from a (?pre @ ?xs)" using assms(1) by simp
  from linked_from_split [OF this] obtain b where b: "unat b = unat a + length ?pre" "linked_from b ?xs"
    "\<forall>p\<in>set ?pre. unat (ps_get (re_from_sequence p)) < unat b" by blast
  then have "b = c" using i assms(2) by (simp add: word_unat_eq_iff)
  with b have "linked_chain m c ?xs" by (intro linked_from_chain [of _ _ ?pre]) simp_all
  moreover have "unat c + length ?xs = unat head" using i assms(2) by simp
  ultimately show ?thesis by (simp add: build_chain_iff)
qed

lemma retained_incrementals_subset:
  assumes "r \<in> set (retained_incrementals k media_id rows)"
  shows "r \<in> set rows \<and> ct_package_kind r = ''incremental'' \<and> ct_package_sequence r > media_id"
  using assms by (auto simp: retained_incrementals_def Let_def dest: in_set_dropD split: if_splits)

lemma retained_incrementals_length: "length (retained_incrementals k media_id rows) \<le> k"
  by (simp add: retained_incrementals_def Let_def)

text \<open>What a successful build has established, in one place.\<close>

definition manifest_parts ::
  "build_env \<Rightarrow> files \<Rightarrow> catalog \<Rightarrow> string \<Rightarrow> string \<Rightarrow> remote_manifest_params \<Rightarrow> remote_manifest \<Rightarrow> catalog_row \<Rightarrow> bool" where
  "manifest_parts env fs catalog corpus pub params m media \<longleftrightarrow>
     (let rows = catalog_rows_for_corpus catalog corpus;
          kept = retained_incrementals (mp_max_retained_incrementals params) (ct_package_sequence media) rows;
          base = rm_active_baseline m; ps = rm_packages m in
      media \<in> set rows \<and> is_media_kind (ct_package_kind media)
      \<and> i64_saturating (ps_get (br_sequence base)) = ct_package_sequence media
      \<and> package_kind_as_str (br_package_kind base) = ct_package_kind media
      \<and> map_result (build_entry env fs pub corpus params) kept = Inr ps
      \<and> sequence_bounds (ps_get (br_sequence base)) ps
          = Inr (ps_get (rm_head_sequence m), ps_get (rm_min_available_sequence m))
      \<and> rm_catchup_ranges m = below_window_ranges (ps_get (rm_min_available_sequence m)) (br_baseline_id base))"

lemma build_remote_manifest_InrD:
  assumes "build_remote_manifest env fs catalog corpus pub params = Inr doc"
  shows "\<exists>media. manifest_parts env fs catalog corpus pub params (sd_payload doc) media"
proof -
  let ?rows = "catalog_rows_for_corpus catalog corpus"
  from assms obtain media ms ps u lo hi where
      media: "List.find (\<lambda>r. is_media_kind (ct_package_kind r)) (rev ?rows) = Some media"
    and v: "verify_catalog_identity env media ms False = Inr u"
    and ps: "map_result (build_entry env fs pub corpus params)
        (retained_incrementals (mp_max_retained_incrementals params) (ct_package_sequence media) ?rows) = Inr ps"
    and b: "sequence_bounds (ps_get (br_sequence (baseline_ref_of params corpus media ms
            (artifact_dir_size_bytes (published_package_dir pub corpus (ct_package_id media)) fs)))) ps = Inr (hi, lo)"
    and s: "seal (be_signer env) (be_remote_codec env) (remote_manifest_of env params (Corpus corpus)
          (baseline_ref_of params corpus media ms
            (artifact_dir_size_bytes (published_package_dir pub corpus (ct_package_id media)) fs)) ps hi lo) = Inr doc"
    by (auto simp: build_remote_manifest_def build_inner_def Let_def result_simps corpus_new_Inr)
  from s have doc: "sd_payload doc = remote_manifest_of env params (Corpus corpus)
          (baseline_ref_of params corpus media ms
            (artifact_dir_size_bytes (published_package_dir pub corpus (ct_package_id media)) fs)) ps hi lo"
    by (auto simp: seal_def result_simps)
  from find_SomeD [OF media] have "media \<in> set ?rows" "is_media_kind (ct_package_kind media)" by auto
  then show ?thesis
    using verify_catalog_identity_InrD [OF v] ps b
    by (intro exI [of _ media]) (simp add: manifest_parts_def doc remote_manifest_of_def baseline_ref_of_def Let_def)
qed

lemma map_result_sources: "map_result f xs = Inr ys \<Longrightarrow> y \<in> set ys \<Longrightarrow> \<exists>x\<in>set xs. f x = Inr y"
  by (induction xs arbitrary: ys) (auto simp: and_then_eq_Inr)

lemma manifest_parts_entries:
  assumes "manifest_parts env fs catalog corpus pub params m media" "e \<in> set (rm_packages m)"
  shows "\<exists>row\<in>set (retained_incrementals (mp_max_retained_incrementals params) (ct_package_sequence media)
      (catalog_rows_for_corpus catalog corpus)). build_entry env fs pub corpus params row = Inr e"
proof (rule map_result_sources)
  show "map_result (build_entry env fs pub corpus params)
      (retained_incrementals (mp_max_retained_incrementals params) (ct_package_sequence media)
        (catalog_rows_for_corpus catalog corpus)) = Inr (rm_packages m)"
    using assms(1) by (simp add: manifest_parts_def Let_def)
qed (rule assms(2))

lemma i64_saturating_0: "i64_saturating 0 = 0"
  by (simp add: i64_saturating_def i64_max_def)

lemma manifest_parts_linked:
  assumes "manifest_parts env fs catalog corpus pub params m media" "rm_packages m \<noteq> []"
  shows "linked_from (ps_get (rm_min_available_sequence m)) (rm_packages m)"
    and "ps_get (rm_head_sequence m) = ps_get (re_to_sequence (last (rm_packages m)))"
    and "unat (ps_get (rm_head_sequence m)) = unat (ps_get (rm_min_available_sequence m)) + length (rm_packages m)"
proof -
  let ?ps = "rm_packages m"
  have "ps_get (re_to_sequence e) = ps_get (re_from_sequence e) + 1 \<and> ps_get (re_to_sequence e) \<noteq> 0" if e: "e \<in> set ?ps" for e
  proof -
    from manifest_parts_entries [OF assms(1) e] obtain row where
      row: "ct_package_sequence row > ct_package_sequence media" and "build_entry env fs pub corpus params row = Inr e"
      by (auto dest: retained_incrementals_subset)
    from build_entry_InrD [OF this(2)] have "i64_saturating (ps_get (re_to_sequence e)) = ct_package_sequence row"
      "ps_get (re_to_sequence e) = ps_get (re_from_sequence e) + 1" by auto
    moreover have "i64_saturating (ps_get (br_sequence (rm_active_baseline m))) = ct_package_sequence media"
      using assms(1) by (simp add: manifest_parts_def Let_def)
    then have "0 < ct_package_sequence row"
      using row i64_saturating_range [of "ps_get (br_sequence (rm_active_baseline m))"] by linarith
    ultimately show ?thesis using i64_saturating_0 by (metis less_irrefl)
  qed
  then have links: "\<forall>e\<in>set ?ps. ps_get (re_to_sequence e) = ps_get (re_from_sequence e) + 1 \<and> ps_get (re_to_sequence e) \<noteq> 0"
    by blast
  have b: "ensure_gap_free ?ps = Inr ()" "ps_get (rm_head_sequence m) = ps_get (re_to_sequence (last ?ps))"
    "ps_get (rm_min_available_sequence m) = ps_get (re_from_sequence (hd ?ps))"
    using assms by (auto simp: manifest_parts_def Let_def sequence_bounds_def result_simps)
  show l: "linked_from (ps_get (rm_min_available_sequence m)) ?ps"
    unfolding b(3) by (rule gap_free_linked [OF b(1) assms(2) links])
  show "ps_get (rm_head_sequence m) = ps_get (re_to_sequence (last ?ps))" by (fact b(2))
  show "unat (ps_get (rm_head_sequence m)) = unat (ps_get (rm_min_available_sequence m)) + length ?ps"
    using linked_from_last [OF l assms(2)] b(2) by simp
qed

lemma manifest_parts_chain:
  assumes "manifest_parts env fs catalog corpus pub params m media"
    and "ps_get (rm_min_available_sequence m) \<le> c" "c \<le> ps_get (rm_head_sequence m)"
  shows "build_chain m c (ps_get (rm_head_sequence m))
    = Some (drop (unat c - unat (ps_get (rm_min_available_sequence m))) (rm_packages m))"
proof (cases "rm_packages m = []")
  case True
  then have "ps_get (rm_head_sequence m) = ps_get (rm_min_available_sequence m)"
    using assms(1) by (auto simp: manifest_parts_def Let_def sequence_bounds_def)
  with assms(2,3) True show ?thesis by (simp add: build_chain_iff)
next
  case False
  note l = manifest_parts_linked [OF assms(1) False]
  show ?thesis by (rule linked_from_build_chain [OF l(1,3) assms(2,3)])
qed

lemma below_window_not_inside:
  assumes "rm_catchup_ranges m = below_window_ranges (ps_get (rm_min_available_sequence m)) b"
    and "ps_get (rm_min_available_sequence m) \<le> c"
  shows "\<not> requires_baseline_range m c"
proof -
  let ?min = "ps_get (rm_min_available_sequence m)"
  have "\<not> c \<le> ?min - 1" if "1 < ?min"
  proof -
    have "?min \<noteq> 0" using that by auto
    then have "unat (?min - 1) = unat ?min - 1" by (rule unat_minus_one)
    then show ?thesis using assms(2) that by (simp add: word_le_nat_alt word_less_nat_alt)
  qed
  then show ?thesis by (simp add: requires_baseline_range_def assms(1) below_window_ranges_def)
qed

lemma i64_saturating_less: "i64_saturating a < i64_saturating b \<Longrightarrow> a < b"
  by (metis i64_saturating_mono leD leI)

lemma manifest_parts_head:
  assumes "manifest_parts env fs catalog corpus pub params m media"
  shows "ps_get (br_sequence (rm_active_baseline m)) \<le> ps_get (rm_head_sequence m)"
proof (cases "rm_packages m = []")
  case True
  then show ?thesis using assms by (simp add: manifest_parts_def Let_def sequence_bounds_def)
next
  case False
  then have "last (rm_packages m) \<in> set (rm_packages m)" by simp
  from manifest_parts_entries [OF assms this] obtain row where
    "ct_package_sequence media < ct_package_sequence row" "build_entry env fs pub corpus params row = Inr (last (rm_packages m))"
    by (auto dest: retained_incrementals_subset)
  moreover have "i64_saturating (ps_get (br_sequence (rm_active_baseline m))) = ct_package_sequence media"
    using assms by (simp add: manifest_parts_def Let_def)
  ultimately have "i64_saturating (ps_get (br_sequence (rm_active_baseline m)))
      < i64_saturating (ps_get (re_to_sequence (last (rm_packages m))))"
    using build_entry_InrD by metis
  from i64_saturating_less [OF this] show ?thesis using manifest_parts_linked(2) [OF assms False] by simp
qed

section \<open>The window is served\<close>


section \<open>Retention and a fresh client\<close>

lemma catalog_rows_strict:
  assumes "catalog_ok catalog"
  shows "sorted_wrt (<) (map ct_package_sequence (filter P (catalog_rows_for_corpus catalog corpus)))"
proof -
  have "sorted_wrt (<) (map ct_package_sequence (catalog_rows_for_corpus catalog corpus))"
    using corpus_rows_strict [OF assms] by (simp add: catalog_rows_for_corpus_def catalog_row_of_def comp_def)
  then show ?thesis by (simp add: sorted_wrt_map sorted_wrt_filter)
qed

lemma i64_saturating_step:
  assumes "unat b \<le> unat a + 1"
  shows "i64_saturating b \<le> i64_saturating a + 1"
proof -
  have "int (unat b) \<le> int (unat a) + 1" using assms by linarith
  then have "uint b \<le> uint a + 1" by simp
  then show ?thesis by (simp add: i64_saturating_def)
qed

lemma retained_after_drop:
  assumes "catalog_ok catalog" "rows = catalog_rows_for_corpus catalog corpus" "1 \<le> k"
    and "k < length (filter (\<lambda>r. ct_package_kind r = ''incremental'' \<and> ct_package_sequence r > media_id) rows)"
  shows "retained_incrementals k media_id rows \<noteq> []
    \<and> media_id + 2 \<le> ct_package_sequence (hd (retained_incrementals k media_id rows))"
proof -
  let ?incs = "filter (\<lambda>r. ct_package_kind r = ''incremental'' \<and> ct_package_sequence r > media_id) rows"
  have strict: "sorted_wrt (<) (map ct_package_sequence ?incs)" unfolding assms(2) by (rule catalog_rows_strict [OF assms(1)])
  then have "sort_key ct_package_sequence ?incs = ?incs" by (intro sort_key_id_if_sorted) (simp add: strict_sorted_imp_sorted)
  then have kept: "retained_incrementals k media_id rows = drop (length ?incs - k) ?incs"
    using assms(4) by (simp add: retained_incrementals_def Let_def)
  let ?n = "length ?incs - k"
  have n: "0 < ?n" "?n < length ?incs" using assms(3,4) by auto
  have "ct_package_sequence (?incs ! 0) < ct_package_sequence (?incs ! ?n)"
    using strict n by (auto simp: sorted_wrt_iff_nth_less)
  moreover have "?incs ! 0 \<in> set ?incs" using n by (intro nth_mem) linarith
  then have "media_id < ct_package_sequence (?incs ! 0)" by simp
  moreover have "?incs \<noteq> []" using n(2) by (metis less_nat_zero_code list.size(3))
  ultimately show ?thesis using n by (simp add: kept hd_drop_conv_nth)
qed

text \<open>
  C27. The retention window can outrun the advertised baseline.  Once more incrementals follow the media root than
  the manifest retains (and it retains any), the manifest that the builder signs sends a fresh client to the baseline,
  and refuses the same client as soon as the baseline is installed: the cursor is below \<open>min_available\<close>,
  and the only baseline on offer is the one it holds.  Only a newer re-baseline frees it.
\<close>
theorem retention_strands_fresh_client:
  assumes "build_remote_manifest env fs catalog corpus pub params = Inr doc" and m: "m = sd_payload doc"
    and ok: "catalog_ok catalog"
    and retain: "1 \<le> mp_max_retained_incrementals params"
    and many: "mp_max_retained_incrementals params < length (filter (\<lambda>r. pr_corpus r = corpus
        \<and> pr_package_kind r = ''incremental''
        \<and> pr_package_sequence r > i64_saturating (ps_get (br_sequence (rm_active_baseline m)))) catalog)"
    and installed: "cc_sequence cursor = ps_get (br_sequence (rm_active_baseline m))"
  shows "plan_catchup m None = baseline_compat_or_blocked (rm_active_baseline m)
    \<and> plan_catchup m (Some cursor) = Blocked BaselineRequired"
proof -
  from build_remote_manifest_InrD [OF assms(1)] m obtain media where
    parts: "manifest_parts env fs catalog corpus pub params m media" by blast
  let ?media = "i64_saturating (ps_get (br_sequence (rm_active_baseline m)))"
  let ?rows = "catalog_rows_for_corpus catalog corpus"
  let ?kept = "retained_incrementals (mp_max_retained_incrementals params) ?media ?rows"
  have media: "ct_package_sequence media = ?media"
    and kept: "map_result (build_entry env fs pub corpus params) ?kept = Inr (rm_packages m)"
    using parts by (simp_all add: manifest_parts_def Let_def)
  have "length (filter (\<lambda>r. ct_package_kind r = ''incremental'' \<and> ct_package_sequence r > ?media) ?rows)
      = length (filter (\<lambda>r. pr_corpus r = corpus \<and> pr_package_kind r = ''incremental'' \<and> pr_package_sequence r > ?media) catalog)"
  proof -
    have "mset (filter (\<lambda>r. ct_package_kind r = ''incremental'' \<and> ct_package_sequence r > ?media) ?rows)
        = image_mset catalog_row_of (mset (filter (\<lambda>r. pr_corpus r = corpus \<and> pr_package_kind r = ''incremental''
            \<and> pr_package_sequence r > ?media) catalog))"
      by (simp add: catalog_rows_for_corpus_def corpus_rows_def filter_map comp_def catalog_row_of_def
          filter_sort conj_commute conj_left_commute)
    from arg_cong [OF this, of size] show ?thesis by (simp only: size_mset size_image_mset)
  qed
  with retained_after_drop [OF ok refl retain, where corpus = corpus and media_id = ?media] many have
    first: "?kept \<noteq> []" "?media + 2 \<le> ct_package_sequence (hd ?kept)" by auto
  then obtain row rest where row: "?kept = row # rest" by (cases ?kept) auto
  with kept have "\<exists>e es. rm_packages m = e # es \<and> build_entry env fs pub corpus params row = Inr e"
    by (cases "rm_packages m") (auto simp: and_then_eq_Inr)
  then obtain e es where e: "rm_packages m = e # es" "build_entry env fs pub corpus params row = Inr e" by blast
  note l = manifest_parts_linked [OF parts]
  have to: "?media + 2 \<le> i64_saturating (ps_get (re_to_sequence e))"
    using build_entry_InrD [OF e(2)] first(2) unfolding row list.sel by linarith
  have "unat (ps_get (re_to_sequence e)) = unat (ps_get (rm_min_available_sequence m)) + 1"
    using l(1) e(1) by (auto simp: unat_Suc)
  then have "ps_get (br_sequence (rm_active_baseline m)) < ps_get (rm_min_available_sequence m)"
  proof (rule contrapos_pp)
    assume "\<not> ps_get (br_sequence (rm_active_baseline m)) < ps_get (rm_min_available_sequence m)"
    then have "unat (ps_get (rm_min_available_sequence m)) \<le> unat (ps_get (br_sequence (rm_active_baseline m)))"
      by (simp add: word_le_nat_alt not_less)
    then show "unat (ps_get (re_to_sequence e)) \<noteq> unat (ps_get (rm_min_available_sequence m)) + 1"
      using to i64_saturating_step [of "ps_get (re_to_sequence e)" "ps_get (br_sequence (rm_active_baseline m))"] by linarith
  qed
  then have "requires_baseline_for m (PackageSequence (cc_sequence cursor))"
    by (simp add: requires_baseline_for_def less_package_sequence_def installed)
  moreover have "unat (ps_get (rm_min_available_sequence m)) < unat (ps_get (rm_head_sequence m))"
    using l(3) e(1) by simp
  moreover have "installed_baseline_or_blocked (rm_active_baseline m) cursor = Blocked BaselineRequired"
    by (simp add: installed_baseline_or_blocked_def installed)
  ultimately show ?thesis
    using manifest_parts_head [OF parts] \<open>ps_get (br_sequence (rm_active_baseline m)) < ps_get (rm_min_available_sequence m)\<close>
    by (auto simp: plan_catchup_def Let_def installed word_less_nat_alt not_less)
qed


section \<open>A small published root\<close>

definition sample_artifact :: "package_kind \<Rightarrow> string \<Rightarrow> u64 \<Rightarrow> u64 \<Rightarrow> embedded_manifest" where
  "sample_artifact kind package_id from to =
     (let m = sample_package kind ''all'' [] [] (''sha256:'' @ package_id) in
      m\<lparr>em_identity := (em_identity m)\<lparr>id_package_id := package_id, id_from_sequence := PackageSequence from,
          id_to_sequence := PackageSequence to\<rparr>\<rparr>)"

definition sample_artifacts :: "(string \<times> embedded_manifest) list" where
  "sample_artifacts = [(''b'', sample_artifact Baseline ''b'' 0 1), (''i'', sample_artifact Incremental ''i'' 1 2),
     (''j'', sample_artifact Incremental ''j'' 2 3)]"

definition sample_build_env :: build_env where
  "sample_build_env = \<lparr>
     be_parse_manifest = (\<lambda>bytes. map_option (\<lambda>m. \<lparr>sd_payload = m, sd_signature = sample_signature\<rparr>) (map_of sample_artifacts bytes)),
     be_print_manifest = (\<lambda>doc. id_package_id (em_identity (sd_payload doc))),
     be_print_remote = (\<lambda>doc. ''remote''), be_print_json = (\<lambda>j. ''{}''), be_print_set = rs_set_digest,
     be_manifest_codec = \<lparr>cd_to_json = (\<lambda>m. Inr (JString (id_package_id (em_identity m)))), cd_print = (\<lambda>j. ''x''),
       cd_backing = preserve_insert\<rparr>,
     be_remote_codec = \<lparr>cd_to_json = (\<lambda>m. Inr JNull), cd_print = (\<lambda>j. ''x''), cd_backing = preserve_insert\<rparr>,
     be_sha256 = (\<lambda>b. []),
     be_signer = \<lparr>sg_algorithm = ''stub'', sg_sign_bytes = (\<lambda>b. Inr sample_signature)\<rparr>\<rparr>"

definition sample_catalog_row :: "string \<Rightarrow> embedded_manifest \<Rightarrow> package_catalog_row" where
  "sample_catalog_row status m = \<lparr>pr_corpus = ''core'',
     pr_package_sequence = i64_saturating (ps_get (id_to_sequence (em_identity m))),
     pr_package_id = id_package_id (em_identity m), pr_package_kind = package_kind_as_str (id_package_kind (em_identity m)),
     pr_baseline_id = id_baseline_id (em_identity m), pr_generation = id_generation (em_identity m),
     pr_included_change_seq_low = 0, pr_included_change_seq_high = 0, pr_previous_package_id = None,
     pr_previous_package_digest = None, pr_package_digest = Some (in_artifact_sha256 (em_integrity m)),
     pr_manifest_digest = (case manifest_digest_of sample_build_env m of Inr d \<Rightarrow> Some d | Inl _ \<Rightarrow> None),
     pr_schema_version = 24, pr_embedding_fingerprint = ''fp'', pr_builder_versions = JObject [], pr_status = status\<rparr>"

definition sample_catalog :: catalog where
  "sample_catalog = map (\<lambda>(_, m). sample_catalog_row ''published'' m) sample_artifacts"

definition sample_published :: files where
  "sample_published = map (\<lambda>(i, _). (''/srv/core/packages/'' @ i @ ''/manifest.json'', i)) sample_artifacts"

definition sample_remote_params :: remote_manifest_params where
  "sample_remote_params = \<lparr>mp_publisher = ''jurisearch'', mp_environment = ''prod'', mp_generated_at = ''now'',
     mp_catchup_policy = \<lparr>cp_max_incremental_packages = 30, cp_max_diff_permille = 400,
       cp_max_uncompressed_permille = 600, cp_max_apply_seconds_budget = 900\<rparr>,
     mp_entitlement_tier = OpenTier, mp_license_epoch = 0, mp_audience = None, mp_signing_key_id = ''producer'',
     mp_uri_base = ''media://'', mp_max_retained_incrementals = 1, mp_default_apply_seconds = 1,
     mp_default_load_seconds = 10\<rparr>"

definition sample_build :: "(remote_manifest signed, build_error) result" where
  "sample_build = build_remote_manifest sample_build_env sample_published sample_catalog ''core'' ''/srv'' sample_remote_params"

definition sample_built :: "remote_manifest signed" where
  "sample_built = projr sample_build"

definition bounds_of :: "remote_manifest signed \<Rightarrow> u64 \<times> u64 \<times> u64 \<times> string list" where
  "bounds_of doc = (let m = sd_payload doc in (ps_get (rm_min_available_sequence m), ps_get (rm_head_sequence m),
     ps_get (br_sequence (rm_active_baseline m)), map re_package_id (rm_packages m)))"

lemma sample_build_bounds: "map_sum (\<lambda>e. ()) bounds_of sample_build = Inr (2, 3, 1, [''j''])"
  by code_simp

lemma sample_build_Inr: "sample_build = Inr sample_built \<and> bounds_of sample_built = (2, 3, 1, [''j''])"
proof -
  have "r = Inr (projr r) \<and> bounds_of (projr r) = q" if "map_sum (\<lambda>e. ()) bounds_of r = Inr q"
    for r :: "(remote_manifest signed, build_error) result" and q
    using that by (cases r) simp_all
  from this [OF sample_build_bounds] show ?thesis unfolding sample_built_def .
qed

lemma sample_built_ok:
  "build_remote_manifest sample_build_env sample_published sample_catalog ''core'' ''/srv'' sample_remote_params = Inr sample_built"
  using sample_build_Inr unfolding sample_build_def by (rule conjunct1)

lemma sample_built_bounds:
  "ps_get (rm_min_available_sequence (sd_payload sample_built)) = 2"
  "ps_get (rm_head_sequence (sd_payload sample_built)) = 3"
  "ps_get (br_sequence (rm_active_baseline (sd_payload sample_built))) = 1"
  "map re_package_id (rm_packages (sd_payload sample_built)) = [''j'']"
  using sample_build_Inr by (simp_all add: bounds_of_def Let_def)


definition sample_fresh_cursor :: client_cursor where
  "sample_fresh_cursor = \<lparr>cc_corpus = ''core'', cc_sequence = 1, cc_active_generation = ''core_g0001'', cc_baseline_id = ''b1'',
     cc_schema_version = 24, cc_embedding_fingerprint = ''fp'', cc_builder_versions = JObject [],
     cc_last_package_id = Some ''b'', cc_last_package_digest = Some ''sha256:b''\<rparr>"

theorem retention_strands_fresh_client_witness:
  "plan_catchup (sd_payload sample_built) (Some sample_fresh_cursor) = Blocked BaselineRequired"
proof -
  have "catalog_ok sample_catalog" by code_simp
  moreover have "mp_max_retained_incrementals sample_remote_params < length (filter (\<lambda>r. pr_corpus r = ''core''
        \<and> pr_package_kind r = ''incremental''
        \<and> pr_package_sequence r > i64_saturating (ps_get (br_sequence (rm_active_baseline (sd_payload sample_built))))) sample_catalog)"
    unfolding sample_built_bounds by code_simp
  moreover have "1 \<le> mp_max_retained_incrementals sample_remote_params" by (simp add: sample_remote_params_def)
  moreover have "cc_sequence sample_fresh_cursor = ps_get (br_sequence (rm_active_baseline (sd_payload sample_built)))"
    by (simp add: sample_built_bounds sample_fresh_cursor_def)
  ultimately show ?thesis using retention_strands_fresh_client [OF sample_built_ok refl] by blast
qed

end
