(* ===== verification/Incremental_Builder.thy ===== *)
theory Incremental_Builder
  imports Remote_Builder Outbox
begin

text \<open>
  The incremental builder (\<open>package-build/incremental.rs\<close>): it freezes a window of the outbox, coalesces the
  changed scopes into one final action each, materialises the rows from the producer's current tables into
  JSON-lines payload files, seals the embedded manifest and adds the catalog row.  The snapshot is the
  producer state at the freeze; its reads do not fail.
\<close>

section \<open>The producer\<close>

record producer =
  pd_server :: server
  pd_public :: schema_tables
  pd_ledger :: ledger
  pd_catalog :: catalog

record incremental_params =
  ip_builder_run_id :: string
  ip_created_at :: string
  ip_embedding_fingerprint :: string
  ip_embedding_model :: string
  ip_embedding_dimension :: u32
  ip_embedding_normalize :: bool
  ip_builder_versions :: "(string, string) btree"
  ip_minimum_client_version :: version

record incremental_build_report =
  ir_corpus :: string
  ir_package_id :: string
  ir_from_sequence :: u64
  ir_to_sequence :: u64
  ir_included_change_seq_low :: u64
  ir_included_change_seq_high :: u64
  ir_scope_count :: nat
  ir_artifact_dir :: string

definition apply_order :: "string list" where
  "apply_order = [''documents'', ''official_api_responses'', ''graph_edges'', ''legi_metadata_roots'',
     ''legislation_citation_resolutions'', ''decision_legislation_citations'', ''chunks_with_embeddings'',
     ''chunk_embeddings'', ''zone_units'', ''decision_zones'']"

section \<open>Coalescing\<close>

text \<open>A \<open>BTreeSet\<close> of keys is its ascending list.\<close>

record touched =
  tc_base_keys :: "(string, string list) btree"
  tc_documents :: "string list"
  tc_chunks :: "string list"
  tc_chunk_embeddings :: "string list"
  tc_zones :: "string list"
  tc_decision_zones :: "string list"

definition nothing_touched :: touched where
  "nothing_touched = \<lparr>tc_base_keys = [], tc_documents = [], tc_chunks = [], tc_chunk_embeddings = [], tc_zones = [],
     tc_decision_zones = []\<rparr>"

definition set_insert :: "string \<Rightarrow> string list \<Rightarrow> string list" where
  "set_insert k ks = (if k \<in> set ks then ks else insort k ks)"

definition table_static :: "string \<Rightarrow> string" where
  "table_static t =
     (if t \<in> {''official_api_responses'', ''legi_metadata_roots'', ''legislation_citation_resolutions'',
              ''decision_legislation_citations''} then t else ''documents'')"

definition base_insert :: "string \<Rightarrow> string \<Rightarrow> (string, string list) btree \<Rightarrow> (string, string list) btree" where
  "base_insert t k m = bt_insert t (set_insert k (case bt_get m t of None \<Rightarrow> [] | Some ks \<Rightarrow> ks)) m"

definition coalesce_scope :: "changed_scope \<Rightarrow> touched \<Rightarrow> (touched, build_error) result" where
  "coalesce_scope scope tc =
     (let t = sc_table_name scope; k = sc_scope_key scope in
      if t = ''documents'' then
        Inr (tc\<lparr>tc_documents := set_insert k (tc_documents tc), tc_base_keys := base_insert ''documents'' k (tc_base_keys tc)\<rparr>)
      else if t \<in> {''official_api_responses'', ''legi_metadata_roots'', ''legislation_citation_resolutions'',
                    ''decision_legislation_citations''} then
        Inr (tc\<lparr>tc_base_keys := base_insert (table_static t) k (tc_base_keys tc)\<rparr>)
      else if t = ''chunks'' then Inr (tc\<lparr>tc_chunks := set_insert k (tc_chunks tc)\<rparr>)
      else if t = ''chunk_embeddings'' then Inr (tc\<lparr>tc_chunk_embeddings := set_insert k (tc_chunk_embeddings tc)\<rparr>)
      else if t = ''zone_units'' \<or> t = ''zone_unit_embeddings'' then Inr (tc\<lparr>tc_zones := set_insert k (tc_zones tc)\<rparr>)
      else if t = ''decision_zones'' then Inr (tc\<lparr>tc_decision_zones := set_insert k (tc_decision_zones tc)\<rparr>)
      else Inl (BuildStorage OutboxError))"

definition coalesce :: "changed_scope list \<Rightarrow> (touched, build_error) result" where
  "coalesce scopes = fold_result coalesce_scope scopes nothing_touched"

definition chunks_wide :: "touched \<Rightarrow> string list" where
  "chunks_wide tc = fold set_insert (tc_documents tc) (tc_chunks tc)"

definition chunk_emb_only :: "touched \<Rightarrow> string list" where
  "chunk_emb_only tc = filter (\<lambda>k. k \<notin> set (chunks_wide tc)) (tc_chunk_embeddings tc)"

definition replace_groups :: "touched \<Rightarrow> (replace_set_group \<times> string list) list" where
  "replace_groups tc = [(ChunksWithEmbeddings, chunks_wide tc), (ChunkEmbeddings, chunk_emb_only tc),
     (ZoneUnits, tc_zones tc), (DecisionZones, tc_decision_zones tc)]"

section \<open>Reading the authoritative rows\<close>

definition scope_predicate :: "string \<Rightarrow> string \<Rightarrow> string \<Rightarrow> (row \<Rightarrow> bool, storage_error) result" where
  "scope_predicate t corpus key =
     (if t = ''documents'' then Inr (\<lambda>r. r ''document_id'' = JString key)
      else if t = ''official_api_responses'' then Inr (\<lambda>r. r ''response_id'' = JString key)
      else if t = ''legi_metadata_roots'' then Inr (\<lambda>r. r ''metadata_key'' = JString key)
      else if t = ''legislation_citation_resolutions''
      then Inr (\<lambda>r. r ''corpus'' = JString corpus \<and> r ''citation_key'' = JString key)
      else if t = ''decision_legislation_citations'' then Inr (\<lambda>r. r ''decision_document_id'' = JString key)
      else Inl OutboxError)"

text \<open>\<open>ORDER BY\<close> the primary key; text orders bytewise.\<close>

definition pk_key :: "string list \<Rightarrow> row \<Rightarrow> string list" where
  "pk_key pk r = map (\<lambda>c. text_key c r) pk"

definition read_scope_rows ::
  "producer \<Rightarrow> string \<Rightarrow> string list \<Rightarrow> string \<Rightarrow> string \<Rightarrow> (json list, storage_error) result" where
  "read_scope_rows pr t columns corpus scope_key =
     and_then (scope_predicate t corpus scope_key) (\<lambda>P.
     Inr (map (row_object columns)
       (sort_key (pk_key (sv_pk (pd_server pr) t)) (filter P (sch_rows (pd_public pr) t)))))"

definition delete_key_object :: "string \<Rightarrow> string list \<Rightarrow> string \<Rightarrow> string \<Rightarrow> json" where
  "delete_key_object t pk corpus scope_key =
     JObject (if t = ''legislation_citation_resolutions''
       then [(''citation_key'', JString scope_key), (''corpus'', JString corpus)]
       else case pk of [] \<Rightarrow> [] | col # _ \<Rightarrow> [(col, JString scope_key)])"

definition document_exists :: "producer \<Rightarrow> string \<Rightarrow> bool" where
  "document_exists pr document_id = list_ex (of_document document_id) (sch_rows (pd_public pr) ''documents'')"

fun primary_pk_table :: "replace_set_group \<Rightarrow> string" where
  "primary_pk_table ZoneUnits = ''zone_units''"
| "primary_pk_table ChunksWithEmbeddings = ''chunks''"
| "primary_pk_table ChunkEmbeddings = ''chunk_embeddings''"
| "primary_pk_table DecisionZones = ''decision_zones''"

fun group_pk_column :: "replace_set_group \<Rightarrow> string" where
  "group_pk_column ZoneUnits = ''zone_unit_id''"
| "group_pk_column ChunksWithEmbeddings = ''chunk_id''"
| "group_pk_column ChunkEmbeddings = ''chunk_id''"
| "group_pk_column DecisionZones = ''document_id''"

definition string_field :: "string \<Rightarrow> json \<Rightarrow> string option" where
  "string_field c v = (case json_field c v of Some (JString s) \<Rightarrow> Some s | _ \<Rightarrow> None)"

definition materialize_replace_set ::
  "build_env \<Rightarrow> producer \<Rightarrow> replace_set_group \<Rightarrow> string \<Rightarrow> string \<Rightarrow> incremental_params \<Rightarrow> (replace_set, build_error) result" where
  "materialize_replace_set env pr grp corpus document_id params =
     (let rows = replace_set_rows (pd_server pr) (pd_public pr) grp document_id in
      and_then (map_err BuildAttribution (corpus_new corpus)) (\<lambda>corpus_typed.
      Inr \<lparr>rs_table_group = grp, rs_scope = \<lparr>sc_document_id = document_id, sc_corpus = Some corpus_typed\<rparr>,
        rs_rows = rows,
        rs_row_pks = (case bt_get rows (primary_pk_table grp) of None \<Rightarrow> []
           | Some parent_rows \<Rightarrow> List.map_filter (string_field (group_pk_column grp)) parent_rows),
        rs_builder_version = (case bt_get (ip_builder_versions params) ''chunker'' of Some v \<Rightarrow> v
           | None \<Rightarrow> (case ip_builder_versions params of [] \<Rightarrow> ''unknown'' | (_, v) # _ \<Rightarrow> v)),
        rs_source_text_hash = None, rs_embedding_fingerprint = ip_embedding_fingerprint params,
        rs_set_digest = set_digest_over_rows (be_sha256 env) (be_print_json env) rows\<rparr>))"


section \<open>Payload files\<close>

record jsonl_op_writer =
  ow_table_or_group :: string
  ow_op :: event_kind
  ow_columns :: "string list"
  ow_content :: "string option"
  ow_row_count :: u64

definition new_writer :: "string \<Rightarrow> event_kind \<Rightarrow> string list \<Rightarrow> jsonl_op_writer" where
  "new_writer table_or_group op columns = \<lparr>ow_table_or_group = table_or_group, ow_op = op, ow_columns = columns,
     ow_content = None, ow_row_count = 0\<rparr>"

text \<open>One printed row; the first one opens the file.\<close>

definition write_row :: "string \<Rightarrow> jsonl_op_writer \<Rightarrow> jsonl_op_writer" where
  "write_row line w = w\<lparr>ow_content := Some ((case ow_content w of None \<Rightarrow> [] | Some c \<Rightarrow> c) @ line @ [CHR 0x0A]),
     ow_row_count := ow_row_count w + 1\<rparr>"

text \<open>What the build collects: the file system, the manifest's file list, digests and operation counts, the scope count.\<close>

record payload_out =
  po_fs :: files
  po_files :: "payload_file list"
  po_digests :: "(string, string) btree"
  po_operations :: "operation_count list"
  po_scope_count :: nat

definition finish :: "build_env \<Rightarrow> string \<Rightarrow> jsonl_op_writer \<Rightarrow> payload_out \<Rightarrow> payload_out" where
  "finish env artifact_dir w out =
     (case ow_content w of
        None \<Rightarrow> out
      | Some bytes \<Rightarrow>
          let file_name = incremental_file_name (ow_table_or_group w) (ow_op w);
              digest = digest_bytes (be_sha256 env) bytes
          in out\<lparr>po_fs := bt_insert (payload_file_path artifact_dir file_name) bytes (po_fs out),
                po_digests := bt_insert file_name digest (po_digests out),
                po_operations := po_operations out @
                  [\<lparr>oc_table = ow_table_or_group w, oc_op = ow_op w, oc_count = ow_row_count w\<rparr>],
                po_files := po_files out @
                  [\<lparr>pf_file_name = file_name, pf_table = ow_table_or_group w, pf_columns = ow_columns w, pf_op = ow_op w,
                    pf_format = Jsonl, pf_compression = NoCompression, pf_row_count = ow_row_count w, pf_digest = digest\<rparr>]\<rparr>)"

definition write_all :: "build_env \<Rightarrow> string \<Rightarrow> string \<Rightarrow> event_kind \<Rightarrow> string list \<Rightarrow> string list \<Rightarrow> payload_out \<Rightarrow> payload_out" where
  "write_all env artifact_dir table_or_group op columns rows out =
     finish env artifact_dir (fold write_row rows (new_writer table_or_group op columns)) out"

text \<open>The rows of one key of a base table: what goes to the upserts and what to the deletes.\<close>

definition base_key_rows ::
  "producer \<Rightarrow> string \<Rightarrow> string \<Rightarrow> string \<Rightarrow> (json list \<times> json list, storage_error) result" where
  "base_key_rows pr t corpus key =
     and_then (read_scope_rows pr t (sv_columns (pd_server pr) t) corpus key) (\<lambda>rows.
     Inr (rows, if rows = [] \<and> t \<noteq> ''decision_legislation_citations''
                then [delete_key_object t (sv_pk (pd_server pr) t) corpus key] else []))"

definition write_base_table ::
  "build_env \<Rightarrow> producer \<Rightarrow> string \<Rightarrow> string \<Rightarrow> string \<times> string list \<Rightarrow> (payload_out, unit, build_error) action" where
  "write_base_table env pr corpus artifact_dir = (\<lambda>(t, keys).
     bind_act (lift_res (map_err BuildStorage (map_result (base_key_rows pr t corpus) keys))) (\<lambda>rows.
     modify (\<lambda>out. write_all env artifact_dir t Delete (sv_pk (pd_server pr) t) (map (be_print_json env) (concat (map snd rows)))
       (write_all env artifact_dir t Upsert (sv_columns (pd_server pr) t) (map (be_print_json env) (concat (map fst rows)))
         (out\<lparr>po_scope_count := po_scope_count out + length keys\<rparr>)))))"

definition graph_edges_of :: "producer \<Rightarrow> string \<Rightarrow> json list" where
  "graph_edges_of pr doc = map (row_object (sv_columns (pd_server pr) ''graph_edges''))
     (sort_key (text_key ''edge_id'') (filter (\<lambda>r. r ''from_document_id'' = JString doc) (sch_rows (pd_public pr) ''graph_edges'')))"

definition write_graph_edges :: "build_env \<Rightarrow> producer \<Rightarrow> string \<Rightarrow> string list \<Rightarrow> payload_out \<Rightarrow> payload_out" where
  "write_graph_edges env pr artifact_dir docs out =
     (if docs = [] then out
      else write_all env artifact_dir ''graph_edges'' Upsert (sv_columns (pd_server pr) ''graph_edges'')
             (map (be_print_json env) (concat (map (graph_edges_of pr) docs))) out)"

text \<open>A document that is gone has no set of its own: deleting it clears its children.\<close>

definition sets_to_write :: "producer \<Rightarrow> string list \<Rightarrow> replace_set_group \<Rightarrow> string list \<Rightarrow> string list" where
  "sets_to_write pr documents grp docs =
     filter (\<lambda>doc. \<not> (grp = ChunksWithEmbeddings \<and> doc \<in> set documents \<and> \<not> document_exists pr doc)) docs"

definition write_replace_group ::
  "build_env \<Rightarrow> producer \<Rightarrow> string \<Rightarrow> incremental_params \<Rightarrow> string \<Rightarrow> string list \<Rightarrow>
   replace_set_group \<times> string list \<Rightarrow> (payload_out, unit, build_error) action" where
  "write_replace_group env pr corpus params artifact_dir documents = (\<lambda>(grp, docs).
     let kept = sets_to_write pr documents grp docs in
     bind_act (lift_res (map_result (\<lambda>doc. materialize_replace_set env pr grp corpus doc params) kept)) (\<lambda>rsets.
     modify (\<lambda>out. write_all env artifact_dir (replace_set_group_as_str grp) ReplaceSetEvent [] (map (be_print_set env) rsets)
       (out\<lparr>po_scope_count := po_scope_count out + length kept\<rparr>))))"

definition write_payload ::
  "build_env \<Rightarrow> producer \<Rightarrow> string \<Rightarrow> incremental_params \<Rightarrow> string \<Rightarrow> touched \<Rightarrow> (payload_out, unit, build_error) action" where
  "write_payload env pr corpus params artifact_dir tc =
     bind_act (for_each (tc_base_keys tc) (write_base_table env pr corpus artifact_dir)) (\<lambda>_.
     bind_act (modify (write_graph_edges env pr artifact_dir (tc_documents tc))) (\<lambda>_.
     for_each (replace_groups tc) (write_replace_group env pr corpus params artifact_dir (tc_documents tc))))"

section \<open>The manifest\<close>

definition producer_digests :: "producer \<Rightarrow> string \<Rightarrow> table_digest list" where
  "producer_digests pr corpus = map (\<lambda>t. \<lparr>td_table_name = t,
     td_row_count = of_nat (length (digest_rows (pd_public pr) corpus t)),
     td_digest = sv_table_digest (pd_server pr) corpus t (digest_rows (pd_public pr) corpus t)\<rparr>) replicated_tables"

definition postconditions_of :: "table_digest list \<Rightarrow> postconditions" where
  "postconditions_of digests = \<lparr>
     post_row_counts = bt_of_list (map (\<lambda>d. (td_table_name d, td_row_count d)) digests),
     post_table_digests = bt_of_list (map (\<lambda>d. (td_table_name d, td_digest d)) digests)\<rparr>"

definition package_id_of :: "string \<Rightarrow> package_sequence \<Rightarrow> package_sequence \<Rightarrow> string" where
  "package_id_of corpus from to =
     corpus @ ''-'' @ show_nat (unat (ps_get from)) @ ''-'' @ show_nat (unat (ps_get to))"

definition incremental_manifest ::
  "build_env \<Rightarrow> producer \<Rightarrow> string \<Rightarrow> incremental_params \<Rightarrow> latest_package \<Rightarrow> payload_out \<Rightarrow> embedded_manifest" where
  "incremental_manifest env pr corpus params prev out =
     (let from = PackageSequence (u64_or_zero (lp_package_sequence prev)); to = ps_next from;
          package_id = package_id_of corpus from to; c = Corpus corpus;
          payload_digest = aggregate_payload_digest (be_sha256 env) (po_digests out) in
      \<lparr>em_identity = \<lparr>id_package_format_version = 1, id_package_id = package_id, id_corpus = c,
         id_package_kind = Incremental, id_from_sequence = from, id_to_sequence = to,
         id_previous_package_id = Some (lp_package_id prev), id_previous_package_sha256 = lp_package_digest prev,
         id_baseline_id = lp_baseline_id prev, id_generation = lp_generation prev,
         id_created_at = ip_created_at params, id_builder_run_id = ip_builder_run_id params\<rparr>,
       em_compatibility = \<lparr>co_minimum_client_version = ip_minimum_client_version params, co_maximum_client_version = None,
         co_schema_version = current_schema_version, co_schema_migration_bundle_digest = sv_bundle_digest (pd_server pr),
         co_requires_extensions = [\<lparr>er_name = ''vector'', er_minimum_version = None\<rparr>,
           \<lparr>er_name = ''pg_search'', er_minimum_version = None\<rparr>],
         co_embedding_fingerprint = ip_embedding_fingerprint params, co_embedding_model = ip_embedding_model params,
         co_embedding_dimension = ip_embedding_dimension params, co_embedding_normalize = ip_embedding_normalize params,
         co_builder_versions = ip_builder_versions params, co_postgres_major_min = None, co_postgres_major_max = None\<rparr>,
       em_entitlement = \<lparr>en_corpus = c, en_tier = ''all'', en_license_epoch = 0, en_audience = None,
         en_policy_digest = digest_bytes (be_sha256 env) ''p4-open-entitlement''\<rparr>,
       em_integrity = \<lparr>in_artifact_sha256 = payload_digest, in_uncompressed_payload_digest = payload_digest,
         in_per_file_digests = po_digests out, in_canonicalisation_algorithm = ''jcs-sha256'',
         in_signature_algorithm = sg_algorithm (be_signer env), in_transparency_log_index = None\<rparr>,
       em_apply = \<lparr>ap_expected_client_from_sequence = from, ap_result_sequence = to, ap_requires_empty_generation = False,
         ap_schema_ops_digest = digest_bytes (be_sha256 env) ''incremental-no-schema-ops'',
         ap_operations = po_operations out, ap_replace_scopes = [],
         ap_preconditions = \<lparr>pre_schema_version = current_schema_version,
           pre_embedding_fingerprint = ip_embedding_fingerprint params, pre_builder_versions = ip_builder_versions params,
           pre_active_baseline_id = Some (lp_baseline_id prev), pre_active_generation = Some (lp_generation prev)\<rparr>,
         ap_postconditions = postconditions_of (producer_digests pr corpus),
         ap_index_build = \<lparr>ib_bm25_indexes = [], ib_ivfflat_finalize = [], ib_row_level_maintenance_only = True,
           ib_queryable_before_finalize = True\<rparr>,
         ap_idempotency_key = package_id, ap_rollback_policy = TransactionRollback\<rparr>,
       em_payload = \<lparr>pl_files = po_files out, pl_apply_order = apply_order\<rparr>\<rparr>)"

definition incremental_catalog_row ::
  "string \<Rightarrow> incremental_params \<Rightarrow> latest_package \<Rightarrow> embedded_manifest \<Rightarrow> string \<Rightarrow> u64 \<Rightarrow> package_catalog_row" where
  "incremental_catalog_row corpus params prev m manifest_digest hi = \<lparr>pr_corpus = corpus,
     pr_package_sequence = i64_saturating (ps_get (id_to_sequence (em_identity m))),
     pr_package_id = id_package_id (em_identity m), pr_package_kind = package_kind_as_str Incremental,
     pr_baseline_id = lp_baseline_id prev, pr_generation = lp_generation prev,
     pr_included_change_seq_low = lp_included_change_seq_high prev, pr_included_change_seq_high = i64_saturating hi,
     pr_previous_package_id = Some (lp_package_id prev), pr_previous_package_digest = lp_package_digest prev,
     pr_package_digest = Some (in_artifact_sha256 (em_integrity m)), pr_manifest_digest = Some manifest_digest,
     pr_schema_version = current_schema_version, pr_embedding_fingerprint = ip_embedding_fingerprint params,
     pr_builder_versions = json_of_string_map (ip_builder_versions params), pr_status = ''built''\<rparr>"

section \<open>The build\<close>

definition generations_error :: build_error where
  "generations_error = BuildStorage GenerationsError"

definition content_compatible :: "incremental_params \<Rightarrow> latest_package \<Rightarrow> (unit, build_error) result" where
  "content_compatible params prev =
     and_then (ensure (ip_embedding_fingerprint params = lp_embedding_fingerprint prev) generations_error) (\<lambda>_.
     and_then (ensure (json_of_string_map (ip_builder_versions params) = lp_builder_versions prev) generations_error) (\<lambda>_.
     ensure (current_schema_version = lp_schema_version prev) generations_error))"

text \<open>Freezing the mark: the scopes of the window, read on the same snapshot; the fence is released after \<open>hi\<close>.\<close>

definition frozen_window ::
  "producer \<Rightarrow> string \<Rightarrow> latest_package \<Rightarrow> (u64 \<times> changed_scope list, build_error) result" where
  "frozen_window pr corpus prev =
     and_then (map_err BuildStorage (current_change_seq_with_client (pd_ledger pr))) (\<lambda>hi.
     and_then (map_err BuildStorage (scopes_changed_for_corpus_with_client (pd_ledger pr) corpus
       (ChangeSeq (u64_or_zero (lp_included_change_seq_high prev))) hi)) (\<lambda>scopes.
     Inr (cs_get hi, scopes)))"

definition seal_and_catalog ::
  "build_env \<Rightarrow> string \<Rightarrow> string \<Rightarrow> incremental_params \<Rightarrow> latest_package \<Rightarrow> u64 \<Rightarrow> embedded_manifest \<Rightarrow>
   (producer \<times> files, unit, build_error) action" where
  "seal_and_catalog env corpus artifact_dir params prev hi m =
     bind_act (lift_res (map_err BuildCanonical (manifest_digest_of env m))) (\<lambda>manifest_digest.
     bind_act (lift_res (map_err BuildSign (seal (be_signer env) (be_manifest_codec env) m))) (\<lambda>doc.
     bind_act (modify (\<lambda>(pr, fs). (pr, bt_insert (manifest_path artifact_dir) (be_print_manifest env doc) fs))) (\<lambda>_.
     statement (\<lambda>(pr, fs). and_then (map_err BuildStorage
         (insert_package_catalog_row (incremental_catalog_row corpus params prev m manifest_digest hi) (pd_catalog pr))) (\<lambda>c.
       Inr ((pr\<lparr>pd_catalog := c\<rparr>, fs), ()))))))"

definition report_of ::
  "string \<Rightarrow> latest_package \<Rightarrow> u64 \<Rightarrow> nat \<Rightarrow> string \<Rightarrow> embedded_manifest \<Rightarrow> incremental_build_report" where
  "report_of corpus prev hi scope_count artifact_dir m = \<lparr>ir_corpus = corpus, ir_package_id = id_package_id (em_identity m),
     ir_from_sequence = ps_get (id_from_sequence (em_identity m)), ir_to_sequence = ps_get (id_to_sequence (em_identity m)),
     ir_included_change_seq_low = u64_or_zero (lp_included_change_seq_high prev), ir_included_change_seq_high = hi,
     ir_scope_count = scope_count, ir_artifact_dir = artifact_dir\<rparr>"

definition with_out :: "(payload_out, 'a, 'e) action \<Rightarrow> (producer \<times> files, 'a \<times> payload_out, 'e) action" where
  "with_out act = (\<lambda>(pr, fs).
     case act \<lparr>po_fs = fs, po_files = [], po_digests = [], po_operations = [], po_scope_count = 0\<rparr> of
       (out, r) \<Rightarrow> ((pr, po_fs out), and_then r (\<lambda>a. Inr (a, out))))"

definition build_incremental_inner ::
  "build_env \<Rightarrow> string \<Rightarrow> string \<Rightarrow> incremental_params \<Rightarrow>
   (producer \<times> files, incremental_build_report option, build_error) action" where
  "build_incremental_inner env corpus artifact_dir params =
     bind_act (gets fst) (\<lambda>pr.
     bind_act (lift_res (ok_or (latest_package_for_corpus (pd_catalog pr) corpus) generations_error)) (\<lambda>prev.
     bind_act (lift_res (content_compatible params prev)) (\<lambda>_.
     bind_act (lift_res (frozen_window pr corpus prev)) (\<lambda>(hi, scopes).
     if scopes = [] then ret None
     else
       bind_act (lift_res (coalesce scopes)) (\<lambda>tc.
       bind_act (with_out (write_payload env pr corpus params artifact_dir tc)) (\<lambda>(_, out).
       let m = incremental_manifest env pr corpus params prev out in
       bind_act (seal_and_catalog env corpus artifact_dir params prev hi m) (\<lambda>_.
       ret (Some (report_of corpus prev hi (po_scope_count out) artifact_dir m)))))))))"

text \<open>
  The build as a whole.  It waits (\<open>None\<close>) for the writers in flight; the fence it takes is free again when
  it returns, on every path.
\<close>

definition with_ledger :: "(ledger \<Rightarrow> ledger) \<Rightarrow> producer \<Rightarrow> producer" where
  "with_ledger f pr = pr\<lparr>pd_ledger := f (pd_ledger pr)\<rparr>"

definition build_incremental ::
  "build_env \<Rightarrow> string \<Rightarrow> string \<Rightarrow> incremental_params \<Rightarrow> producer \<times> files \<Rightarrow>
   ((producer \<times> files) \<times> (incremental_build_report option, build_error) result) option" where
  "build_incremental env corpus artifact_dir params = (\<lambda>(pr, fs).
     case corpus_new corpus of
       Inl e \<Rightarrow> Some ((pr, fs), Inl (BuildAttribution e))
     | Inr _ \<Rightarrow>
         (case acquire_outbox_fence (pd_ledger pr) of
            None \<Rightarrow> None
          | Some l \<Rightarrow>
              (case build_incremental_inner env corpus artifact_dir params (pr\<lparr>pd_ledger := l\<rparr>, fs) of
                 ((pr', fs'), r) \<Rightarrow> Some ((with_ledger release_outbox_fence pr', fs'), r))))"


section \<open>Coalescing covers every changed scope once\<close>

definition base_tables :: "string list" where
  "base_tables = [''documents'', ''official_api_responses'', ''legi_metadata_roots'', ''legislation_citation_resolutions'',
     ''decision_legislation_citations'']"

definition known_tables :: "string list" where
  "known_tables = base_tables @ [''chunks'', ''chunk_embeddings'', ''zone_units'', ''zone_unit_embeddings'', ''decision_zones'']"

definition touched_keys :: "string list \<Rightarrow> changed_scope list \<Rightarrow> string set" where
  "touched_keys ts scopes = sc_scope_key ` {s \<in> set scopes. sc_table_name s \<in> set ts}"

definition base_keys_of :: "touched \<Rightarrow> string \<Rightarrow> string list" where
  "base_keys_of tc t = (case bt_get (tc_base_keys tc) t of None \<Rightarrow> [] | Some ks \<Rightarrow> ks)"

lemma touched_keys_Nil [simp]: "touched_keys ts [] = {}"
  by (simp add: touched_keys_def)

lemma touched_keys_Cons:
  "touched_keys ts (s # scopes) = (if sc_table_name s \<in> set ts then insert (sc_scope_key s) (touched_keys ts scopes)
     else touched_keys ts scopes)"
  by (auto simp: touched_keys_def)

lemma touched_keys_snoc:
  "touched_keys ts (scopes @ [s]) = (if sc_table_name s \<in> set ts then insert (sc_scope_key s) (touched_keys ts scopes)
     else touched_keys ts scopes)"
  by (auto simp: touched_keys_def)

lemma set_set_insert [simp]: "set (set_insert k ks) = insert k (set ks)"
  by (auto simp: set_insert_def set_insort_key)

lemma strict_set_insert: "sorted_wrt (<) ks \<Longrightarrow> sorted_wrt (<) (set_insert k ks)"
  by (auto simp: set_insert_def strict_sorted_iff sorted_insort distinct_insort)

lemma set_fold_set_insert [simp]: "set (fold set_insert xs ks) = set xs \<union> set ks"
  by (induction xs arbitrary: ks) auto

lemma strict_fold_set_insert: "sorted_wrt (<) ks \<Longrightarrow> sorted_wrt (<) (fold set_insert xs ks)"
  by (induction xs arbitrary: ks) (auto simp: strict_set_insert)

definition all_sorted :: "touched \<Rightarrow> bool" where
  "all_sorted tc \<longleftrightarrow> bt_ok (tc_base_keys tc) \<and> (\<forall>t. sorted_wrt (<) (base_keys_of tc t)) \<and> sorted_wrt (<) (tc_documents tc)
     \<and> sorted_wrt (<) (tc_chunks tc) \<and> sorted_wrt (<) (tc_chunk_embeddings tc) \<and> sorted_wrt (<) (tc_zones tc)
     \<and> sorted_wrt (<) (tc_decision_zones tc)"

definition records :: "changed_scope list \<Rightarrow> touched \<Rightarrow> bool" where
  "records scopes tc \<longleftrightarrow>
     (\<forall>t. set (base_keys_of tc t) = (if t \<in> set base_tables then touched_keys [t] scopes else {}))
     \<and> set (tc_documents tc) = touched_keys [''documents''] scopes
     \<and> set (tc_chunks tc) = touched_keys [''chunks''] scopes
     \<and> set (tc_chunk_embeddings tc) = touched_keys [''chunk_embeddings''] scopes
     \<and> set (tc_zones tc) = touched_keys [''zone_units'', ''zone_unit_embeddings''] scopes
     \<and> set (tc_decision_zones tc) = touched_keys [''decision_zones''] scopes
     \<and> (\<forall>s\<in>set scopes. sc_table_name s \<in> set known_tables)"

lemma base_keys_of_insert:
  assumes "bt_ok (tc_base_keys tc)"
  shows "base_keys_of (tc\<lparr>tc_base_keys := base_insert t k (tc_base_keys tc)\<rparr>) t'
    = (if t' = t then set_insert k (base_keys_of tc t) else base_keys_of tc t')"
  using assms by (simp add: base_keys_of_def base_insert_def bt_get_insert)

lemma base_keys_of_other [simp]:
  "base_keys_of (tc\<lparr>tc_chunks := x\<rparr>) = base_keys_of tc"
  "base_keys_of (tc\<lparr>tc_chunk_embeddings := x\<rparr>) = base_keys_of tc"
  "base_keys_of (tc\<lparr>tc_zones := x\<rparr>) = base_keys_of tc"
  "base_keys_of (tc\<lparr>tc_decision_zones := x\<rparr>) = base_keys_of tc"
  "base_keys_of (tc\<lparr>tc_documents := x, tc_base_keys := b\<rparr>) = base_keys_of (tc\<lparr>tc_base_keys := b\<rparr>)"
  by (simp_all add: base_keys_of_def fun_eq_iff)

lemma coalesce_scope_cases:
  "coalesce_scope s tc = (let t = sc_table_name s; k = sc_scope_key s in
     if t = ''documents'' then Inr (tc\<lparr>tc_documents := set_insert k (tc_documents tc), tc_base_keys := base_insert t k (tc_base_keys tc)\<rparr>)
     else if t \<in> set base_tables then Inr (tc\<lparr>tc_base_keys := base_insert t k (tc_base_keys tc)\<rparr>)
     else if t = ''chunks'' then Inr (tc\<lparr>tc_chunks := set_insert k (tc_chunks tc)\<rparr>)
     else if t = ''chunk_embeddings'' then Inr (tc\<lparr>tc_chunk_embeddings := set_insert k (tc_chunk_embeddings tc)\<rparr>)
     else if t \<in> {''zone_units'', ''zone_unit_embeddings''} then Inr (tc\<lparr>tc_zones := set_insert k (tc_zones tc)\<rparr>)
     else if t = ''decision_zones'' then Inr (tc\<lparr>tc_decision_zones := set_insert k (tc_decision_zones tc)\<rparr>)
     else Inl (BuildStorage OutboxError))"
  by (simp add: coalesce_scope_def base_tables_def table_static_def Let_def)

lemma coalesce_scope_step:
  assumes "coalesce_scope s tc = Inr tc'" "records scopes tc" "all_sorted tc"
  shows "records (scopes @ [s]) tc' \<and> all_sorted tc'"
proof -
  let ?t = "sc_table_name s" and ?k = "sc_scope_key s"
  have ok: "bt_ok (tc_base_keys tc)" using assms(3) by (simp add: all_sorted_def)
  have known: "?t \<in> set known_tables"
    using assms(1) by (auto simp: coalesce_scope_cases Let_def known_tables_def base_tables_def split: if_splits)
  have none: "t \<notin> set base_tables \<Longrightarrow> base_keys_of tc t = []" for t
    using assms(2) unfolding records_def by (metis set_empty)
  consider (doc) "?t = ''documents''" | (base) "?t \<in> set base_tables" "?t \<noteq> ''documents''" | (chunks) "?t = ''chunks''"
    | (emb) "?t = ''chunk_embeddings''" | (zone) "?t \<in> {''zone_units'', ''zone_unit_embeddings''}" | (dz) "?t = ''decision_zones''"
    using known by (auto simp: known_tables_def)
  then show ?thesis
  proof cases
    case doc
    with assms(1) have tc': "tc' = tc\<lparr>tc_documents := set_insert ?k (tc_documents tc),
        tc_base_keys := base_insert ''documents'' ?k (tc_base_keys tc)\<rparr>" by (simp add: coalesce_scope_cases base_tables_def Let_def)
    show ?thesis using assms(2,3) doc known ok
      by (simp add: tc' records_def all_sorted_def touched_keys_snoc base_keys_of_insert strict_set_insert base_tables_def)
        (simp add: base_insert_def bt_ok_insert)
  next
    case base
    with assms(1) have tc': "tc' = tc\<lparr>tc_base_keys := base_insert ?t ?k (tc_base_keys tc)\<rparr>" by (simp add: coalesce_scope_cases Let_def)
    have "?t \<noteq> ''chunks''" "?t \<noteq> ''chunk_embeddings''" "?t \<noteq> ''zone_units''" "?t \<noteq> ''zone_unit_embeddings''"
      "?t \<noteq> ''decision_zones''" using base(1) by (auto simp: base_tables_def)
    with base show ?thesis using assms(2,3) known ok
      by (simp add: tc' records_def all_sorted_def touched_keys_snoc base_keys_of_insert strict_set_insert none)
        (simp add: base_insert_def bt_ok_insert)
  next
    case chunks
    with assms(1) have tc': "tc' = tc\<lparr>tc_chunks := set_insert ?k (tc_chunks tc)\<rparr>"
      by (simp add: coalesce_scope_cases base_tables_def Let_def)
    show ?thesis using assms(2,3) chunks known
      by (simp add: tc' records_def all_sorted_def touched_keys_snoc strict_set_insert base_tables_def)
  next
    case emb
    with assms(1) have tc': "tc' = tc\<lparr>tc_chunk_embeddings := set_insert ?k (tc_chunk_embeddings tc)\<rparr>"
      by (simp add: coalesce_scope_cases base_tables_def Let_def)
    show ?thesis using assms(2,3) emb known
      by (simp add: tc' records_def all_sorted_def touched_keys_snoc strict_set_insert base_tables_def)
  next
    case zone
    then have "?t \<noteq> ''documents''" "?t \<notin> set base_tables" "?t \<noteq> ''chunks''" "?t \<noteq> ''chunk_embeddings''" "?t \<noteq> ''decision_zones''"
      by (auto simp: base_tables_def)
    with zone assms(1) have tc': "tc' = tc\<lparr>tc_zones := set_insert ?k (tc_zones tc)\<rparr>" by (simp add: coalesce_scope_cases Let_def)
    have "t \<in> set base_tables \<Longrightarrow> ?t \<noteq> t" for t using \<open>?t \<notin> set base_tables\<close> by auto
    then show ?thesis using assms(2,3) zone known \<open>?t \<noteq> ''documents''\<close> \<open>?t \<noteq> ''chunks''\<close> \<open>?t \<noteq> ''chunk_embeddings''\<close> \<open>?t \<noteq> ''decision_zones''\<close>
      by (simp add: tc' records_def all_sorted_def touched_keys_snoc strict_set_insert)
  next
    case dz
    with assms(1) have tc': "tc' = tc\<lparr>tc_decision_zones := set_insert ?k (tc_decision_zones tc)\<rparr>"
      by (simp add: coalesce_scope_cases base_tables_def Let_def)
    show ?thesis using assms(2,3) dz known
      by (simp add: tc' records_def all_sorted_def touched_keys_snoc strict_set_insert base_tables_def)
  qed
qed

lemma coalesce_records:
  assumes "coalesce scopes = Inr tc"
  shows "records scopes tc \<and> all_sorted tc"
proof -
  have gen: "records (done_before @ scopes) tc \<and> all_sorted tc"
    if "fold_result coalesce_scope scopes t0 = Inr tc" "records done_before t0" "all_sorted t0" for done_before scopes t0
    using that
  proof (induction scopes arbitrary: done_before t0)
    case (Cons s ss)
    then obtain t1 where "coalesce_scope s t0 = Inr t1" "fold_result coalesce_scope ss t1 = Inr tc"
      by (auto simp: and_then_eq_Inr)
    with coalesce_scope_step [OF this(1) Cons.prems(2,3)] Cons.IH [of t1 "done_before @ [s]"] show ?case by simp
  qed simp
  have base: "records [] nothing_touched" "all_sorted nothing_touched"
    by (simp_all add: records_def nothing_touched_def base_keys_of_def bt_get_def all_sorted_def)
  show ?thesis using gen [OF assms [unfolded coalesce_def] base] by simp
qed

lemma coalesce_total:
  assumes "\<forall>s\<in>set scopes. sc_table_name s \<in> set known_tables"
  shows "\<exists>tc. fold_result coalesce_scope scopes t0 = Inr tc"
  using assms
proof (induction scopes arbitrary: t0)
  case (Cons s ss)
  then have "\<exists>t1. coalesce_scope s t0 = Inr t1"
    by (auto simp: coalesce_scope_cases Let_def known_tables_def)
  with Cons show ?case by auto
qed simp

lemma coalesce_error:
  assumes "fold_result coalesce_scope scopes t0 = Inl e"
  shows "e = BuildStorage OutboxError"
  using assms
proof (induction scopes arbitrary: t0)
  case (Cons s ss)
  then show ?case by (auto simp: and_then_eq_Inl coalesce_scope_cases Let_def split: if_splits)
qed simp


section \<open>The chain continues\<close>

text \<open>A client whose cursor stands at a cataloged package.\<close>

definition stands_at :: "corpus_row \<Rightarrow> latest_package \<Rightarrow> bool" where
  "stands_at r lp \<longleftrightarrow> cs_sequence r = lp_package_sequence lp \<and> cs_last_package_id r = Some (lp_package_id lp)
     \<and> cs_last_package_digest r = lp_package_digest lp \<and> cs_baseline_id r = lp_baseline_id lp
     \<and> cs_active_generation r = lp_generation lp \<and> cs_schema_version r = lp_schema_version lp
     \<and> cs_embedding_fingerprint r = lp_embedding_fingerprint lp \<and> cs_builder_versions r = lp_builder_versions lp"

lemma build_incremental_inner_SomeD:
  assumes "build_incremental_inner env corpus dir params (pr, fs) = ((pr', fs'), Inr (Some report))"
  shows "\<exists>prev hi scopes out m digest doc c.
      latest_package_for_corpus (pd_catalog pr) corpus = Some prev \<and> content_compatible params prev = Inr ()
      \<and> frozen_window pr corpus prev = Inr (hi, scopes) \<and> scopes \<noteq> []
      \<and> m = incremental_manifest env pr corpus params prev out
      \<and> seal (be_signer env) (be_manifest_codec env) m = Inr doc
      \<and> manifest_digest_of env m = Inr digest
      \<and> insert_package_catalog_row (incremental_catalog_row corpus params prev m digest hi) (pd_catalog pr) = Inr c
      \<and> pr' = pr\<lparr>pd_catalog := c\<rparr> \<and> fs' = bt_insert (manifest_path dir) (be_print_manifest env doc) (po_fs out)
      \<and> report = report_of corpus prev hi (po_scope_count out) dir m"
  using assms
  unfolding build_incremental_inner_def
  by (auto simp: bind_act_def gets_def lift_res_def ret_def statement_def modify_def seal_and_catalog_def with_out_def Let_def
      result_simps ok_or_def split: prod.splits sum.splits option.splits if_splits)


lemma bt_get_bt_insert_same: "bt_get (bt_insert k v m) k = Some v"
  by (induction k v m rule: bt_insert.induct) (auto simp: bt_get_def)

lemma latest_package_snoc:
  assumes "pr_corpus row = corpus" "\<forall>r\<in>set catalog. pr_corpus r = corpus \<longrightarrow> pr_package_sequence r < pr_package_sequence row"
  shows "latest_package_for_corpus (catalog @ [row]) corpus = Some (latest_of_row row)"
proof -
  let ?rows = "corpus_rows (catalog @ [row]) corpus"
  have in_rows: "row \<in> set ?rows" using assms(1) by (simp add: set_corpus_rows)
  then have "?rows \<noteq> []" by auto
  then have last_in: "last ?rows \<in> set ?rows" by simp
  have "latest_package_for_corpus (catalog @ [row]) corpus = Some (latest_of_row (last ?rows))"
    using \<open>?rows \<noteq> []\<close> by (simp add: latest_package_for_corpus_def Let_def)
  moreover have "pr_package_sequence row \<le> pr_package_sequence (last ?rows)"
    using latest_package_greatest [OF calculation, of row] assms(1) by (simp add: latest_of_row_def)
  then have "last ?rows = row" using last_in assms(2) by (auto simp: set_corpus_rows)
  ultimately show ?thesis by simp
qed

lemma u64_or_zero_of_nonneg:
  assumes "0 \<le> v" "v \<le> i64_max"
  shows "uint (u64_or_zero v) = v" "i64_saturating (u64_or_zero v) = v"
proof -
  show u: "uint (u64_or_zero v) = v"
    using assms by (simp add: u64_or_zero_def u64_try_from_def i64_max_def uint_word_of_int take_bit_int_eq_self)
  show "i64_saturating (u64_or_zero v) = v" using assms(2) by (simp add: i64_saturating_def u)
qed

lemma i64_saturating_next:
  assumes "0 \<le> v" "v < i64_max"
  shows "i64_saturating (u64_or_zero v + 1) = v + 1"
proof -
  have "uint (u64_or_zero v + 1) = v + 1"
    using assms u64_or_zero_of_nonneg(1) [of v]
    by (simp add: uint_word_ariths i64_max_def)
  then show ?thesis using assms(2) by (simp add: i64_saturating_def)
qed

text \<open>
  C5. A built incremental continues the chain.  Take a client whose cursor stands at the latest cataloged package of
  the corpus.  The package that the builder writes passes the client's chain checks (link, digest, baseline,
  generation, schema, fingerprint and builder versions); the catalog's new head is one sequence further, its window
  starts where the previous one ended, and the client stands at that new head once it has applied the package.  The
  catalog's keys stay unique and the fence is free again.
\<close>
theorem incremental_continues_chain:
  assumes ok: "catalog_ok (pd_catalog pr)"
    and build: "build_incremental env corpus dir params (pr, fs) = Some ((pr', fs'), Inr (Some report))"
    and prev: "latest_package_for_corpus (pd_catalog pr) corpus = Some prev"
    and seq: "0 \<le> lp_package_sequence prev" "lp_package_sequence prev < i64_max"
    and at: "stands_at r prev"
  shows "\<exists>doc lp row. bt_get fs' (manifest_path dir) = Some (be_print_manifest env doc)
    \<and> check_chain (sd_payload doc) r = Inr ()
    \<and> pd_catalog pr' = pd_catalog pr @ [row] \<and> pr_included_change_seq_low row = lp_included_change_seq_high prev
    \<and> latest_package_for_corpus (pd_catalog pr') corpus = Some lp
    \<and> lp_package_sequence lp = lp_package_sequence prev + 1
    \<and> stands_at (advanced_row (sd_payload doc) r) lp
    \<and> catalog_ok (pd_catalog pr') \<and> \<not> lg_fence (pd_ledger pr')"
proof -
  from build obtain l pr1 where inner: "build_incremental_inner env corpus dir params (pr\<lparr>pd_ledger := l\<rparr>, fs) = ((pr1, fs'), Inr (Some report))"
    and pr': "pr' = with_ledger release_outbox_fence pr1"
    by (auto simp: build_incremental_def split: sum.splits option.splits prod.splits)
  let ?pr = "pr\<lparr>pd_ledger := l\<rparr>"
  from build_incremental_inner_SomeD [OF inner] prev obtain hi out m digest doc c where
      compat: "content_compatible params prev = Inr ()"
    and m: "m = incremental_manifest env ?pr corpus params prev out"
    and doc: "seal (be_signer env) (be_manifest_codec env) m = Inr doc"
    and ins: "insert_package_catalog_row (incremental_catalog_row corpus params prev m digest hi) (pd_catalog pr) = Inr c"
    and pr1: "pr1 = ?pr\<lparr>pd_catalog := c\<rparr>" and fs': "fs' = bt_insert (manifest_path dir) (be_print_manifest env doc) (po_fs out)"
    by auto
  let ?row = "incremental_catalog_row corpus params prev m digest hi"
  have payload: "sd_payload doc = m" using doc by (auto simp: seal_def result_simps)
  have stamps: "ip_embedding_fingerprint params = lp_embedding_fingerprint prev"
    "json_of_string_map (ip_builder_versions params) = lp_builder_versions prev" "current_schema_version = lp_schema_version prev"
    using compat by (auto simp: content_compatible_def result_simps)
  have row: "pr_package_sequence ?row = lp_package_sequence prev + 1" "pr_corpus ?row = corpus"
    using i64_saturating_next [OF seq] by (simp_all add: incremental_catalog_row_def m incremental_manifest_def Let_def ps_next_def)
  have below: "\<forall>r\<in>set (pd_catalog pr). pr_corpus r = corpus \<longrightarrow> pr_package_sequence r < pr_package_sequence ?row"
    using latest_package_greatest [OF prev] row(1) by fastforce
  have c: "c = pd_catalog pr @ [?row]"
  proof (rule ccontr)
    assume "c \<noteq> pd_catalog pr @ [?row]"
    then obtain q where "q \<in> set (pd_catalog pr)" "same_identity q ?row"
      using insert_package_catalog_row_InrD [OF ins] by blast
    then show False using below row(2) by (auto simp: same_identity_def)
  qed
  have catalog': "pd_catalog pr' = c" and fence: "\<not> lg_fence (pd_ledger pr')"
    by (simp_all add: pr' pr1 with_ledger_def release_outbox_fence_def)
  have "latest_package_for_corpus (pd_catalog pr') corpus = Some (latest_of_row ?row)"
    unfolding catalog' c by (rule latest_package_snoc [OF row(2) below])
  moreover have "check_chain m r = Inr ()"
    using at stamps by (auto simp: check_chain_def Let_def stands_at_def m incremental_manifest_def)
  moreover have "stands_at (advanced_row m r) (latest_of_row ?row)"
    using at stamps by (simp add: stands_at_def advanced_row_def latest_of_row_def incremental_catalog_row_def m
        incremental_manifest_def Let_def)
  moreover have "pr_included_change_seq_low ?row = lp_included_change_seq_high prev" by (simp add: incremental_catalog_row_def)
  moreover have "lp_package_sequence (latest_of_row ?row) = lp_package_sequence prev + 1"
    using row(1) by (simp add: latest_of_row_def)
  moreover have "catalog_ok (pd_catalog pr')" unfolding catalog' by (rule insert_package_catalog_row_ok [OF ok ins])
  moreover have "bt_get fs' (manifest_path dir) = Some (be_print_manifest env doc)" by (simp add: fs' bt_get_bt_insert_same)
  ultimately show ?thesis using c catalog' fence payload by metis
qed


section \<open>A build on a small producer\<close>

definition sample_producer :: producer where
  "sample_producer = \<lparr>pd_server = sample_server, pd_public = sample_schema,
     pd_ledger = release_outbox_fence sample_frozen,
     pd_catalog = [sample_catalog_row ''published'' (sample_artifact Baseline ''b'' 0 1)]\<rparr>"

definition sample_incremental_params :: incremental_params where
  "sample_incremental_params = \<lparr>ip_builder_run_id = ''run'', ip_created_at = ''now'', ip_embedding_fingerprint = ''fp'',
     ip_embedding_model = ''m'', ip_embedding_dimension = 2, ip_embedding_normalize = True, ip_builder_versions = [],
     ip_minimum_client_version = Version 0 1 0\<rparr>"

definition built_id ::
  "((producer \<times> files) \<times> (incremental_build_report option, build_error) result) option \<Rightarrow> string option" where
  "built_id r = (case r of Some (_, Inr (Some report)) \<Rightarrow> Some (ir_package_id report) | _ \<Rightarrow> None)"

lemma sample_build_id:
  "built_id (build_incremental sample_build_env ''core'' ''/pending'' sample_incremental_params (sample_producer, [])) = Some ''core-1-2''"
  by code_simp

lemma sample_producer_ok: "catalog_ok (pd_catalog sample_producer)"
  by code_simp

definition sample_latest :: latest_package where
  "sample_latest = latest_of_row (sample_catalog_row ''published'' (sample_artifact Baseline ''b'' 0 1))"

lemma sample_latest_eq: "latest_package_for_corpus (pd_catalog sample_producer) ''core'' = Some sample_latest"
  by (simp add: latest_package_for_corpus_def corpus_rows_def sample_producer_def sample_latest_def sample_catalog_row_def)

definition sample_client_row :: corpus_row where
  "sample_client_row = \<lparr>cs_active_generation = ''core_g0002'', cs_sequence = 1, cs_baseline_id = ''b1'', cs_schema_version = 24,
     cs_embedding_fingerprint = ''fp'', cs_builder_versions = JObject [], cs_last_package_id = Some ''b'',
     cs_last_package_digest = Some ''sha256:b''\<rparr>"

lemma sample_stands: "stands_at sample_client_row sample_latest \<and> lp_package_sequence sample_latest = 1"
  by code_simp

theorem incremental_continues_chain_witness:
  "\<exists>s' report (doc :: embedded_manifest signed) lp. build_incremental sample_build_env ''core'' ''/pending'' sample_incremental_params (sample_producer, [])
      = Some (s', Inr (Some report)) \<and> ir_package_id report = ''core-1-2''
    \<and> check_chain (sd_payload doc) sample_client_row = Inr ()
    \<and> lp_package_sequence lp = 2 \<and> stands_at (advanced_row (sd_payload doc) sample_client_row) lp"
proof -
  from sample_build_id obtain pr' fs' report where
    b: "build_incremental sample_build_env ''core'' ''/pending'' sample_incremental_params (sample_producer, [])
      = Some ((pr', fs'), Inr (Some report))" and "ir_package_id report = ''core-1-2''"
    by (auto simp: built_id_def split: option.splits prod.splits sum.splits)
  moreover have "0 \<le> lp_package_sequence sample_latest" "lp_package_sequence sample_latest < i64_max"
    "stands_at sample_client_row sample_latest" using sample_stands by (simp_all add: i64_max_def)
  from incremental_continues_chain [OF sample_producer_ok b sample_latest_eq this] obtain doc :: "embedded_manifest signed" and lp where
    "check_chain (sd_payload doc) sample_client_row = Inr ()" "stands_at (advanced_row (sd_payload doc) sample_client_row) lp"
    "lp_package_sequence lp = lp_package_sequence sample_latest + 1" by blast
  moreover have "lp_package_sequence sample_latest + 1 = 2" using sample_stands by simp
  ultimately show ?thesis by metis
qed


definition sample_scope :: "string \<Rightarrow> string \<Rightarrow> changed_scope" where
  "sample_scope t k = \<lparr>sc_change_seq = ChangeSeq 1, sc_table_name = t, sc_op = Upsert, sc_scope_kind = ''document'', sc_scope_key = k\<rparr>"

definition sample_scopes :: "changed_scope list" where
  "sample_scopes = [sample_scope ''chunk_embeddings'' ''e'', sample_scope ''chunk_embeddings'' ''d'', sample_scope ''documents'' ''d'',
     sample_scope ''chunks'' ''c'', sample_scope ''documents'' ''d'']"


end
