(* ===== verification/Producer_Cycle.thy ===== *)
theory Producer_Cycle
  imports Incremental_Builder
begin

text \<open>
  Publishing (\<open>package-build/publish.rs\<close>) and the producer cycle (\<open>package-build/cycle.rs\<close>): resume what a
  crashed cycle left in the staging slot, build the next incremental into it, publish it, mark it published,
  refresh the signed remote manifest.  A directory exists when a file lies below it; renames and removals are
  atomic, and file operations do not fail on files that exist.
\<close>

section \<open>The file system\<close>

definition staged_pending_dir :: "string \<Rightarrow> string \<Rightarrow> string" where
  "staged_pending_dir pub corpus = path_join (path_join (path_join pub corpus) ''.staging'') ''pending''"

definition with_tmp_suffix :: "string \<Rightarrow> string" where
  "with_tmp_suffix path = path @ ''.tmp''"

definition clean_dir :: "string \<Rightarrow> files \<Rightarrow> files" where
  "clean_dir dir fs = filter (\<lambda>(path, _). strip_prefix path (dir @ ''/'') = None) fs"

definition copy_dir :: "(string \<times> string) list \<Rightarrow> string \<Rightarrow> files \<Rightarrow> files" where
  "copy_dir entries dest fs = foldl (\<lambda>m (k, v). bt_insert k v m) fs (map (\<lambda>(rest, bytes). (dest @ ''/'' @ rest, bytes)) entries)"

section \<open>Publishing\<close>

definition artifact_sha256 :: "build_env \<Rightarrow> string \<Rightarrow> files \<Rightarrow> (string, build_error) result" where
  "artifact_sha256 env artifact_dir fs =
     and_then (ok_or (bt_get fs (manifest_path artifact_dir)) BuildIo) (\<lambda>bytes.
     and_then (ok_or (be_parse_manifest env bytes) BuildJson) (\<lambda>doc.
     Inr (in_artifact_sha256 (em_integrity (sd_payload doc)))))"

definition publish_package ::
  "build_env \<Rightarrow> string \<Rightarrow> string \<Rightarrow> string \<Rightarrow> string \<Rightarrow> files \<Rightarrow> (files, build_error) result" where
  "publish_package env pub corpus package_id artifact_dir fs =
     (let dest = published_package_dir pub corpus package_id in
      if files_under dest fs \<noteq> [] then
        and_then (artifact_sha256 env dest fs) (\<lambda>existing.
        and_then (artifact_sha256 env artifact_dir fs) (\<lambda>incoming.
        if existing = incoming then Inr fs else Inl generations_error))
      else
        and_then (ensure (files_under artifact_dir fs \<noteq> []) BuildIo) (\<lambda>_.
        Inr (copy_dir (files_under artifact_dir fs) dest (clean_dir (with_tmp_suffix dest) fs))))"

definition publish_remote_manifest ::
  "build_env \<Rightarrow> string \<Rightarrow> string \<Rightarrow> remote_manifest signed \<Rightarrow> files \<Rightarrow> files" where
  "publish_remote_manifest env pub corpus manifest fs =
     bt_insert (published_manifest_path pub corpus) (be_print_remote env manifest) fs"

section \<open>The cycle\<close>

datatype enrichment_mode = EnrichmentDisabled | EnrichmentRan u64 | SkippedNoCredentials

datatype publish_fault = NoFault | AfterStageBeforePublish

record producer_cycle_config =
  pc_incremental_params :: incremental_params
  pc_remote_manifest_params :: remote_manifest_params
  pc_enrichment :: enrichment_mode

record producer_cycle_report =
  pc_corpus :: string
  pc_built_incremental :: "string option"
  pc_head_sequence :: "u64 option"
  pc_included_change_seq_high :: "u64 option"
  pc_remote_manifest_path :: string
  pc_report_enrichment :: enrichment_mode

record staged_identity =
  st_package_id :: string
  st_package_kind :: package_kind

type_synonym 'a cycle_act = "(producer \<times> files, 'a, build_error) action"

definition read_staged_identity :: "build_env \<Rightarrow> string \<Rightarrow> files \<Rightarrow> (staged_identity option, build_error) result" where
  "read_staged_identity env pending fs =
     (case bt_get fs (manifest_path pending) of
        None \<Rightarrow> Inr None
      | Some bytes \<Rightarrow>
          and_then (ok_or (be_parse_manifest env bytes) BuildJson) (\<lambda>doc.
          Inr (Some \<lparr>st_package_id = id_package_id (em_identity (sd_payload doc)),
                     st_package_kind = id_package_kind (em_identity (sd_payload doc))\<rparr>)))"

definition clean_act :: "string \<Rightarrow> unit cycle_act" where
  "clean_act dir = modify (\<lambda>(pr, fs). (pr, clean_dir dir fs))"

definition publish_act :: "build_env \<Rightarrow> string \<Rightarrow> string \<Rightarrow> string \<Rightarrow> string \<Rightarrow> unit cycle_act" where
  "publish_act env pub corpus package_id dir = statement (\<lambda>(pr, fs).
     and_then (publish_package env pub corpus package_id dir fs) (\<lambda>fs'. Inr ((pr, fs'), ())))"

definition mark_package_published :: "string \<Rightarrow> string \<Rightarrow> unit cycle_act" where
  "mark_package_published corpus package_id = (\<lambda>(pr, fs).
     case set_published corpus package_id (pd_catalog pr) of
       (c, updated) \<Rightarrow> ((pr\<lparr>pd_catalog := c\<rparr>, fs), if updated = 1 then Inr () else Inl generations_error))"

definition resume_pending :: "build_env \<Rightarrow> string \<Rightarrow> string \<Rightarrow> string \<Rightarrow> staged_identity option cycle_act" where
  "resume_pending env corpus pub pending =
     bind_act (\<lambda>s. (s, read_staged_identity env pending (snd s))) (\<lambda>found.
     case found of
       None \<Rightarrow> ret None
     | Some staged \<Rightarrow>
         bind_act (gets (\<lambda>s. package_catalog_status (pd_catalog (fst s)) corpus (st_package_id staged))) (\<lambda>status.
         if status = None then bind_act (clean_act pending) (\<lambda>_. ret None)
         else
           bind_act (publish_act env pub corpus (st_package_id staged) pending) (\<lambda>_.
           bind_act (mark_package_published corpus (st_package_id staged)) (\<lambda>_.
           bind_act (clean_act pending) (\<lambda>_.
           ret (Some staged))))))"

definition published_head :: "producer \<Rightarrow> string \<Rightarrow> u64 option \<times> u64 option" where
  "published_head pr corpus =
     (let rows = catalog_rows_for_corpus (pd_catalog pr) corpus in
      if rows = [] then (None, None)
      else (Some (u64_or_zero (ct_package_sequence (last rows))), Some (u64_or_zero (ct_included_change_seq_high (last rows)))))"

definition publish_fresh ::
  "build_env \<Rightarrow> string \<Rightarrow> string \<Rightarrow> string \<Rightarrow> publish_fault \<Rightarrow> incremental_build_report option \<Rightarrow> string option cycle_act" where
  "publish_fresh env corpus pub pending fault incremental =
     (case incremental of
        None \<Rightarrow> ret None
      | Some report \<Rightarrow>
          if fault = AfterStageBeforePublish then fail generations_error
          else
            bind_act (publish_act env pub corpus (ir_package_id report) pending) (\<lambda>_.
            bind_act (mark_package_published corpus (ir_package_id report)) (\<lambda>_.
            bind_act (clean_act pending) (\<lambda>_.
            ret (Some (ir_package_id report))))))"

definition refresh_manifest ::
  "build_env \<Rightarrow> string \<Rightarrow> string \<Rightarrow> producer_cycle_config \<Rightarrow> string option \<Rightarrow> string option \<Rightarrow> producer_cycle_report cycle_act" where
  "refresh_manifest env corpus pub cfg fresh resumed =
     bind_act (\<lambda>s. (s, build_remote_manifest env (snd s) (pd_catalog (fst s)) corpus pub (pc_remote_manifest_params cfg))) (\<lambda>doc.
     bind_act (modify (\<lambda>(pr, fs). (pr, publish_remote_manifest env pub corpus doc fs))) (\<lambda>_.
     bind_act (gets (\<lambda>s. published_head (fst s) corpus)) (\<lambda>(head, high).
     ret \<lparr>pc_corpus = corpus, pc_built_incremental = (case fresh of Some i \<Rightarrow> Some i | None \<Rightarrow> resumed),
          pc_head_sequence = head, pc_included_change_seq_high = high,
          pc_remote_manifest_path = published_manifest_path pub corpus,
          pc_report_enrichment = pc_enrichment cfg\<rparr>)))"

text \<open>\<open>None\<close>: the build waits for the writers in flight.\<close>

definition producer_cycle_faulted ::
  "build_env \<Rightarrow> string \<Rightarrow> string \<Rightarrow> producer_cycle_config \<Rightarrow> publish_fault \<Rightarrow> producer \<times> files \<Rightarrow>
   ((producer \<times> files) \<times> (producer_cycle_report, build_error) result) option" where
  "producer_cycle_faulted env corpus pub cfg fault s0 =
     (let pending = staged_pending_dir pub corpus in
      case bind_act (resume_pending env corpus pub pending) (\<lambda>resumed.
           bind_act (clean_act pending) (\<lambda>_. ret (map_option st_package_id resumed))) s0 of
        (s1, Inl e) \<Rightarrow> Some (s1, Inl e)
      | (s1, Inr resumed) \<Rightarrow>
          (case build_incremental env corpus pending (pc_incremental_params cfg) s1 of
             None \<Rightarrow> None
           | Some (s2, Inl e) \<Rightarrow> Some (s2, Inl e)
           | Some (s2, Inr incremental) \<Rightarrow>
               Some (bind_act (publish_fresh env corpus pub pending fault incremental) (\<lambda>fresh.
                     refresh_manifest env corpus pub cfg fresh resumed) s2)))"

definition producer_cycle ::
  "build_env \<Rightarrow> string \<Rightarrow> string \<Rightarrow> producer_cycle_config \<Rightarrow> producer \<times> files \<Rightarrow>
   ((producer \<times> files) \<times> (producer_cycle_report, build_error) result) option" where
  "producer_cycle env corpus pub cfg = producer_cycle_faulted env corpus pub cfg NoFault"


section \<open>Paths and file maps\<close>

lemma root_in_components: "RootDir \<in> set (path_components p) \<longleftrightarrow> (\<exists>q. p = CHR ''/'' # q)"
  by (cases p) (auto simp: path_components_def Let_def piece_component_def split: list.splits if_splits)

lemma path_join_relative:
  assumes "p \<noteq> []" "hd p \<noteq> CHR ''/''"
  shows "path_join r p = (if r = [] \<or> last r = CHR ''/'' then r @ p else r @ ''/'' @ p)"
  using assms by (auto simp: path_join_def root_in_components)

lemma path_join_plain:
  assumes "p \<noteq> []" "hd p \<noteq> CHR ''/''" "r \<noteq> []" "last r \<noteq> CHR ''/''"
  shows "path_join r p = r @ ''/'' @ p"
  using assms by (simp add: path_join_relative)

lemma corpus_valid_path:
  assumes "corpus_valid c"
  shows "c \<noteq> []" "hd c \<noteq> CHR ''/''" "last c \<noteq> CHR ''/''"
proof -
  have all: "\<forall>b\<in>set c. is_lower b \<or> is_digit b \<or> b = CHR ''_''" and "c \<noteq> []"
    using assms by (auto simp: corpus_valid_def list_all_iff)
  moreover have "\<not> is_lower (CHR ''/'')" "\<not> is_digit (CHR ''/'')" by (simp_all add: is_lower_def is_digit_def)
  ultimately have "CHR ''/'' \<notin> set c" by fastforce
  with \<open>c \<noteq> []\<close> show "c \<noteq> []" "hd c \<noteq> CHR ''/''" "last c \<noteq> CHR ''/''" by (metis hd_in_set last_in_set)+
qed

lemma corpus_dir_plain:
  assumes "corpus_valid corpus"
  shows "path_join pub corpus \<noteq> []" "last (path_join pub corpus) \<noteq> CHR ''/''"
  using corpus_valid_path [OF assms] by (simp_all add: path_join_relative)

lemma pending_path:
  assumes "corpus_valid corpus"
  shows "staged_pending_dir pub corpus = path_join pub corpus @ ''/.staging/pending''"
    "manifest_path (staged_pending_dir pub corpus) = staged_pending_dir pub corpus @ ''/'' @ ''manifest.json''"
  using corpus_dir_plain [OF assms, of pub]
  by (simp_all add: staged_pending_dir_def manifest_path_def path_join_plain)

lemma package_id_path:
  assumes "corpus_valid corpus"
  shows "package_id_of corpus a b \<noteq> []" "hd (package_id_of corpus a b) \<noteq> CHR ''/''" "last (package_id_of corpus a b) \<noteq> CHR ''/''"
proof -
  show "package_id_of corpus a b \<noteq> []" "hd (package_id_of corpus a b) \<noteq> CHR ''/''"
    using corpus_valid_path [OF assms] by (simp_all add: package_id_of_def)
  have "last (show_nat n) \<noteq> CHR ''/''" for n
  proof
    assume "last (show_nat n) = CHR ''/''"
    then have "CHR ''/'' \<in> set (show_nat n)" by (metis last_in_set show_nat_nonempty)
    with show_nat_digits [of n] have "is_digit (CHR ''/'')" by (simp add: list_all_iff)
    then show False by (simp add: is_digit_def)
  qed
  then show "last (package_id_of corpus a b) \<noteq> CHR ''/''" by (simp add: package_id_of_def)
qed

lemma published_path:
  assumes "corpus_valid corpus" "P = package_id_of corpus a b"
  shows "published_package_dir pub corpus P = path_join pub corpus @ ''/packages/'' @ P"
  using corpus_dir_plain [OF assms(1), of pub] package_id_path [OF assms(1), of a b] assms(2)
  by (simp add: published_package_dir_def path_join_plain)

text \<open>Facts for any prefix; \<open>files_under\<close> and \<open>clean_dir\<close> use the prefix \<open>dir/\<close>.\<close>

definition files_with :: "string \<Rightarrow> files \<Rightarrow> (string \<times> string) list" where
  "files_with q fs = List.map_filter (\<lambda>(path, bytes). map_option (\<lambda>rest. (rest, bytes)) (strip_prefix path q)) fs"

definition files_without :: "string \<Rightarrow> files \<Rightarrow> files" where
  "files_without q fs = filter (\<lambda>(path, _). strip_prefix path q = None) fs"

definition copy_to :: "string \<Rightarrow> (string \<times> string) list \<Rightarrow> files \<Rightarrow> files" where
  "copy_to q entries fs = foldl (\<lambda>m (k, v). bt_insert k v m) fs (map (\<lambda>(rest, bytes). (q @ rest, bytes)) entries)"

lemma files_by_prefix:
  "files_under dir = files_with (dir @ ''/'')" "clean_dir dir = files_without (dir @ ''/'')"
  "copy_dir entries dest = copy_to (dest @ ''/'') entries"
  by (simp_all add: fun_eq_iff files_under_def files_with_def clean_dir_def files_without_def copy_dir_def copy_to_def)

lemma files_with_simps [simp]:
  "files_with q [] = []"
  "files_with q ((path, b) # fs) = (case strip_prefix path q of None \<Rightarrow> files_with q fs | Some rest \<Rightarrow> (rest, b) # files_with q fs)"
  by (simp_all add: files_with_def map_filter_simps split: option.split)

lemma files_without_simps [simp]:
  "files_without q [] = []"
  "files_without q ((path, b) # fs) = (if strip_prefix path q = None then (path, b) # files_without q fs else files_without q fs)"
  by (simp_all add: files_without_def)

lemma strip_prefix_None: "strip_prefix s p = None \<longleftrightarrow> (\<forall>r. s \<noteq> p @ r)"
  using strip_prefix_eq [of s p] by (cases "strip_prefix s p") auto

lemma in_files_with: "(rest, b) \<in> set (files_with q fs) \<longleftrightarrow> (q @ rest, b) \<in> set fs"
  by (induction fs) (auto simp: strip_prefix_eq strip_prefix_None split: option.splits)

lemma map_of_files_with: "map_of (files_with q fs) rest = bt_get fs (q @ rest)"
  by (induction fs) (auto simp: bt_get_def strip_prefix_eq strip_prefix_None split: option.splits)

lemma distinct_files_with: "distinct (map fst fs) \<Longrightarrow> distinct (map fst (files_with q fs))"
proof (induction fs)
  case (Cons f fs)
  obtain path b where f: "f = (path, b)" by (cases f)
  have "r \<notin> fst ` set (files_with q fs)" if "path = q @ r" for r
    using Cons.prems that f by (force simp: in_files_with)
  with Cons f show ?case by (auto simp: strip_prefix_eq split: option.split)
qed simp

lemma bt_get_files_without: "bt_get (files_without q fs) k = (if \<exists>rest. k = q @ rest then None else bt_get fs k)"
  by (induction fs) (auto simp: bt_get_def strip_prefix_None)

lemma bt_ok_files_without: "bt_ok fs \<Longrightarrow> bt_ok (files_without q fs)"
  by (simp add: bt_ok_def files_without_def sorted_wrt_map sorted_wrt_filter)

lemma files_with_without: "files_with q (files_without q fs) = []"
  by (induction fs) (auto split: option.split)

lemma copy_to_lookup:
  assumes "bt_ok fs" "distinct (map fst entries)"
  shows "bt_get (copy_to q entries fs) k
      = (case strip_prefix k q of None \<Rightarrow> bt_get fs k
         | Some rest \<Rightarrow> (case map_of entries rest of Some v \<Rightarrow> Some v | None \<Rightarrow> bt_get fs k))"
  using assms
proof (induction entries arbitrary: fs)
  case (Cons e es)
  obtain r v where e: "e = (r, v)" by (cases e)
  have "bt_get (copy_to q es (bt_insert (q @ r) v fs)) k
      = (case strip_prefix k q of None \<Rightarrow> bt_get (bt_insert (q @ r) v fs) k
         | Some rest \<Rightarrow> (case map_of es rest of Some v \<Rightarrow> Some v | None \<Rightarrow> bt_get (bt_insert (q @ r) v fs) k))"
    using Cons by (intro Cons.IH) (simp_all add: bt_ok_insert)
  moreover have "map_of es r = None" using Cons.prems(2) e by (simp add: map_of_eq_None_iff)
  moreover have "copy_to q (e # es) fs = copy_to q es (bt_insert (q @ r) v fs)" by (simp add: copy_to_def e)
  ultimately show ?case using Cons.prems(1)
    by (auto simp: e bt_get_insert strip_prefix_eq strip_prefix_None split: option.splits)
qed (simp add: copy_to_def split: option.split)


section \<open>Catalog status\<close>

lemma package_catalog_status_Some:
  "package_catalog_status c corpus P \<noteq> None \<longleftrightarrow> (\<exists>r\<in>set c. pr_corpus r = corpus \<and> pr_package_id r = P)"
  using find_None_iff' [of "\<lambda>r. pr_corpus r = corpus \<and> pr_package_id r = P" c]
  by (auto simp: package_catalog_status_def)

lemma status_after_insert:
  assumes "insert_package_catalog_row row c = Inr c'" "package_catalog_status c corpus P = Some s"
  shows "package_catalog_status c' corpus P = Some s"
proof -
  have "List.find Q (xs @ ys) = Some x" if "List.find Q xs = Some x" for Q and xs ys :: "package_catalog_row list" and x
    using that by (induction xs) (auto split: if_splits)
  then show ?thesis using insert_package_catalog_row_InrD [OF assms(1)] assms(2)
    by (auto simp: package_catalog_status_def)
qed

lemma status_after_publish_other:
  assumes "package_catalog_status c corpus P = Some ''published''"
  shows "package_catalog_status (fst (set_published corpus' Q c)) corpus P = Some ''published''"
  using assms by (induction c) (auto simp: package_catalog_status_def set_published_def Let_def split: if_splits)

lemma status_after_publish:
  assumes "package_catalog_status c corpus P \<noteq> None"
  shows "package_catalog_status (fst (set_published corpus P c)) corpus P = Some ''published''"
  using assms by (induction c) (auto simp: package_catalog_status_def set_published_def Let_def split: if_splits)

lemma publish_matches_one:
  assumes "catalog_ok c" "package_catalog_status c corpus P \<noteq> None"
  shows "snd (set_published corpus P c) = 1"
proof -
  let ?hit = "\<lambda>r. pr_corpus r = corpus \<and> pr_package_id r = P"
  have "distinct (map pr_package_id (filter ?hit c))" using assms(1) by (auto simp: catalog_ok_def distinct_map inj_on_def)
  moreover have "set (map pr_package_id (filter ?hit c)) = {P}"
    using assms(2) unfolding package_catalog_status_Some by auto
  ultimately have "length (map pr_package_id (filter ?hit c)) = 1" by (metis distinct_card is_singletonI is_singleton_altdef)
  then show ?thesis by (simp add: set_published_def Let_def)
qed

text \<open>What a build may do to the catalog: nothing, or one insert.\<close>

lemma build_incremental_inner_catalog:
  assumes "build_incremental_inner env corpus dir params (pr, fs) = ((pr', fs'), r)"
  shows "pd_catalog pr' = pd_catalog pr \<or> (\<exists>row. insert_package_catalog_row row (pd_catalog pr) = Inr (pd_catalog pr'))"
  using assms
  unfolding build_incremental_inner_def
  by (auto simp: bind_act_def gets_def lift_res_def ret_def statement_def modify_def seal_and_catalog_def with_out_def Let_def
      result_simps ok_or_def map_err_def and_then_def split: prod.splits sum.splits option.splits if_splits)

lemma build_incremental_catalog:
  assumes "build_incremental env corpus dir params (pr, fs) = Some ((pr', fs'), r)"
  shows "pd_catalog pr' = pd_catalog pr \<or> (\<exists>row. insert_package_catalog_row row (pd_catalog pr) = Inr (pd_catalog pr'))"
  using assms build_incremental_inner_catalog
  by (fastforce simp: build_incremental_def with_ledger_def split: sum.splits option.splits prod.splits)

lemma build_incremental_report:
  assumes "build_incremental env corpus dir params (pr, fs) = Some ((pr', fs'), Inr (Some report))"
  shows "corpus_valid corpus \<and> (\<exists>a b. ir_package_id report = package_id_of corpus a b)
    \<and> package_catalog_status (pd_catalog pr') corpus (ir_package_id report) \<noteq> None
    \<and> (\<exists>doc. bt_get fs' (manifest_path dir) = Some (be_print_manifest env doc)
          \<and> id_package_id (em_identity (sd_payload doc)) = ir_package_id report)"
proof -
  from assms obtain l pr1 where valid: "corpus_valid corpus"
    and inner: "build_incremental_inner env corpus dir params (pr\<lparr>pd_ledger := l\<rparr>, fs) = ((pr1, fs'), Inr (Some report))"
    and pr': "pr' = with_ledger release_outbox_fence pr1"
    by (auto simp: build_incremental_def corpus_new_Inr split: sum.splits option.splits prod.splits)
  from build_incremental_inner_SomeD [OF inner] obtain prev hi out m digest doc c where
      m: "m = incremental_manifest env (pr\<lparr>pd_ledger := l\<rparr>) corpus params prev out"
    and doc: "seal (be_signer env) (be_manifest_codec env) m = Inr doc"
    and ins: "insert_package_catalog_row (incremental_catalog_row corpus params prev m digest hi) (pd_catalog pr) = Inr c"
    and pr1: "pr1 = pr\<lparr>pd_ledger := l, pd_catalog := c\<rparr>" and fs': "fs' = bt_insert (manifest_path dir) (be_print_manifest env doc) (po_fs out)"
    and report: "report = report_of corpus prev hi (po_scope_count out) dir m"
    by auto
  have payload: "sd_payload doc = m" using doc by (auto simp: seal_def result_simps)
  have id: "ir_package_id report = id_package_id (em_identity m)" by (simp add: report report_of_def)
  have "\<exists>r\<in>set c. pr_corpus r = corpus \<and> pr_package_id r = id_package_id (em_identity m)"
    using insert_package_catalog_row_InrD [OF ins] by (auto simp: incremental_catalog_row_def same_identity_def)
  then have "package_catalog_status (pd_catalog pr') corpus (ir_package_id report) \<noteq> None"
    unfolding package_catalog_status_Some id by (simp add: pr' pr1 with_ledger_def)
  moreover have "\<exists>a b. ir_package_id report = package_id_of corpus a b"
    unfolding id m by (auto simp: incremental_manifest_def Let_def)
  ultimately show ?thesis using valid payload id by (auto simp: fs' bt_get_bt_insert_same)
qed


section \<open>Recovery after a crash\<close>

lemma publish_act_eq:
  "publish_act env pub corpus P dir (pr, fs) =
     (case publish_package env pub corpus P dir fs of Inl e \<Rightarrow> ((pr, fs), Inl e) | Inr fs' \<Rightarrow> ((pr, fs'), Inr ()))"
  by (simp add: publish_act_def statement_def and_then_def split: sum.split)

lemma mark_package_published_eq:
  "snd (set_published corpus P (pd_catalog pr)) = 1 \<Longrightarrow>
     mark_package_published corpus P (pr, fs) = ((pr\<lparr>pd_catalog := fst (set_published corpus P (pd_catalog pr))\<rparr>, fs), Inr ())"
  by (cases "set_published corpus P (pd_catalog pr)") (simp add: mark_package_published_def)

text \<open>A staged package whose directory is free: where its files go.\<close>

lemma publish_staged:
  assumes valid: "corpus_valid corpus" and P: "P = package_id_of corpus a b" and fs: "bt_ok fs"
    and free: "files_under (published_package_dir pub corpus P) fs = []"
    and staged: "bt_get fs (manifest_path (staged_pending_dir pub corpus)) = Some bytes"
  shows "\<exists>fs'. publish_package env pub corpus P (staged_pending_dir pub corpus) fs = Inr fs'
    \<and> (\<forall>rest. bt_get (clean_dir (staged_pending_dir pub corpus) fs') (published_package_dir pub corpus P @ ''/'' @ rest)
          = bt_get fs (staged_pending_dir pub corpus @ ''/'' @ rest))
    \<and> bt_get (clean_dir (staged_pending_dir pub corpus) fs') (manifest_path (staged_pending_dir pub corpus)) = None"
proof -
  let ?pending = "staged_pending_dir pub corpus" and ?dest = "published_package_dir pub corpus P"
  let ?qp = "?pending @ ''/''" and ?qd = "?dest @ ''/''"
  let ?fs0 = "files_without (with_tmp_suffix ?dest @ ''/'') fs"
  let ?fs' = "copy_to ?qd (files_with ?qp fs) ?fs0"
  have nonempty: "files_with ?qp fs \<noteq> []"
    using staged map_of_files_with [of ?qp fs "''manifest.json''"] pending_path(2) [OF valid, of pub] by force
  then have publish: "publish_package env pub corpus P ?pending fs = Inr ?fs'"
    using free by (simp add: publish_package_def Let_def files_by_prefix)
  have copied: "bt_get ?fs' k = (case strip_prefix k ?qd of None \<Rightarrow> bt_get ?fs0 k
      | Some rest \<Rightarrow> (case map_of (files_with ?qp fs) rest of Some v \<Rightarrow> Some v | None \<Rightarrow> bt_get ?fs0 k))" for k
    by (rule copy_to_lookup) (use fs in \<open>simp_all add: bt_ok_files_without distinct_files_with bt_ok_distinct\<close>)
  have apart: "?qd @ rest \<noteq> ?qp @ rest'" for rest rest'
    by (simp add: pending_path(1) [OF valid] published_path [OF valid P])
  have "bt_get (files_without ?qp ?fs') (?qd @ rest) = bt_get fs (?qp @ rest)" for rest
  proof -
    have "bt_get fs (?qd @ rest) = None"
      using free map_of_files_with [of ?qd fs rest] by (simp add: files_by_prefix)
    then have "bt_get ?fs0 (?qd @ rest) = None" by (simp add: bt_get_files_without)
    then have "bt_get ?fs' (?qd @ rest) = bt_get fs (?qp @ rest)"
      unfolding copied by (simp add: map_of_files_with del: append_assoc split: option.split)
    moreover have "\<nexists>rest'. ?qd @ rest = ?qp @ rest'" using apart by blast
    ultimately show ?thesis unfolding bt_get_files_without by (simp del: append_assoc)
  qed
  moreover have "bt_get (files_without ?qp ?fs') (manifest_path ?pending) = None"
    by (simp add: bt_get_files_without pending_path(2) [OF valid])
  ultimately show ?thesis using publish by (auto simp: files_by_prefix)
qed


lemma resume_staged:
  assumes valid: "corpus_valid corpus" and P: "P = package_id_of corpus a b" and fs: "bt_ok fs"
    and free: "files_under (published_package_dir pub corpus P) fs = []"
    and staged: "bt_get fs (manifest_path (staged_pending_dir pub corpus)) = Some bytes"
    and parsed: "be_parse_manifest env bytes = Some doc" "id_package_id (em_identity (sd_payload doc)) = P"
    and ok: "catalog_ok (pd_catalog pr)" and listed: "package_catalog_status (pd_catalog pr) corpus P \<noteq> None"
  shows "\<exists>pr2 fs2 st. resume_pending env corpus pub (staged_pending_dir pub corpus) (pr, fs) = ((pr2, fs2), Inr (Some st))
    \<and> st_package_id st = P \<and> pr2 = pr\<lparr>pd_catalog := fst (set_published corpus P (pd_catalog pr))\<rparr>
    \<and> (\<forall>rest. bt_get fs2 (published_package_dir pub corpus P @ ''/'' @ rest)
          = bt_get fs (staged_pending_dir pub corpus @ ''/'' @ rest))
    \<and> read_staged_identity env (staged_pending_dir pub corpus) fs2 = Inr None"
proof -
  let ?pending = "staged_pending_dir pub corpus"
  from publish_staged [OF assms(1-5), of env] obtain fs' where
      publish: "publish_package env pub corpus P ?pending fs = Inr fs'"
    and files: "\<forall>rest. bt_get (clean_dir ?pending fs') (published_package_dir pub corpus P @ ''/'' @ rest)
        = bt_get fs (?pending @ ''/'' @ rest)"
    and gone: "bt_get (clean_dir ?pending fs') (manifest_path ?pending) = None" by blast
  note one = publish_matches_one [OF ok listed]
  let ?st = "\<lparr>st_package_id = P, st_package_kind = id_package_kind (em_identity (sd_payload doc))\<rparr>"
  have "read_staged_identity env ?pending fs = Inr (Some ?st)"
    using staged parsed by (simp add: read_staged_identity_def ok_or_def)
  then have "resume_pending env corpus pub ?pending (pr, fs)
      = ((pr\<lparr>pd_catalog := fst (set_published corpus P (pd_catalog pr))\<rparr>, clean_dir ?pending fs'), Inr (Some ?st))"
    using listed publish mark_package_published_eq [OF one, of fs']
    by (auto simp: resume_pending_def bind_act_def gets_def publish_act_eq clean_act_def modify_def ret_def)
  moreover have "read_staged_identity env ?pending (clean_dir ?pending fs') = Inr None"
    using gone by (simp add: read_staged_identity_def)
  ultimately show ?thesis using files by auto
qed

text \<open>A successful cycle after a resume keeps the resumed package published and reports a package.\<close>

lemma cycle_after_resume:
  assumes resume: "resume_pending env corpus pub (staged_pending_dir pub corpus) s0 = ((pr, fs), Inr (Some st))"
    and status: "package_catalog_status (pd_catalog pr) corpus P = Some ''published''"
    and run: "producer_cycle env corpus pub cfg s0 = Some ((pr', fs'), Inr rep)"
  shows "package_catalog_status (pd_catalog pr') corpus P = Some ''published'' \<and> pc_built_incremental rep \<noteq> None"
proof -
  let ?pending = "staged_pending_dir pub corpus"
  from resume run obtain pr2 fs2 inc where
      build: "build_incremental env corpus ?pending (pc_incremental_params cfg) (pr, clean_dir ?pending fs) = Some ((pr2, fs2), Inr inc)"
    and rest: "bind_act (publish_fresh env corpus pub ?pending NoFault inc) (\<lambda>fresh.
        refresh_manifest env corpus pub cfg fresh (Some (st_package_id st))) (pr2, fs2) = ((pr', fs'), Inr rep)"
    by (auto simp: producer_cycle_def producer_cycle_faulted_def Let_def bind_act_def clean_act_def modify_def ret_def
        split: option.splits prod.splits sum.splits)
  have s2: "package_catalog_status (pd_catalog pr2) corpus P = Some ''published''"
    using build_incremental_catalog [OF build] status status_after_insert by metis
  from rest obtain pr3 fs3 fresh where
      publish: "publish_fresh env corpus pub ?pending NoFault inc (pr2, fs2) = ((pr3, fs3), Inr fresh)"
    and refresh: "refresh_manifest env corpus pub cfg fresh (Some (st_package_id st)) (pr3, fs3) = ((pr', fs'), Inr rep)"
    by (auto simp: bind_act_def split: prod.splits sum.splits)
  have "package_catalog_status (pd_catalog pr3) corpus P = Some ''published''"
    using publish s2 status_after_publish_other [OF s2]
    by (auto simp: publish_fresh_def ret_def bind_act_def publish_act_def statement_def mark_package_published_def clean_act_def
        modify_def and_then_def split: option.splits prod.splits sum.splits if_splits) (metis fst_conv)
  moreover have "pr' = pr3" "pc_built_incremental rep = (case fresh of Some i \<Rightarrow> Some i | None \<Rightarrow> Some (st_package_id st))"
    using refresh by (auto simp: refresh_manifest_def bind_act_def modify_def gets_def ret_def split: prod.splits sum.splits)
  ultimately show ?thesis by (simp split: option.split)
qed

text \<open>
  C7. A package survives a crash between its catalog row and its publication.  Suppose the build put the package in
  the staging slot and in the catalog, and the process died before publishing it; the outbox may have moved on since.
  (Of serde the resume needs that a written manifest reads back with its package id.)
  Then the next cycle first publishes this very package: every staged file appears under the package's published
  directory with its bytes, its row becomes published, no row is added for it, and the slot is empty, so a further
  resume does nothing.  Whatever that cycle then builds, when it succeeds the package is still published and the cycle
  reports a package.
\<close>
theorem crashed_publish_recovers:
  assumes ok: "catalog_ok (pd_catalog pr0)"
    and build: "build_incremental env corpus (staged_pending_dir pub corpus) params (pr0, fs0) = Some ((pr1, fs1), Inr (Some report))"
    and serde: "\<forall>doc. \<exists>doc'. be_parse_manifest env (be_print_manifest env doc) = Some doc'
        \<and> id_package_id (em_identity (sd_payload doc')) = id_package_id (em_identity (sd_payload doc))"
    and fs: "bt_ok fs1"
    and free: "files_under (published_package_dir pub corpus (ir_package_id report)) fs1 = []"
    and crashed: "pr = with_ledger f pr1"
  shows "\<exists>pr2 fs2 st. resume_pending env corpus pub (staged_pending_dir pub corpus) (pr, fs1) = ((pr2, fs2), Inr (Some st))
    \<and> st_package_id st = ir_package_id report
    \<and> package_catalog_status (pd_catalog pr2) corpus (ir_package_id report) = Some ''published''
    \<and> map pr_package_id (pd_catalog pr2) = map pr_package_id (pd_catalog pr1)
    \<and> (\<forall>rest. bt_get fs2 (published_package_dir pub corpus (ir_package_id report) @ ''/'' @ rest)
          = bt_get fs1 (staged_pending_dir pub corpus @ ''/'' @ rest))
    \<and> resume_pending env corpus pub (staged_pending_dir pub corpus) (pr2, fs2) = ((pr2, fs2), Inr None)
    \<and> (\<forall>cfg pr3 fs3 rep. producer_cycle env corpus pub cfg (pr, fs1) = Some ((pr3, fs3), Inr rep) \<longrightarrow>
          package_catalog_status (pd_catalog pr3) corpus (ir_package_id report) = Some ''published''
          \<and> pc_built_incremental rep \<noteq> None)"
proof -
  from build_incremental_report [OF build] obtain a b doc where valid: "corpus_valid corpus"
    and id: "ir_package_id report = package_id_of corpus a b"
    and listed: "package_catalog_status (pd_catalog pr1) corpus (ir_package_id report) \<noteq> None"
    and staged: "bt_get fs1 (manifest_path (staged_pending_dir pub corpus)) = Some (be_print_manifest env doc)"
    and doc: "id_package_id (em_identity (sd_payload doc)) = ir_package_id report" by blast
  have catalog: "pd_catalog pr = pd_catalog pr1" by (simp add: crashed with_ledger_def)
  have ok1: "catalog_ok (pd_catalog pr)"
    using build_incremental_catalog [OF build] ok insert_package_catalog_row_ok unfolding catalog by metis
  from serde obtain doc' where parsed: "be_parse_manifest env (be_print_manifest env doc) = Some doc'"
    and doc': "id_package_id (em_identity (sd_payload doc')) = ir_package_id report" using doc by metis
  from resume_staged [OF valid id fs free staged parsed doc' ok1 listed [folded catalog]] obtain pr2 fs2 st where
      resume: "resume_pending env corpus pub (staged_pending_dir pub corpus) (pr, fs1) = ((pr2, fs2), Inr (Some st))"
    and st: "st_package_id st = ir_package_id report"
    and pr2: "pr2 = pr\<lparr>pd_catalog := fst (set_published corpus (ir_package_id report) (pd_catalog pr))\<rparr>"
    and files: "\<forall>rest. bt_get fs2 (published_package_dir pub corpus (ir_package_id report) @ ''/'' @ rest)
        = bt_get fs1 (staged_pending_dir pub corpus @ ''/'' @ rest)"
    and empty: "read_staged_identity env (staged_pending_dir pub corpus) fs2 = Inr None" by blast
  have status: "package_catalog_status (pd_catalog pr2) corpus (ir_package_id report) = Some ''published''"
    using status_after_publish [OF listed] by (simp add: pr2 catalog)
  moreover have "map pr_package_id (pd_catalog pr2) = map pr_package_id (pd_catalog pr1)"
    by (simp add: pr2 catalog set_published_keys)
  moreover have "resume_pending env corpus pub (staged_pending_dir pub corpus) (pr2, fs2) = ((pr2, fs2), Inr None)"
    using empty by (simp add: resume_pending_def bind_act_def ret_def)
  ultimately show ?thesis using resume st files cycle_after_resume [OF resume status] by blast
qed


section \<open>A crash on the small producer\<close>

definition sample_cycle_env :: build_env where
  "sample_cycle_env = sample_build_env\<lparr>be_parse_manifest :=
     (\<lambda>bytes. Some \<lparr>sd_payload = sample_artifact Incremental bytes 1 2, sd_signature = sample_signature\<rparr>)\<rparr>"

lemma sample_cycle_serde:
  "be_parse_manifest sample_cycle_env (be_print_manifest sample_cycle_env doc)
     = Some \<lparr>sd_payload = sample_artifact Incremental (id_package_id (em_identity (sd_payload doc))) 1 2, sd_signature = sample_signature\<rparr>"
  by (simp add: sample_cycle_env_def sample_build_env_def)

definition staged_well :: "((producer \<times> files) \<times> (incremental_build_report option, build_error) result) option \<Rightarrow> bool" where
  "staged_well r = (case r of
     Some ((pr1, fs1), Inr (Some report)) \<Rightarrow> bt_ok fs1 \<and> ir_package_id report = ''core-1-2''
       \<and> files_under (published_package_dir ''/srv'' ''core'' (ir_package_id report)) fs1 = []
   | _ \<Rightarrow> False)"

lemma sample_staged:
  "staged_well (build_incremental sample_cycle_env ''core'' (staged_pending_dir ''/srv'' ''core'') sample_incremental_params
     (sample_producer, []))"
  by code_simp

theorem crashed_publish_recovers_witness:
  "\<exists>pr1 fs1 report pr2 fs2 st.
     build_incremental sample_cycle_env ''core'' (staged_pending_dir ''/srv'' ''core'') sample_incremental_params (sample_producer, [])
       = Some ((pr1, fs1), Inr (Some report))
     \<and> resume_pending sample_cycle_env ''core'' ''/srv'' (staged_pending_dir ''/srv'' ''core'') (with_ledger id pr1, fs1)
       = ((pr2, fs2), Inr (Some st))
     \<and> st_package_id st = ''core-1-2'' \<and> package_catalog_status (pd_catalog pr2) ''core'' ''core-1-2'' = Some ''published''"
proof -
  from sample_staged obtain pr1 fs1 report where
    build: "build_incremental sample_cycle_env ''core'' (staged_pending_dir ''/srv'' ''core'') sample_incremental_params
      (sample_producer, []) = Some ((pr1, fs1), Inr (Some report))"
    and facts: "bt_ok fs1" "ir_package_id report = ''core-1-2''"
      "files_under (published_package_dir ''/srv'' ''core'' (ir_package_id report)) fs1 = []"
    unfolding staged_well_def by (auto split: option.splits prod.splits sum.splits)
  have serde: "\<forall>doc. \<exists>doc'. be_parse_manifest sample_cycle_env (be_print_manifest sample_cycle_env doc) = Some doc'
      \<and> id_package_id (em_identity (sd_payload doc')) = id_package_id (em_identity (sd_payload doc))"
    by (simp add: sample_cycle_serde sample_artifact_def Let_def)
  from crashed_publish_recovers [OF sample_producer_ok build serde facts(1,3) refl, of id] build facts(2)
  show ?thesis by auto
qed

end
