(* ===== verification/Media_Builder.thy ===== *)
theory Media_Builder
  imports Incremental_Builder
begin

text \<open>
  The builder of full snapshots (\<open>package-build/baseline.rs\<close>): the first baseline of a corpus and the re-baseline
  that supersedes its chain, cut from one snapshot of the producer's tables.  The bytes of PostgreSQL's binary
  COPY are a parameter; the snapshot's reads do not fail.
\<close>

section \<open>Parameters and reports\<close>

record media_env =
  me_build :: build_env
  me_parse_remote :: "string \<Rightarrow> remote_manifest signed option"
  me_copy_out :: "string list \<Rightarrow> row list \<Rightarrow> string"

record baseline_params =
  bp_baseline_id :: string
  bp_builder_run_id :: string
  bp_created_at :: string
  bp_embedding_fingerprint :: string
  bp_embedding_model :: string
  bp_embedding_dimension :: u32
  bp_embedding_normalize :: bool
  bp_builder_versions :: "(string, string) btree"
  bp_minimum_client_version :: version

record baseline_build_report =
  bb_corpus :: string
  bb_package_id :: string
  bb_generation :: string
  bb_baseline_id :: string
  bb_artifact_dir :: string
  bb_total_rows :: u64
  bb_included_change_seq_high :: u64

record rebaseline_build_report =
  rb_corpus :: string
  rb_package_id :: string
  rb_generation :: string
  rb_baseline_id :: string
  rb_from_sequence :: u64
  rb_to_sequence :: u64
  rb_artifact_dir :: string
  rb_total_rows :: u64
  rb_included_change_seq_high :: u64

record media_spec =
  ms_package_kind :: package_kind
  ms_from_sequence :: package_sequence
  ms_to_sequence :: package_sequence
  ms_package_id :: string
  ms_generation :: string
  ms_baseline_id :: string
  ms_previous_package_id :: "string option"
  ms_previous_package_sha256 :: "string option"
  ms_included_change_seq_low :: int
  ms_schema_ops_label :: string
  ms_entitlement_label :: string

record media_build_report =
  mb_package_id :: string
  mb_generation :: string
  mb_total_rows :: u64
  mb_included_change_seq_high :: u64

definition media_apply_order :: "string list" where
  "media_apply_order = [''documents'', ''official_api_responses'', ''chunks'', ''chunk_embeddings'', ''graph_edges'',
     ''legi_metadata_roots'', ''zone_units'', ''zone_unit_embeddings'', ''decision_zones'',
     ''decision_legislation_citations'', ''legislation_citation_resolutions'']"

section \<open>The payload\<close>

text \<open>The rows of \<open>baseline_copy_out_select\<close>, ordered by the primary key, or by every column without one.\<close>

definition baseline_copy_out_rows :: "producer \<Rightarrow> string \<Rightarrow> string \<Rightarrow> row list" where
  "baseline_copy_out_rows pr t corpus =
     (let pk = sv_pk (pd_server pr) t; order_cols = (if pk = [] then sv_columns (pd_server pr) t else pk)
      in sort_key (pk_key order_cols) (digest_rows (pd_public pr) corpus t))"

record media_out =
  mo_fs :: files
  mo_files :: "payload_file list"
  mo_digests :: "(string, string) btree"
  mo_operations :: "operation_count list"
  mo_total_rows :: u64

definition row_count_of :: "(string, u64) btree \<Rightarrow> string \<Rightarrow> u64" where
  "row_count_of counts t = (case bt_get counts t of None \<Rightarrow> 0 | Some n \<Rightarrow> n)"

definition copy_table ::
  "media_env \<Rightarrow> producer \<Rightarrow> string \<Rightarrow> string \<Rightarrow> (string, u64) btree \<Rightarrow> string \<Rightarrow> (media_out, unit, build_error) action" where
  "copy_table env pr corpus artifact_dir counts t =
     (let columns = sv_columns (pd_server pr) t; file_name = baseline_file_name t; row_count = row_count_of counts t in
      bind_act (lift_res (map_err (\<lambda>_. BuildIo) (tee_digest (be_sha256 (me_build env)) (\<lambda>w b. Inr (w @ b)) []
        [Inr (me_copy_out env columns (baseline_copy_out_rows pr t corpus))]))) (\<lambda>(file_digest, bytes).
      modify (\<lambda>out. out\<lparr>
        mo_fs := bt_insert (payload_file_path artifact_dir file_name) bytes (mo_fs out),
        mo_total_rows := mo_total_rows out + row_count,
        mo_digests := bt_insert file_name file_digest (mo_digests out),
        mo_operations := mo_operations out @ [\<lparr>oc_table = t, oc_op = Upsert, oc_count = row_count\<rparr>],
        mo_files := mo_files out @ [\<lparr>pf_file_name = file_name, pf_table = t, pf_columns = columns, pf_op = Upsert,
          pf_format = CopyBinary, pf_compression = NoCompression, pf_row_count = row_count, pf_digest = file_digest\<rparr>]\<rparr>)))"

definition copy_all_tables ::
  "media_env \<Rightarrow> producer \<Rightarrow> string \<Rightarrow> string \<Rightarrow> (string, u64) btree \<Rightarrow> (producer \<times> files, media_out, build_error) action" where
  "copy_all_tables env pr corpus artifact_dir counts = (\<lambda>(pr0, fs).
     case for_each replicated_tables (copy_table env pr corpus artifact_dir counts)
            \<lparr>mo_fs = fs, mo_files = [], mo_digests = [], mo_operations = [], mo_total_rows = 0\<rparr> of
       (out, r) \<Rightarrow> ((pr0, mo_fs out), and_then r (\<lambda>_. Inr out)))"

section \<open>The manifest\<close>

definition producer_version_major :: "server \<Rightarrow> (u32, build_error) result" where
  "producer_version_major sv =
     ok_or (map_option (\<lambda>n. n div 10000) (parse_u32 (trim (sv_version_num sv)))) generations_error"

definition ivfflat_finalize_for :: "string \<Rightarrow> string \<Rightarrow> (string, u64) btree \<Rightarrow> ivfflat_finalize" where
  "ivfflat_finalize_for t index counts =
     (let l = recommended_ivfflat_lists (i64_saturating (row_count_of counts t))
      in \<lparr>iv_index = index, iv_lists = l, iv_probes = recommended_probes l\<rparr>)"

definition query_bm25_index_names :: "server \<Rightarrow> string list" where
  "query_bm25_index_names sv =
     sort (map fst (filter (\<lambda>(_, shape). is_access_method shape = ''bm25'') (concat (map (sv_indexes sv) replicated_tables))))"

definition media_manifest ::
  "media_env \<Rightarrow> producer \<Rightarrow> string \<Rightarrow> baseline_params \<Rightarrow> media_spec \<Rightarrow> media_out \<Rightarrow> u32 \<Rightarrow> embedded_manifest" where
  "media_manifest env pr corpus params spec out server_major =
     (let c = Corpus corpus; sha256 = be_sha256 (me_build env);
          payload_digest = aggregate_payload_digest sha256 (mo_digests out);
          post = postconditions_of (producer_digests pr corpus) in
      \<lparr>em_identity = \<lparr>id_package_format_version = 1, id_package_id = ms_package_id spec, id_corpus = c,
         id_package_kind = ms_package_kind spec, id_from_sequence = ms_from_sequence spec,
         id_to_sequence = ms_to_sequence spec, id_previous_package_id = ms_previous_package_id spec,
         id_previous_package_sha256 = ms_previous_package_sha256 spec, id_baseline_id = ms_baseline_id spec,
         id_generation = ms_generation spec, id_created_at = bp_created_at params,
         id_builder_run_id = bp_builder_run_id params\<rparr>,
       em_compatibility = \<lparr>co_minimum_client_version = bp_minimum_client_version params, co_maximum_client_version = None,
         co_schema_version = current_schema_version, co_schema_migration_bundle_digest = sv_bundle_digest (pd_server pr),
         co_requires_extensions = [\<lparr>er_name = ''vector'', er_minimum_version = None\<rparr>,
           \<lparr>er_name = ''pg_search'', er_minimum_version = None\<rparr>],
         co_embedding_fingerprint = bp_embedding_fingerprint params, co_embedding_model = bp_embedding_model params,
         co_embedding_dimension = bp_embedding_dimension params, co_embedding_normalize = bp_embedding_normalize params,
         co_builder_versions = bp_builder_versions params, co_postgres_major_min = Some server_major,
         co_postgres_major_max = Some server_major\<rparr>,
       em_entitlement = \<lparr>en_corpus = c, en_tier = ''all'', en_license_epoch = 0, en_audience = None,
         en_policy_digest = digest_bytes sha256 (ms_entitlement_label spec)\<rparr>,
       em_integrity = \<lparr>in_artifact_sha256 = payload_digest, in_uncompressed_payload_digest = payload_digest,
         in_per_file_digests = mo_digests out, in_canonicalisation_algorithm = ''jcs-sha256'',
         in_signature_algorithm = sg_algorithm (be_signer (me_build env)), in_transparency_log_index = None\<rparr>,
       em_apply = \<lparr>ap_expected_client_from_sequence = PackageSequence 0, ap_result_sequence = ms_to_sequence spec,
         ap_requires_empty_generation = True, ap_schema_ops_digest = digest_bytes sha256 (ms_schema_ops_label spec),
         ap_operations = mo_operations out, ap_replace_scopes = [],
         ap_preconditions = \<lparr>pre_schema_version = current_schema_version,
           pre_embedding_fingerprint = bp_embedding_fingerprint params, pre_builder_versions = bp_builder_versions params,
           pre_active_baseline_id = None, pre_active_generation = None\<rparr>,
         ap_postconditions = post,
         ap_index_build = \<lparr>ib_bm25_indexes = query_bm25_index_names (pd_server pr),
           ib_ivfflat_finalize = [ivfflat_finalize_for ''chunk_embeddings'' dense_vector_index_name (post_row_counts post),
             ivfflat_finalize_for ''zone_unit_embeddings'' zone_unit_vector_index_name (post_row_counts post)],
           ib_row_level_maintenance_only = False, ib_queryable_before_finalize = False\<rparr>,
         ap_idempotency_key = ms_package_id spec, ap_rollback_policy = KeepPreviousGenerationUntilValidated\<rparr>,
       em_payload = \<lparr>pl_files = mo_files out, pl_apply_order = media_apply_order\<rparr>\<rparr>)"

definition media_catalog_row ::
  "string \<Rightarrow> baseline_params \<Rightarrow> media_spec \<Rightarrow> embedded_manifest \<Rightarrow> string \<Rightarrow> u64 \<Rightarrow> package_catalog_row" where
  "media_catalog_row corpus params spec m manifest_digest hi = \<lparr>pr_corpus = corpus,
     pr_package_sequence = i64_saturating (ps_get (ms_to_sequence spec)), pr_package_id = ms_package_id spec,
     pr_package_kind = package_kind_as_str (ms_package_kind spec), pr_baseline_id = ms_baseline_id spec,
     pr_generation = ms_generation spec, pr_included_change_seq_low = ms_included_change_seq_low spec,
     pr_included_change_seq_high = i64_saturating hi, pr_previous_package_id = ms_previous_package_id spec,
     pr_previous_package_digest = ms_previous_package_sha256 spec,
     pr_package_digest = Some (in_artifact_sha256 (em_integrity m)), pr_manifest_digest = Some manifest_digest,
     pr_schema_version = current_schema_version, pr_embedding_fingerprint = bp_embedding_fingerprint params,
     pr_builder_versions = json_of_string_map (bp_builder_versions params), pr_status = ''built''\<rparr>"

section \<open>The build\<close>

definition seal_media ::
  "media_env \<Rightarrow> string \<Rightarrow> string \<Rightarrow> baseline_params \<Rightarrow> media_spec \<Rightarrow> u64 \<Rightarrow> embedded_manifest \<Rightarrow>
   (producer \<times> files, unit, build_error) action" where
  "seal_media env corpus artifact_dir params spec hi m =
     (let be = me_build env in
      bind_act (lift_res (map_err BuildCanonical (manifest_digest_of be m))) (\<lambda>manifest_digest.
      bind_act (lift_res (map_err BuildSign (seal (be_signer be) (be_manifest_codec be) m))) (\<lambda>doc.
      bind_act (modify (\<lambda>(pr, fs). (pr, bt_insert (manifest_path artifact_dir) (be_print_manifest be doc) fs))) (\<lambda>_.
      statement (\<lambda>(pr, fs). and_then (map_err BuildStorage
          (insert_package_catalog_row (media_catalog_row corpus params spec m manifest_digest hi) (pd_catalog pr))) (\<lambda>c.
        Inr ((pr\<lparr>pd_catalog := c\<rparr>, fs), ())))))))"

definition build_media_inner ::
  "media_env \<Rightarrow> string \<Rightarrow> string \<Rightarrow> baseline_params \<Rightarrow> media_spec \<Rightarrow> u64 \<Rightarrow>
   (producer \<times> files, media_build_report, build_error) action" where
  "build_media_inner env corpus artifact_dir params spec hi =
     bind_act (gets fst) (\<lambda>pr.
     bind_act (copy_all_tables env pr corpus artifact_dir
       (post_row_counts (postconditions_of (producer_digests pr corpus)))) (\<lambda>out.
     bind_act (lift_res (producer_version_major (pd_server pr))) (\<lambda>server_major.
     bind_act (seal_media env corpus artifact_dir params spec hi (media_manifest env pr corpus params spec out server_major)) (\<lambda>_.
     ret \<lparr>mb_package_id = ms_package_id spec, mb_generation = ms_generation spec, mb_total_rows = mo_total_rows out,
          mb_included_change_seq_high = hi\<rparr>))))"

text \<open>
  The exclusive fence is held for the read of the high-water mark only.  \<open>None\<close>: the build waits for the writers
  in flight.
\<close>

definition build_media_package ::
  "media_env \<Rightarrow> string \<Rightarrow> string \<Rightarrow> baseline_params \<Rightarrow> media_spec \<Rightarrow> producer \<times> files \<Rightarrow>
   ((producer \<times> files) \<times> (media_build_report, build_error) result) option" where
  "build_media_package env corpus artifact_dir params spec = (\<lambda>(pr, fs).
     case corpus_new corpus of
       Inl e \<Rightarrow> Some ((pr, fs), Inl (BuildAttribution e))
     | Inr _ \<Rightarrow>
         (case acquire_outbox_fence (pd_ledger pr) of
            None \<Rightarrow> None
          | Some l \<Rightarrow>
              let pr1 = pr\<lparr>pd_ledger := release_outbox_fence l\<rparr> in
              (case current_change_seq_with_client l of
                 Inl e \<Rightarrow> Some ((pr1, fs), Inl (BuildStorage e))
               | Inr hi \<Rightarrow> Some (build_media_inner env corpus artifact_dir params spec (cs_get hi) (pr1, fs)))))"

definition baseline_spec :: "string \<Rightarrow> baseline_params \<Rightarrow> media_spec" where
  "baseline_spec corpus params =
     (let sequence = PackageSequence 1 in
      \<lparr>ms_package_kind = Baseline, ms_from_sequence = sequence, ms_to_sequence = sequence,
       ms_package_id = package_id_of corpus sequence sequence, ms_generation = generation_name corpus 1,
       ms_baseline_id = bp_baseline_id params, ms_previous_package_id = None, ms_previous_package_sha256 = None,
       ms_included_change_seq_low = 0, ms_schema_ops_label = ''baseline-no-schema-ops'',
       ms_entitlement_label = ''p3-open-entitlement''\<rparr>)"

definition build_baseline ::
  "media_env \<Rightarrow> string \<Rightarrow> string \<Rightarrow> baseline_params \<Rightarrow> producer \<times> files \<Rightarrow>
   ((producer \<times> files) \<times> (baseline_build_report, build_error) result) option" where
  "build_baseline env corpus artifact_dir params s =
     map_option (\<lambda>(s', r). (s', and_then r (\<lambda>report.
       Inr \<lparr>bb_corpus = corpus, bb_package_id = mb_package_id report, bb_generation = mb_generation report,
         bb_baseline_id = bp_baseline_id params, bb_artifact_dir = artifact_dir, bb_total_rows = mb_total_rows report,
         bb_included_change_seq_high = mb_included_change_seq_high report\<rparr>)))
       (build_media_package env corpus artifact_dir params (baseline_spec corpus params) s)"

definition rebaseline_spec ::
  "catalog \<Rightarrow> string \<Rightarrow> baseline_params \<Rightarrow> (media_spec, build_error) result" where
  "rebaseline_spec catalog corpus params =
     and_then (ok_or (latest_package_for_corpus catalog corpus) generations_error) (\<lambda>prev.
     and_then (ok_or (generation_counter_of corpus (lp_generation prev)) generations_error) (\<lambda>prev_counter.
     let from = PackageSequence (u64_or_zero (lp_package_sequence prev)); to = ps_next from in
     Inr \<lparr>ms_package_kind = Rebaseline, ms_from_sequence = from, ms_to_sequence = to,
       ms_package_id = package_id_of corpus from to, ms_generation = generation_name corpus (prev_counter + 1),
       ms_baseline_id = bp_baseline_id params, ms_previous_package_id = Some (lp_package_id prev),
       ms_previous_package_sha256 = lp_package_digest prev,
       ms_included_change_seq_low = lp_included_change_seq_high prev,
       ms_schema_ops_label = ''rebaseline-no-schema-ops'', ms_entitlement_label = ''p5-open-entitlement''\<rparr>))"

text \<open>The corpus build lock makes the whole of it one section.\<close>

definition build_rebaseline ::
  "media_env \<Rightarrow> string \<Rightarrow> string \<Rightarrow> baseline_params \<Rightarrow> producer \<times> files \<Rightarrow>
   ((producer \<times> files) \<times> (rebaseline_build_report, build_error) result) option" where
  "build_rebaseline env corpus artifact_dir params s =
     (case rebaseline_spec (pd_catalog (fst s)) corpus params of
        Inl e \<Rightarrow> Some (s, Inl e)
      | Inr spec \<Rightarrow> map_option (\<lambda>(s', r). (s', and_then r (\<lambda>report.
          Inr \<lparr>rb_corpus = corpus, rb_package_id = mb_package_id report, rb_generation = mb_generation report,
            rb_baseline_id = bp_baseline_id params, rb_from_sequence = ps_get (ms_from_sequence spec),
            rb_to_sequence = ps_get (ms_to_sequence spec), rb_artifact_dir = artifact_dir,
            rb_total_rows = mb_total_rows report, rb_included_change_seq_high = mb_included_change_seq_high report\<rparr>)))
          (build_media_package env corpus artifact_dir params spec s))"

end
