(* ===== verification/Media_Replication.thy ===== *)
theory Media_Replication
  imports Media_Builder Producer_Cycle
begin

text \<open>
  What the producer's snapshot becomes on a client: the artifact of a media build passes the gates of the applier,
  and the tables of the generation it is loaded into are the producer's rows.
\<close>

section \<open>The rows a media apply loads\<close>

definition file_rows :: "('k, 's) apply_env \<Rightarrow> string \<Rightarrow> payload_file \<Rightarrow> row list" where
  "file_rows env dir f =
     (case ae_read_file env (payload_file_path dir (pf_file_name f)) of None \<Rightarrow> []
      | Some bytes \<Rightarrow> (case ae_copy_rows env (pf_columns f) bytes of None \<Rightarrow> [] | Some rows \<Rightarrow> map (project (pf_columns f)) rows))"

definition table_rows :: "('k, 's) apply_env \<Rightarrow> string \<Rightarrow> embedded_manifest \<Rightarrow> string \<Rightarrow> row list" where
  "table_rows env dir m t =
     (case List.find (\<lambda>f. pf_table f = t) (pl_files (em_payload m)) of None \<Rightarrow> [] | Some f \<Rightarrow> file_rows env dir f)"

lemma insert_all_rows:
  "insert_all sv t columns rows sch = Inr sch' \<Longrightarrow>
     sch_rows sch' t = sch_rows sch t @ map (project columns) rows \<and> (\<forall>u. u \<noteq> t \<longrightarrow> sch_rows sch' u = sch_rows sch u)"
proof (induction rows arbitrary: sch)
  case (Cons r rows)
  then obtain sch1 where one: "sql_insert sv t columns r sch = Inr sch1" and rest: "insert_all sv t columns rows sch1 = Inr sch'"
    by (auto simp: insert_all_def and_then_eq_Inr)
  from one have "sch1 = set_rows t (sch_rows sch t @ [project columns r]) sch"
    by (auto simp: sql_insert_def Let_def split: if_splits)
  with Cons.IH [OF rest] show ?case by simp
qed (simp add: insert_all_def)

lemma copy_file_rows:
  assumes "copy_file env dir schema f s = (s', Inr u)"
  shows "schema_rows s' schema t = schema_rows s schema t @ (if t = pf_table f then file_rows env dir f else [])"
proof -
  from assms obtain bytes where bytes: "ae_read_file env (payload_file_path dir (pf_file_name f)) = Some bytes"
    and act: "on_schema schema (\<lambda>sv sch. case ae_copy_rows env (pf_columns f) bytes of
        None \<Rightarrow> Inl PostgresClient
      | Some rows \<Rightarrow> and_then (insert_all sv (pf_table f) (pf_columns f) rows sch) (\<lambda>sch'. Inr (sch', ()))) s = (s', Inr ())"
    unfolding copy_file_def by (auto simp: action_simps read_file_def ok_or_eq_Inr)
  from act obtain rows sch sch' where rows: "ae_copy_rows env (pf_columns f) bytes = Some rows"
    and sch: "db_schemas s schema = Some sch" and ins: "insert_all (db_server s) (pf_table f) (pf_columns f) rows sch = Inr sch'"
    and s': "s' = s\<lparr>db_schemas := (db_schemas s)(schema \<mapsto> sch')\<rparr>"
    unfolding on_schema_def statement_eq_Inr by (auto simp: and_then_eq_Inr split: option.splits)
  show ?thesis using insert_all_rows [OF ins] by (simp add: s' sch schema_rows_def file_rows_def bytes rows)
qed

lemma copy_tables_rows:
  assumes "for_each ts (\<lambda>t. case List.find (\<lambda>f. pf_table f = t) files of None \<Rightarrow> ret ()
      | Some f \<Rightarrow> copy_file env dir schema f) s = (s', Inr u)" and "distinct ts"
  shows "schema_rows s' schema t = schema_rows s schema t
    @ (if t \<in> set ts then (case List.find (\<lambda>f. pf_table f = t) files of None \<Rightarrow> [] | Some f \<Rightarrow> file_rows env dir f) else [])"
  using assms
proof (induction ts arbitrary: s)
  case (Cons x xs)
  then obtain s1 where one: "(case List.find (\<lambda>f. pf_table f = x) files of None \<Rightarrow> ret ()
      | Some f \<Rightarrow> copy_file env dir schema f) s = (s1, Inr ())"
    and rest: "for_each xs (\<lambda>t. case List.find (\<lambda>f. pf_table f = t) files of None \<Rightarrow> ret ()
      | Some f \<Rightarrow> copy_file env dir schema f) s1 = (s', Inr u)"
    by (auto simp: action_simps)
  have "schema_rows s1 schema t = schema_rows s schema t
      @ (if t = x then (case List.find (\<lambda>f. pf_table f = x) files of None \<Rightarrow> [] | Some f \<Rightarrow> file_rows env dir f) else [])"
  proof (cases "List.find (\<lambda>f. pf_table f = x) files")
    case (Some f)
    then have "pf_table f = x" by (auto dest: find_SomeD)
    with copy_file_rows [of env dir schema f s s1 "()" t] one Some show ?thesis by simp
  qed (use one in \<open>auto simp: action_simps\<close>)
  with Cons.IH [OF rest] Cons.prems(2) show ?case by auto
qed (simp add: ret_eq)

lemma copy_payload_rows:
  assumes "copy_payload_in env dir m schema s = (s', Inr u)" "distinct (pl_apply_order (em_payload m))"
  shows "schema_rows s' schema t = schema_rows s schema t
    @ (if t \<in> set (pl_apply_order (em_payload m)) then table_rows env dir m t else [])"
proof -
  from assms(1) have "for_each (pl_apply_order (em_payload m)) (\<lambda>t. case List.find (\<lambda>f. pf_table f = t) (pl_files (em_payload m)) of
      None \<Rightarrow> ret () | Some f \<Rightarrow> copy_file env dir schema f) s = (s', Inr u)"
    by (auto simp: copy_payload_in_def action_simps)
  from copy_tables_rows [OF this assms(2), of t] show ?thesis by (simp add: table_rows_def)
qed

text \<open>Building keys, indexes and foreign keys changes no row.\<close>

definition same_rows :: "db \<Rightarrow> db \<Rightarrow> bool" where
  "same_rows s s' \<longleftrightarrow> (\<forall>schema t. schema_rows s' schema t = schema_rows s schema t)"

lemma reflp_same_rows [keeps_intros]: "reflp same_rows"
  by (simp add: reflp_def same_rows_def)

lemma transp_same_rows [keeps_intros]: "transp same_rows"
  by (simp add: transp_def same_rows_def)

lemma same_rows_on_schema:
  assumes "\<And>sv sch sch' a. f sv sch = Inr (sch', a) \<Longrightarrow> sch_rows sch' = sch_rows sch"
  shows "keeps same_rows (on_schema schema f)"
  unfolding on_schema_def
  by (rule keeps_statement [OF reflp_same_rows])
    (auto simp: same_rows_def schema_rows_def and_then_eq_Inr dest: assms split: option.splits if_splits)

lemma keeps_same_rows_indexes: "keeps same_rows (build_generation_indexes generation corpus)"
  unfolding build_generation_indexes_def add_constraints_def replay_indexes_def add_foreign_keys_def build_ivfflat_def Let_def
    case_prod_unfold
  by (intro keeps_intros same_rows_on_schema) (auto split: if_splits)

lemma create_load_tables_rows:
  assumes "create_generation_load_tables corpus counter b s = (s', Inr g)"
  shows "schema_rows s' (generation_schema corpus counter) t = []"
  using assms
  by (auto simp: create_generation_load_tables_def create_schema_def action_simps schema_rows_def empty_schema_def
      split: if_splits)

lemma prepare_media_rows:
  assumes "prepare_media env dir m counter s = (s', Inr report)" "distinct (pl_apply_order (em_payload m))"
  shows "schema_rows s' (generation_schema (corpus_as_str (id_corpus (em_identity m))) counter) t
    = (if t \<in> set (pl_apply_order (em_payload m)) then table_rows env dir m t else [])"
proof -
  let ?c = "corpus_as_str (id_corpus (em_identity m))"
  let ?schema = "generation_schema ?c counter"
  from assms(1) obtain s1 s2 s3 g where
      create: "create_generation_load_tables ?c counter (Some (id_baseline_id (em_identity m))) s1 = (s2, Inr g)"
    and copy: "copy_payload_in env dir m ?schema s2 = (s3, Inr ())"
    and index: "build_generation_indexes (id_generation (em_identity m)) ?c s3 = (s', Inr report)"
    unfolding prepare_media_def Let_def by (auto simp: action_simps)
  have "same_rows s3 s'" using keeps_same_rows_indexes index by (metis keepsD)
  then show ?thesis
    using create_load_tables_rows [OF create] copy_payload_rows [OF copy assms(2)] by (simp add: same_rows_def)
qed

lemma load_and_activate_rows:
  assumes run: "load_and_activate env dir m mode s = (s', Inr out)" and order: "distinct (pl_apply_order (em_payload m))"
    and label: "id_generation (em_identity m) = generation_name (corpus_as_str (id_corpus (em_identity m))) n"
  shows "schema_rows s' (schema_for_generation (id_generation (em_identity m))) t
    = (if t \<in> set (pl_apply_order (em_payload m)) then table_rows env dir m t else [])"
proof -
  let ?c = "corpus_as_str (id_corpus (em_identity m))"
  from run obtain s1 report where
      p: "prepare_media env dir m n s = (s1, Inr report)"
    and a: "activate_generation_inner ?c (id_generation (em_identity m)) (media_stamps m)
        (media_guard mode (ps_get (ap_result_sequence (em_apply m))))
        (dense_manifest_entries (generation_schema ?c n) m) (ae_visibility env) s1 = (s', Inr ())"
    unfolding load_and_activate_prepare Let_def label generation_counter_of_name
    by (auto simp: action_simps ok_or_eq_Inr)
  have "db_schemas s' = db_schemas s1" by (rule activate_Inr(6) [OF a])
  moreover have "schema_for_generation (id_generation (em_identity m)) = generation_schema ?c n"
    by (simp add: label generation_schema_def schema_for_generation_def)
  ultimately show ?thesis using prepare_media_rows [OF p order, of t] by (simp add: schema_rows_def)
qed

lemma apply_media_rows:
  assumes run: "apply_media_package env dir v mode s = (s', Inr (MediaApplied corpus generation q report))"
    and m: "read_signed_manifest env dir v = Inr m" and order: "distinct (pl_apply_order (em_payload m))"
    and label: "id_generation (em_identity m) = generation_name (corpus_as_str (id_corpus (em_identity m))) n"
  shows "generation = id_generation (em_identity m) \<and> schema_rows s' (schema_for_generation generation) t
    = (if t \<in> set (pl_apply_order (em_payload m)) then table_rows env dir m t else [])"
proof -
  from run m obtain s1 where s1: "(let (t, outcome) = apply_media_locked env dir m mode s1
      in (fst (release_corpus_apply_lock (corpus_as_str (id_corpus (em_identity m))) t), outcome))
      = (s', Inr (MediaApplied corpus generation q report))"
    unfolding apply_media_package_def Let_def by (auto simp: action_simps)
  obtain s2 r where "apply_media_locked env dir m mode s1 = (s2, r)" by (cases "apply_media_locked env dir m mode s1")
  with s1 have locked: "apply_media_locked env dir m mode s1 = (s2, Inr (MediaApplied corpus generation q report))"
    and s': "s' = fst (release_corpus_apply_lock (corpus_as_str (id_corpus (em_identity m))) s2)"
    by simp_all
  have load: "load_and_activate env dir m mode s1 = (s2, Inr (MediaApplied corpus generation q report))"
    using locked
    by (auto simp: apply_media_locked_def Let_def action_simps idempotency_decision_def split: option.splits if_splits)
  then have "generation = id_generation (em_identity m)"
    by (auto simp: load_and_activate_prepare Let_def action_simps)
  moreover have "schema_rows s' sc u = schema_rows s2 sc u" for sc u
    by (simp add: s' release_corpus_apply_lock_def modify_def schema_rows_def)
  ultimately show ?thesis using load_and_activate_rows [OF load order label] by simp
qed

section \<open>What a media build leaves behind\<close>

definition table_bytes :: "media_env \<Rightarrow> producer \<Rightarrow> string \<Rightarrow> string \<Rightarrow> string" where
  "table_bytes env pr corpus t = me_copy_out env (sv_columns (pd_server pr) t) (baseline_copy_out_rows pr t corpus)"

definition table_digest_of :: "media_env \<Rightarrow> producer \<Rightarrow> string \<Rightarrow> string \<Rightarrow> string" where
  "table_digest_of env pr corpus t = format_sha256 (be_sha256 (me_build env) (table_bytes env pr corpus t))"

definition table_file :: "media_env \<Rightarrow> producer \<Rightarrow> string \<Rightarrow> (string, u64) btree \<Rightarrow> string \<Rightarrow> payload_file" where
  "table_file env pr corpus counts t = \<lparr>pf_file_name = baseline_file_name t, pf_table = t,
     pf_columns = sv_columns (pd_server pr) t, pf_op = Upsert, pf_format = CopyBinary, pf_compression = NoCompression,
     pf_row_count = row_count_of counts t, pf_digest = table_digest_of env pr corpus t\<rparr>"

definition add_digests :: "media_env \<Rightarrow> producer \<Rightarrow> string \<Rightarrow> string list \<Rightarrow> (string, string) btree \<Rightarrow> (string, string) btree" where
  "add_digests env pr corpus = fold (\<lambda>t. bt_insert (baseline_file_name t) (table_digest_of env pr corpus t))"

definition add_payload :: "media_env \<Rightarrow> producer \<Rightarrow> string \<Rightarrow> string \<Rightarrow> string list \<Rightarrow> files \<Rightarrow> files" where
  "add_payload env pr corpus dir = fold (\<lambda>t. bt_insert (payload_file_path dir (baseline_file_name t)) (table_bytes env pr corpus t))"

lemma table_tee:
  "tee_digest (be_sha256 (me_build env)) (\<lambda>w b. Inr (w @ b)) []
     [Inr (me_copy_out env (sv_columns (pd_server pr) t) (baseline_copy_out_rows pr t corpus))]
   = Inr (table_digest_of env pr corpus t, table_bytes env pr corpus t)"
  by (simp add: tee_digest_def table_digest_of_def table_bytes_def)

lemma copy_tables_out:
  "\<exists>out'. for_each ts (copy_table env pr corpus dir counts) out = (out', Inr ())
    \<and> mo_fs out' = add_payload env pr corpus dir ts (mo_fs out)
    \<and> mo_files out' = mo_files out @ map (table_file env pr corpus counts) ts
    \<and> mo_digests out' = add_digests env pr corpus ts (mo_digests out)"
proof (induction ts arbitrary: out)
  case Nil
  show ?case by (simp add: ret_def add_payload_def add_digests_def)
next
  case (Cons t ts)
  obtain out1 where one: "copy_table env pr corpus dir counts t out = (out1, Inr ())"
    and out1: "mo_fs out1 = add_payload env pr corpus dir [t] (mo_fs out)"
      "mo_files out1 = mo_files out @ [table_file env pr corpus counts t]"
      "mo_digests out1 = add_digests env pr corpus [t] (mo_digests out)"
    by (simp add: copy_table_def Let_def bind_act_def lift_res_def modify_def table_tee add_payload_def add_digests_def
        table_file_def)
  from Cons.IH [of out1] obtain out2 where
    "for_each ts (copy_table env pr corpus dir counts) out1 = (out2, Inr ())"
    "mo_fs out2 = add_payload env pr corpus dir ts (mo_fs out1)"
    "mo_files out2 = mo_files out1 @ map (table_file env pr corpus counts) ts"
    "mo_digests out2 = add_digests env pr corpus ts (mo_digests out1)" by blast
  with one out1 show ?case by (simp add: bind_act_def add_payload_def add_digests_def)
qed

lemma copy_all_tables_out:
  "\<exists>out. copy_all_tables env pr corpus dir counts (pr0, fs) = ((pr0, mo_fs out), Inr out)
    \<and> mo_fs out = add_payload env pr corpus dir replicated_tables fs
    \<and> mo_files out = map (table_file env pr corpus counts) replicated_tables
    \<and> mo_digests out = add_digests env pr corpus replicated_tables []"
  using copy_tables_out [of replicated_tables env pr corpus dir counts
      "\<lparr>mo_fs = fs, mo_files = [], mo_digests = [], mo_operations = [], mo_total_rows = 0\<rparr>"]
  unfolding copy_all_tables_def by auto

lemma snapshot_ignores_ledger [simp]:
  "producer_digests (pr\<lparr>pd_ledger := l\<rparr>) = producer_digests pr"
  "baseline_copy_out_rows (pr\<lparr>pd_ledger := l\<rparr>) = baseline_copy_out_rows pr"
  "media_manifest env (pr\<lparr>pd_ledger := l\<rparr>) = media_manifest env pr"
  "table_bytes env (pr\<lparr>pd_ledger := l\<rparr>) = table_bytes env pr"
  "table_file env (pr\<lparr>pd_ledger := l\<rparr>) = table_file env pr"
  "add_digests env (pr\<lparr>pd_ledger := l\<rparr>) = add_digests env pr"
  "add_payload env (pr\<lparr>pd_ledger := l\<rparr>) = add_payload env pr"
  by (simp_all add: fun_eq_iff producer_digests_def baseline_copy_out_rows_def media_manifest_def table_bytes_def
      table_digest_of_def table_file_def add_digests_def add_payload_def Let_def cong: if_cong)

text \<open>Everything a successful build has established.\<close>

lemma build_media_package_InrD:
  assumes "build_media_package env corpus dir params spec (pr, fs) = Some ((pr', fs'), Inr report)"
  shows "\<exists>l hi out major m doc digest c. corpus_valid corpus
    \<and> acquire_outbox_fence (pd_ledger pr) = Some l
    \<and> mo_fs out = add_payload env pr corpus dir replicated_tables fs
    \<and> mo_files out = map (table_file env pr corpus (post_row_counts (postconditions_of (producer_digests pr corpus)))) replicated_tables
    \<and> mo_digests out = add_digests env pr corpus replicated_tables []
    \<and> producer_version_major (pd_server pr) = Inr major
    \<and> m = media_manifest env pr corpus params spec out major
    \<and> manifest_digest_of (me_build env) m = Inr digest
    \<and> seal (be_signer (me_build env)) (be_manifest_codec (me_build env)) m = Inr doc
    \<and> insert_package_catalog_row (media_catalog_row corpus params spec m digest hi) (pd_catalog pr) = Inr c
    \<and> pr' = pr\<lparr>pd_ledger := release_outbox_fence l, pd_catalog := c\<rparr>
    \<and> fs' = bt_insert (manifest_path dir) (be_print_manifest (me_build env) doc) (mo_fs out)
    \<and> report = \<lparr>mb_package_id = ms_package_id spec, mb_generation = ms_generation spec, mb_total_rows = mo_total_rows out,
          mb_included_change_seq_high = hi\<rparr>"
proof -
  let ?counts = "post_row_counts (postconditions_of (producer_digests pr corpus))"
  from assms obtain l hi where l: "acquire_outbox_fence (pd_ledger pr) = Some l" and valid: "is_ok (corpus_new corpus)"
    and inner: "build_media_inner env corpus dir params spec hi (pr\<lparr>pd_ledger := release_outbox_fence l\<rparr>, fs) = ((pr', fs'), Inr report)"
    by (auto simp: build_media_package_def Let_def is_ok_def split: sum.splits option.splits)
  let ?pr = "pr\<lparr>pd_ledger := release_outbox_fence l\<rparr>"
  obtain out where copy: "copy_all_tables env ?pr corpus dir ?counts (?pr, fs) = ((?pr, mo_fs out), Inr out)"
    and out: "mo_fs out = add_payload env pr corpus dir replicated_tables fs"
      "mo_files out = map (table_file env pr corpus ?counts) replicated_tables"
      "mo_digests out = add_digests env pr corpus replicated_tables []"
    using copy_all_tables_out [of env ?pr corpus dir ?counts ?pr fs] by auto
  from inner copy obtain major where major: "producer_version_major (pd_server pr) = Inr major"
    and seal: "seal_media env corpus dir params spec hi (media_manifest env pr corpus params spec out major) (?pr, mo_fs out)
        = ((pr', fs'), Inr ())"
    and report: "report = \<lparr>mb_package_id = ms_package_id spec, mb_generation = ms_generation spec, mb_total_rows = mo_total_rows out,
          mb_included_change_seq_high = hi\<rparr>"
    by (auto simp: build_media_inner_def action_simps)
  from seal obtain digest doc c where sealed:
      "manifest_digest_of (me_build env) (media_manifest env pr corpus params spec out major) = Inr digest"
      "seal (be_signer (me_build env)) (be_manifest_codec (me_build env)) (media_manifest env pr corpus params spec out major) = Inr doc"
      "insert_package_catalog_row (media_catalog_row corpus params spec (media_manifest env pr corpus params spec out major) digest hi)
        (pd_catalog pr) = Inr c"
      "pr' = ?pr\<lparr>pd_catalog := c\<rparr>"
      "fs' = bt_insert (manifest_path dir) (be_print_manifest (me_build env) doc) (mo_fs out)"
    unfolding seal_media_def Let_def by (auto simp: action_simps result_simps)
  have "corpus_valid corpus" using valid by (auto simp: is_ok_iff corpus_new_Inr)
  with sealed l major report out show ?thesis
    by (intro exI [of _ l] exI [of _ hi] exI [of _ out] exI [of _ major]
        exI [of _ "media_manifest env pr corpus params spec out major"] exI [of _ doc] exI [of _ digest] exI [of _ c]) simp
qed

section \<open>The artifact passes the gates\<close>

lemma payload_path:
  assumes "name \<noteq> []" "hd name \<noteq> CHR ''/''"
  shows "payload_file_path dir name = path_join dir ''payload'' @ ''/'' @ name"
proof -
  have "path_join dir ''payload'' \<noteq> []" "last (path_join dir ''payload'') \<noteq> CHR ''/''"
    by (simp_all add: path_join_relative)
  with assms show ?thesis by (simp add: payload_file_path_def payload_dir_def path_join_plain)
qed

lemma baseline_file_relative: "t \<in> set replicated_tables \<Longrightarrow> baseline_file_name t \<noteq> [] \<and> hd (baseline_file_name t) \<noteq> CHR ''/''"
  by (auto simp: baseline_file_name_def replicated_tables_def)

lemma baseline_file_inject [simp]: "baseline_file_name t = baseline_file_name u \<longleftrightarrow> t = u"
  by (simp add: baseline_file_name_def)

lemma table_path_inject:
  "t \<in> set replicated_tables \<Longrightarrow> u \<in> set replicated_tables \<Longrightarrow>
     payload_file_path dir (baseline_file_name t) = payload_file_path dir (baseline_file_name u) \<longleftrightarrow> t = u"
  using baseline_file_relative [of t] baseline_file_relative [of u] by (simp add: payload_path)

lemma table_path_not_manifest:
  "t \<in> set replicated_tables \<Longrightarrow> payload_file_path dir (baseline_file_name t) \<noteq> manifest_path dir"
  using baseline_file_relative [of t] by (simp add: payload_path manifest_path_def path_join_relative)

lemma add_payload_ok: "bt_ok fs \<Longrightarrow> bt_ok (add_payload env pr corpus dir ts fs)"
  unfolding add_payload_def by (induction ts arbitrary: fs) (simp_all add: bt_ok_insert)

lemma add_payload_get:
  assumes "bt_ok fs" "distinct ts" "set ts \<subseteq> set replicated_tables" "t \<in> set replicated_tables"
  shows "bt_get (add_payload env pr corpus dir ts fs) (payload_file_path dir (baseline_file_name t))
    = (if t \<in> set ts then Some (table_bytes env pr corpus t) else bt_get fs (payload_file_path dir (baseline_file_name t)))"
  using assms
proof (induction ts arbitrary: fs)
  case (Cons x ts)
  let ?fs = "bt_insert (payload_file_path dir (baseline_file_name x)) (table_bytes env pr corpus x) fs"
  have "bt_get (add_payload env pr corpus dir ts ?fs) (payload_file_path dir (baseline_file_name t))
    = (if t \<in> set ts then Some (table_bytes env pr corpus t) else bt_get ?fs (payload_file_path dir (baseline_file_name t)))"
    using Cons.prems by (intro Cons.IH) (simp_all add: bt_ok_insert)
  then show ?case using Cons.prems by (auto simp: add_payload_def bt_get_insert table_path_inject)
qed (simp add: add_payload_def)

lemma verify_tables:
  assumes "\<forall>t\<in>set ts. ae_read_file cenv (payload_file_path dir (baseline_file_name t)) = Some (table_bytes env pr corpus t)"
    and "ae_sha256 cenv = be_sha256 (me_build env)" and "distinct ts" and "bt_ok acc"
    and "\<forall>t\<in>set ts. bt_get acc (baseline_file_name t) = None"
  shows "fold_result (verify_file cenv dir) (map (table_file env pr corpus counts) ts) acc = Inr (add_digests env pr corpus ts acc)"
  using assms
proof (induction ts arbitrary: acc)
  case (Cons t ts)
  let ?acc = "bt_insert (baseline_file_name t) (table_digest_of env pr corpus t) acc"
  have "verify_file cenv dir (table_file env pr corpus counts t) acc = Inr ?acc"
    using Cons.prems by (simp add: verify_file_def table_file_def read_file_def table_digest_of_def tee_digest_def)
  moreover have "fold_result (verify_file cenv dir) (map (table_file env pr corpus counts) ts) ?acc
      = Inr (add_digests env pr corpus ts ?acc)"
    using Cons.prems by (intro Cons.IH) (auto simp: bt_ok_insert bt_get_insert)
  ultimately show ?case by (simp add: add_digests_def)
qed (simp add: add_digests_def)

text \<open>A client of the producer's release, reading the artifact as it was written.\<close>

definition same_release :: "server \<Rightarrow> server \<Rightarrow> bool" where
  "same_release producer client \<longleftrightarrow> sv_schema_version client = current_schema_version
     \<and> sv_bundle_digest client = sv_bundle_digest producer
     \<and> ''vector'' \<in> set (sv_extensions client) \<and> ''pg_search'' \<in> set (sv_extensions client)
     \<and> map_option (\<lambda>n. n div 10000) (parse_u32 (trim (sv_version_num client)))
        = map_option (\<lambda>n. n div 10000) (parse_u32 (trim (sv_version_num producer)))"

definition reads_artifact :: "media_env \<Rightarrow> files \<Rightarrow> ('k, 's) apply_env \<Rightarrow> bool" where
  "reads_artifact env fs cenv \<longleftrightarrow> (\<forall>path. ae_read_file cenv path = bt_get fs path)
     \<and> ae_sha256 cenv = be_sha256 (me_build env) \<and> ae_manifest_codec cenv = be_manifest_codec (me_build env)
     \<and> (\<forall>m doc. seal (be_signer (me_build env)) (be_manifest_codec (me_build env)) m = Inr doc \<longrightarrow>
          ae_parse_manifest cenv (be_print_manifest (me_build env) doc) = Some doc)"

definition trusts :: "verifier \<Rightarrow> media_env \<Rightarrow> bool" where
  "trusts v env \<longleftrightarrow> (\<forall>m doc. seal (be_signer (me_build env)) (be_manifest_codec (me_build env)) m = Inr doc \<longrightarrow>
     signed_verify v (be_manifest_codec (me_build env)) doc = Inr ())"

lemma built_media_gates:
  assumes build: "build_media_package env corpus dir params spec (pr, fs) = Some ((pr', fs'), Inr report)"
    and fs: "bt_ok fs" and reads: "reads_artifact env fs' cenv" and trust: "trusts v env"
    and release: "same_release (pd_server pr) (db_server s)"
    and minimum: "satisfies_minimum client_version (bp_minimum_client_version params)"
    and mode: "ms_package_kind spec = expected_kind mode"
  shows "\<exists>out major. read_signed_manifest cenv dir v = Inr (media_manifest env pr corpus params spec out major)
    \<and> media_gates cenv dir mode (media_manifest env pr corpus params spec out major) s = Inr ()
    \<and> mo_files out = map (table_file env pr corpus (post_row_counts (postconditions_of (producer_digests pr corpus)))) replicated_tables
    \<and> (\<forall>t\<in>set replicated_tables. ae_read_file cenv (payload_file_path dir (baseline_file_name t)) = Some (table_bytes env pr corpus t))"
proof -
  let ?counts = "post_row_counts (postconditions_of (producer_digests pr corpus))"
  from build_media_package_InrD [OF build] obtain l hi out major m doc digest c where
      out: "mo_fs out = add_payload env pr corpus dir replicated_tables fs"
        "mo_files out = map (table_file env pr corpus ?counts) replicated_tables"
        "mo_digests out = add_digests env pr corpus replicated_tables []"
    and major: "producer_version_major (pd_server pr) = Inr major"
    and m: "m = media_manifest env pr corpus params spec out major"
    and doc: "seal (be_signer (me_build env)) (be_manifest_codec (me_build env)) m = Inr doc"
    and fs': "fs' = bt_insert (manifest_path dir) (be_print_manifest (me_build env) doc) (mo_fs out)"
    by blast
  have payload: "sd_payload doc = m" using doc by (auto simp: seal_def result_simps)
  have ok: "bt_ok (mo_fs out)" using fs by (simp add: out add_payload_ok)
  have dist: "distinct replicated_tables" by (simp add: replicated_tables_def)
  have bytes: "\<forall>t\<in>set replicated_tables. ae_read_file cenv (payload_file_path dir (baseline_file_name t)) = Some (table_bytes env pr corpus t)"
    using reads table_path_not_manifest add_payload_get [OF fs dist subset_refl, of _ env pr corpus dir] ok
    by (auto simp: reads_artifact_def fs' bt_get_insert out)
  have read: "read_signed_manifest cenv dir v = Inr m"
    using reads trust doc ok
    by (auto simp: read_signed_manifest_def read_file_def reads_artifact_def fs' bt_get_insert trusts_def payload)
  have files: "verify_per_file_digests cenv dir m = Inr ()"
    using verify_tables [OF bytes _ dist, of "[]" ?counts] reads
    by (simp add: verify_per_file_digests_def m media_manifest_def Let_def out reads_artifact_def bt_get_def)
  have version: "server_version_major s = Inr major"
    using major release by (auto simp: server_version_major_def producer_version_major_def same_release_def ok_or_eq_Inr)
  have "media_gates cenv dir mode m s = Inr ()"
    unfolding media_gates_def using files version release minimum mode
    by (simp add: m media_manifest_def Let_def check_client_version_def check_schema_compatibility_def same_release_def
        check_extensions_def check_copy_binary_guard_def check_entitlement_def tier_is_open_def open_tiers_def)
  with read out bytes show ?thesis unfolding m by blast
qed

definition row_copy_holds :: "media_env \<Rightarrow> producer \<Rightarrow> string \<Rightarrow> ('k, 's) apply_env \<Rightarrow> bool" where
  "row_copy_holds env pr corpus cenv \<longleftrightarrow> (\<forall>t\<in>set replicated_tables.
     ae_copy_rows cenv (sv_columns (pd_server pr) t) (table_bytes env pr corpus t)
       = Some (map (project (sv_columns (pd_server pr) t)) (baseline_copy_out_rows pr t corpus)))"

lemma project_twice: "project columns (project columns r) = project columns r"
  by (simp add: project_def fun_eq_iff)

lemma find_table_file:
  "t \<in> set ts \<Longrightarrow> List.find (\<lambda>f. pf_table f = t) (map (table_file env pr corpus counts) ts) = Some (table_file env pr corpus counts t)"
  by (induction ts) (auto simp: table_file_def)

lemma media_order: "distinct media_apply_order" "set media_apply_order = set replicated_tables"
  by (auto simp: media_apply_order_def replicated_tables_def)

lemma media_spec_label:
  assumes "spec = baseline_spec corpus params \<or> rebaseline_spec catalog corpus params = Inr spec"
  shows "\<exists>n. ms_generation spec = generation_name corpus n"
  using assms by (auto simp: baseline_spec_def rebaseline_spec_def Let_def result_simps)

lemma media_applied_parts:
  assumes run: "apply_media_package env dir v mode s = (s', Inr (MediaApplied corpus generation q report))"
    and m: "read_signed_manifest env dir v = Inr m"
  shows "corpus = corpus_as_str (id_corpus (em_identity m)) \<and> q = ps_get (ap_result_sequence (em_apply m))"
proof -
  from run m obtain s1 where "(let (t, outcome) = apply_media_locked env dir m mode s1
      in (fst (release_corpus_apply_lock (corpus_as_str (id_corpus (em_identity m))) t), outcome))
      = (s', Inr (MediaApplied corpus generation q report))"
    unfolding apply_media_package_def Let_def by (auto simp: action_simps)
  then have s1: "snd (apply_media_locked env dir m mode s1) = Inr (MediaApplied corpus generation q report)"
    by (simp split: prod.splits)
  then show ?thesis
    by (auto simp: apply_media_locked_def load_and_activate_prepare Let_def idempotency_decision_def bind_act_def ret_def
        split: prod.splits sum.splits option.splits if_splits)
qed


section \<open>A re-baseline of a small producer\<close>

definition sample_media_producer :: producer where
  "sample_media_producer = sample_producer\<lparr>pd_catalog := [sample_catalog_row ''published'' (sample_artifact Baseline ''p7'' 6 7)]\<rparr>"

definition sample_baseline_params :: baseline_params where
  "sample_baseline_params = \<lparr>bp_baseline_id = ''b2'', bp_builder_run_id = ''run'', bp_created_at = ''now'',
     bp_embedding_fingerprint = ''fp'', bp_embedding_model = ''m'', bp_embedding_dimension = 2, bp_embedding_normalize = True,
     bp_builder_versions = [], bp_minimum_client_version = Version 0 1 0\<rparr>"

definition sample_media_spec :: media_spec where
  "sample_media_spec = \<lparr>ms_package_kind = Rebaseline, ms_from_sequence = PackageSequence 7, ms_to_sequence = PackageSequence 8,
     ms_package_id = ''core-7-8'', ms_generation = ''core_g0003'', ms_baseline_id = ''b2'', ms_previous_package_id = Some ''p7'',
     ms_previous_package_sha256 = Some ''sha256:p7'', ms_included_change_seq_low = 0,
     ms_schema_ops_label = ''rebaseline-no-schema-ops'', ms_entitlement_label = ''p5-open-entitlement''\<rparr>"

definition sample_open_env :: media_env where
  "sample_open_env = \<lparr>me_build = sample_build_env, me_parse_remote = (\<lambda>b. None), me_copy_out = (\<lambda>columns rows. hd columns)\<rparr>"

definition sample_media_out :: media_out where
  "sample_media_out = (case for_each replicated_tables (copy_table sample_open_env sample_media_producer ''core'' ''pkg''
      (post_row_counts (postconditions_of (producer_digests sample_media_producer ''core''))))
      \<lparr>mo_fs = [], mo_files = [], mo_digests = [], mo_operations = [], mo_total_rows = 0\<rparr> of (out, _) \<Rightarrow> out)"

definition sample_media :: embedded_manifest where
  "sample_media = media_manifest sample_open_env sample_media_producer ''core'' sample_baseline_params sample_media_spec
     sample_media_out 17"

text \<open>Its signer signs this one manifest.\<close>

definition sample_media_env :: media_env where
  "sample_media_env = sample_open_env\<lparr>me_build := sample_build_env\<lparr>be_manifest_codec := \<lparr>
     cd_to_json = (\<lambda>m. if m = sample_media then Inr JNull else Inl Serialize), cd_print = (\<lambda>j. []), cd_backing = bt_insert\<rparr>\<rparr>\<rparr>"

definition sample_media_files :: files where
  "sample_media_files = (''pkg/manifest.json'', ''core-7-8'')
     # map (\<lambda>t. (''pkg/payload/'' @ t @ ''.copybin'', hd (sample_columns t))) (sort replicated_tables)"

definition sample_media_client :: "(string, string) apply_env" where
  "sample_media_client = (sample_env sample_media)\<lparr>
     ae_manifest_codec := be_manifest_codec (me_build sample_media_env),
     ae_parse_manifest := (\<lambda>text. Some \<lparr>sd_payload = sample_media, sd_signature = sample_signature\<rparr>),
     ae_copy_rows := (\<lambda>columns bytes. Some (concat (map (\<lambda>t. if sample_columns t = columns
        then map (project columns) (sch_rows sample_schema t) else []) [''documents'', ''chunks'', ''chunk_embeddings'']))),
     ae_read_file := bt_get sample_media_files\<rparr>"

lemma sample_media_spec_eq: "rebaseline_spec (pd_catalog sample_media_producer) ''core'' sample_baseline_params = Inr sample_media_spec"
proof -
  have "(case rebaseline_spec (pd_catalog sample_media_producer) ''core'' sample_baseline_params of Inr sp \<Rightarrow> sp = sample_media_spec | _ \<Rightarrow> False)"
    by code_simp
  then show ?thesis by (simp split: sum.splits)
qed

lemma sample_media_release: "same_release sample_server sample_server" "satisfies_minimum client_version (Version 0 1 0)"
  by code_simp+

definition sample_media_doc :: "embedded_manifest signed" where
  "sample_media_doc = \<lparr>sd_payload = sample_media, sd_signature = sample_signature\<rparr>"

lemma sample_media_seal:
  "seal (be_signer (me_build sample_media_env)) (be_manifest_codec (me_build sample_media_env)) m
     = (if m = sample_media then Inr sample_media_doc else Inl (SignCanonical Serialize))"
  by (simp add: seal_def sign_value_def value_bytes_def sample_media_env_def sample_open_env_def sample_build_env_def canonical_bytes_def
      sample_media_doc_def)

lemma sample_media_copy:
  "copy_table sample_media_env (sample_media_producer\<lparr>pd_ledger := l\<rparr>) = copy_table sample_open_env sample_media_producer"
  by (simp add: fun_eq_iff copy_table_def sample_media_env_def sample_open_env_def baseline_copy_out_rows_def Let_def cong: if_cong)

lemma sample_media_manifest:
  "media_manifest sample_media_env = media_manifest sample_open_env"
  by (simp add: fun_eq_iff media_manifest_def sample_media_env_def sample_open_env_def Let_def)

lemma sample_media_parts:
  "corpus_new ''core'' = Inr (Corpus ''core'')"
  "producer_version_major sample_server = Inr 17"
  "is_ok (manifest_digest_of (me_build sample_media_env) sample_media)"
  "\<exists>l. acquire_outbox_fence (pd_ledger sample_media_producer) = Some l \<and> is_ok (current_change_seq_with_client l)"
proof -
  show "corpus_new ''core'' = Inr (Corpus ''core'')" "producer_version_major sample_server = Inr 17" by code_simp+
  show "is_ok (manifest_digest_of (me_build sample_media_env) sample_media)"
    by (simp add: manifest_digest_of_def value_bytes_def sample_media_env_def sample_open_env_def sample_build_env_def
        canonical_bytes_def is_ok_iff)
  have "case acquire_outbox_fence (pd_ledger sample_media_producer) of Some l \<Rightarrow> is_ok (current_change_seq_with_client l) | None \<Rightarrow> False"
    by code_simp
  then show "\<exists>l. acquire_outbox_fence (pd_ledger sample_media_producer) = Some l \<and> is_ok (current_change_seq_with_client l)"
    by (auto split: option.splits)
qed

lemma sample_media_insert:
  "is_ok (insert_package_catalog_row (media_catalog_row ''core'' sample_baseline_params sample_media_spec m digest hi)
     (pd_catalog sample_media_producer))"
  by (simp add: insert_package_catalog_row_def catalog_check_def media_catalog_row_def sample_media_spec_def sample_media_producer_def
      sample_catalog_row_def sample_artifact_def sample_package_def Let_def is_ok_iff i64_saturating_def i64_max_def)

lemma sample_media_built:
  "\<exists>pr' fs' report. build_media_package sample_media_env ''core'' ''pkg'' sample_baseline_params sample_media_spec (sample_media_producer, [])
     = Some ((pr', fs'), Inr report)"
proof -
  from sample_media_parts(4) obtain l hi where l: "acquire_outbox_fence (pd_ledger sample_media_producer) = Some l"
    "current_change_seq_with_client l = Inr hi" by (auto simp: is_ok_iff)
  from sample_media_parts(3) obtain digest where digest: "manifest_digest_of (me_build sample_media_env) sample_media = Inr digest"
    by (auto simp: is_ok_iff)
  from sample_media_insert [of sample_media digest "cs_get hi"] obtain c where
    c: "insert_package_catalog_row (media_catalog_row ''core'' sample_baseline_params sample_media_spec sample_media digest (cs_get hi))
      (pd_catalog sample_media_producer) = Inr c" by (auto simp: is_ok_iff)
  let ?counts = "post_row_counts (postconditions_of (producer_digests sample_media_producer ''core''))"
  obtain out where out: "for_each replicated_tables (copy_table sample_open_env sample_media_producer ''core'' ''pkg'' ?counts)
      \<lparr>mo_fs = [], mo_files = [], mo_digests = [], mo_operations = [], mo_total_rows = 0\<rparr> = (out, Inr ())"
    using copy_tables_out by blast
  then have media: "sample_media = media_manifest sample_open_env sample_media_producer ''core'' sample_baseline_params sample_media_spec out 17"
    by (simp add: sample_media_def sample_media_out_def)
  have server: "pd_server sample_media_producer = sample_server" by (simp add: sample_media_producer_def sample_producer_def)
  show ?thesis
    using l digest c
    by (simp add: build_media_package_def sample_media_parts(1,2) Let_def build_media_inner_def bind_act_def gets_def lift_res_def
        copy_all_tables_def sample_media_copy out server sample_media_manifest media [symmetric] seal_media_def sample_media_seal
        modify_def statement_def ret_def)
qed

lemma sample_media_files_eq:
  assumes "build_media_package sample_media_env ''core'' ''pkg'' sample_baseline_params sample_media_spec (sample_media_producer, [])
    = Some ((pr', fs'), Inr report)"
  shows "fs' = sample_media_files"
  using build_media_package_InrD [OF assms]
proof (elim exE conjE)
  fix out m doc
  assume fs: "mo_fs out = add_payload sample_media_env sample_media_producer ''core'' ''pkg'' replicated_tables []"
      "fs' = bt_insert (manifest_path ''pkg'') (be_print_manifest (me_build sample_media_env) doc) (mo_fs out)"
    and sealed: "seal (be_signer (me_build sample_media_env)) (be_manifest_codec (me_build sample_media_env)) m = Inr doc"
  from sealed have "doc = sample_media_doc" by (simp add: sample_media_seal split: if_splits)
  then have "be_print_manifest (me_build sample_media_env) doc = ''core-7-8''"
    by (simp add: sample_media_doc_def sample_media_def media_manifest_def Let_def sample_media_spec_def sample_media_env_def
        sample_open_env_def sample_build_env_def)
  moreover have "bt_insert (manifest_path ''pkg'') ''core-7-8''
      (add_payload sample_open_env sample_media_producer ''core'' ''pkg'' replicated_tables []) = sample_media_files"
    by code_simp
  moreover have "add_payload sample_media_env = add_payload sample_open_env"
    by (simp add: fun_eq_iff add_payload_def table_bytes_def sample_media_env_def sample_open_env_def)
  ultimately show ?thesis by (simp add: fs)
qed

lemma sample_snapshot_rows:
  "t \<in> set replicated_tables \<Longrightarrow> baseline_copy_out_rows sample_media_producer t ''core'' = sch_rows sample_schema t"
  by (auto simp: replicated_tables_def baseline_copy_out_rows_def digest_rows_def corpus_scope_predicate_def sample_schema_def
      sample_media_producer_def sample_producer_def document_in_corpus_def parent_in_corpus_def sample_row_def)

lemma sample_media_reads: "reads_artifact sample_media_env sample_media_files sample_media_client"
  unfolding reads_artifact_def sample_media_seal
  by (simp add: sample_media_doc_def sample_media_client_def sample_env_def)
    (simp add: sample_media_env_def sample_open_env_def sample_build_env_def)

lemma sample_media_trusts: "trusts accept_all_verify_bytes sample_media_env"
  unfolding trusts_def sample_media_seal
  by (simp add: sample_media_doc_def)
    (simp add: signed_verify_def verify_value_def value_bytes_def sample_media_env_def canonical_bytes_def accept_all_verify_bytes_def)

lemma sample_media_rows: "row_copy_holds sample_media_env sample_media_producer ''core'' sample_media_client"
  unfolding row_copy_holds_def
proof
  fix t assume t: "t \<in> set replicated_tables"
  show "ae_copy_rows sample_media_client (sv_columns (pd_server sample_media_producer) t) (table_bytes sample_media_env sample_media_producer ''core'' t)
      = Some (map (project (sv_columns (pd_server sample_media_producer) t)) (baseline_copy_out_rows sample_media_producer t ''core''))"
    unfolding sample_snapshot_rows [OF t] using t
    by (auto simp: replicated_tables_def sample_media_client_def sample_env_def sample_media_producer_def sample_producer_def
        sample_server_def sample_columns_def sample_schema_def)
qed


end
