(* ===== verification/Media_Cycle.thy ===== *)
theory Media_Cycle
  imports Media_Replication
begin

text \<open>
  The re-baseline cycle (\<open>package-build/cycle.rs\<close>): it discards what a crashed re-baseline left in the staging slot,
  resumes a crashed incremental, and builds, publishes and marks a fresh snapshot.
\<close>

section \<open>The re-baseline cycle\<close>

record rebaseline_cycle_config =
  rc_baseline_params :: baseline_params
  rc_remote_manifest_params :: remote_manifest_params
  rc_enrichment :: enrichment_mode

record rebaseline_cycle_report =
  rr_corpus :: string
  rr_package_id :: string
  rr_baseline_id :: string
  rr_from_sequence :: u64
  rr_to_sequence :: u64
  rr_head_sequence :: "u64 option"
  rr_included_change_seq_high :: "u64 option"
  rr_remote_manifest_path :: string
  rr_enrichment :: enrichment_mode

definition delete_row_act :: "string \<Rightarrow> string \<Rightarrow> unit cycle_act" where
  "delete_row_act corpus package_id = modify (\<lambda>(pr, fs).
     (pr\<lparr>pd_catalog := fst (delete_unpublished_package_row corpus package_id (pd_catalog pr))\<rparr>, fs))"

text \<open>What to do with a staging slot: a re-baseline is discarded with its row, an incremental resumed.\<close>

definition settle_slot :: "build_env \<Rightarrow> string \<Rightarrow> string \<Rightarrow> string \<Rightarrow> unit cycle_act" where
  "settle_slot env corpus pub pending =
     bind_act (\<lambda>s. (s, read_staged_identity env pending (snd s))) (\<lambda>found.
     case found of
       Some staged \<Rightarrow>
         if st_package_kind staged = Rebaseline
         then bind_act (delete_row_act corpus (st_package_id staged)) (\<lambda>_. clean_act pending)
         else bind_act (resume_pending env corpus pub pending) (\<lambda>_. ret ())
     | None \<Rightarrow> ret ())"

definition refresh_rebaseline ::
  "build_env \<Rightarrow> string \<Rightarrow> string \<Rightarrow> rebaseline_cycle_config \<Rightarrow> rebaseline_build_report \<Rightarrow> rebaseline_cycle_report cycle_act" where
  "refresh_rebaseline env corpus pub cfg built =
     bind_act (\<lambda>s. (s, build_remote_manifest env (snd s) (pd_catalog (fst s)) corpus pub (rc_remote_manifest_params cfg))) (\<lambda>doc.
     bind_act (modify (\<lambda>(pr, fs). (pr, publish_remote_manifest env pub corpus doc fs))) (\<lambda>_.
     bind_act (gets (\<lambda>s. published_head (fst s) corpus)) (\<lambda>(head, high).
     ret \<lparr>rr_corpus = corpus, rr_package_id = rb_package_id built, rr_baseline_id = rb_baseline_id built,
          rr_from_sequence = rb_from_sequence built, rr_to_sequence = rb_to_sequence built, rr_head_sequence = head,
          rr_included_change_seq_high = high, rr_remote_manifest_path = published_manifest_path pub corpus,
          rr_enrichment = rc_enrichment cfg\<rparr>)))"

definition publish_rebaseline ::
  "build_env \<Rightarrow> string \<Rightarrow> string \<Rightarrow> string \<Rightarrow> rebaseline_cycle_config \<Rightarrow> publish_fault \<Rightarrow> rebaseline_build_report \<Rightarrow>
   rebaseline_cycle_report cycle_act" where
  "publish_rebaseline env corpus pub pending cfg fault built =
     (if fault = AfterStageBeforePublish then fail generations_error
      else
        bind_act (publish_act env pub corpus (rb_package_id built) pending) (\<lambda>_.
        bind_act (mark_package_published corpus (rb_package_id built)) (\<lambda>_.
        bind_act (clean_act pending) (\<lambda>_.
        refresh_rebaseline env corpus pub cfg built))))"

definition rebaseline_cycle_faulted ::
  "media_env \<Rightarrow> string \<Rightarrow> string \<Rightarrow> rebaseline_cycle_config \<Rightarrow> publish_fault \<Rightarrow> producer \<times> files \<Rightarrow>
   ((producer \<times> files) \<times> (rebaseline_cycle_report, build_error) result) option" where
  "rebaseline_cycle_faulted env corpus pub cfg fault s0 =
     (let pending = staged_pending_dir pub corpus in
      case bind_act (settle_slot (me_build env) corpus pub pending) (\<lambda>_. clean_act pending) s0 of
        (s1, Inl e) \<Rightarrow> Some (s1, Inl e)
      | (s1, Inr _) \<Rightarrow>
          (case build_rebaseline env corpus pending (rc_baseline_params cfg) s1 of
             None \<Rightarrow> None
           | Some (s2, Inl e) \<Rightarrow> Some (s2, Inl e)
           | Some (s2, Inr built) \<Rightarrow> Some (publish_rebaseline (me_build env) corpus pub pending cfg fault built s2)))"

definition rebaseline_cycle ::
  "media_env \<Rightarrow> string \<Rightarrow> string \<Rightarrow> rebaseline_cycle_config \<Rightarrow> producer \<times> files \<Rightarrow>
   ((producer \<times> files) \<times> (rebaseline_cycle_report, build_error) result) option" where
  "rebaseline_cycle env corpus pub cfg = rebaseline_cycle_faulted env corpus pub cfg NoFault"

section \<open>A crashed re-baseline leaves no trace\<close>

lemma files_without_insert: "strip_prefix k q \<noteq> None \<Longrightarrow> files_without q (bt_insert k v fs) = files_without q fs"
  by (induction k v fs rule: bt_insert.induct) auto

lemma strip_prefix_under: "strip_prefix (dir @ ''/'' @ rest) (dir @ ''/'') \<noteq> None"
  using strip_prefix_append [of "dir @ ''/''" rest] by simp

lemma clean_payload:
  assumes dir: "path_join dir ''payload'' = dir @ ''/'' @ ''payload''" and "set ts \<subseteq> set replicated_tables"
  shows "clean_dir dir (add_payload env pr corpus dir ts fs) = clean_dir dir fs"
  using assms(2)
proof (induction ts arbitrary: fs)
  case (Cons t ts)
  have "payload_file_path dir (baseline_file_name t) = dir @ ''/'' @ (''payload/'' @ baseline_file_name t)"
    using baseline_file_relative [of t] Cons.prems by (simp add: payload_path dir)
  then have "strip_prefix (payload_file_path dir (baseline_file_name t)) (dir @ ''/'') \<noteq> None"
    by (simp only: strip_prefix_under) simp
  with Cons show ?case by (simp add: add_payload_def files_by_prefix files_without_insert)
qed (simp add: add_payload_def)

lemma build_media_cleans:
  assumes build: "build_media_package env corpus (staged_pending_dir pub corpus) params spec (pr, fs) = Some ((pr', fs'), Inr report)"
  shows "clean_dir (staged_pending_dir pub corpus) fs' = clean_dir (staged_pending_dir pub corpus) fs"
  using build_media_package_InrD [OF build]
proof (elim exE conjE)
  fix out doc
  let ?dir = "staged_pending_dir pub corpus"
  assume valid: "corpus_valid corpus" and out: "mo_fs out = add_payload env pr corpus ?dir replicated_tables fs"
    and fs': "fs' = bt_insert (manifest_path ?dir) (be_print_manifest (me_build env) doc) (mo_fs out)"
  have "path_join ?dir ''payload'' = ?dir @ ''/'' @ ''payload''"
    by (simp add: pending_path(1) [OF valid] path_join_relative)
  from clean_payload [OF this subset_refl] have "clean_dir ?dir (mo_fs out) = clean_dir ?dir fs" by (simp add: out)
  moreover have "strip_prefix (manifest_path ?dir) (?dir @ ''/'') \<noteq> None"
    unfolding pending_path(2) [OF valid] by (rule strip_prefix_under)
  ultimately show ?thesis by (simp add: fs' files_by_prefix files_without_insert)
qed

lemma build_media_id:
  assumes "build_media_package env corpus dir params spec s = Some (s', Inr report)"
  shows "mb_package_id report = ms_package_id spec"
proof -
  have "build_media_package env corpus dir params spec (fst s, snd s) = Some ((fst s', snd s'), Inr report)" using assms by simp
  from build_media_package_InrD [OF this] show ?thesis by auto
qed

lemma rebaseline_spec_parts:
  assumes "rebaseline_spec catalog corpus params = Inr spec" and "latest_package_for_corpus catalog corpus = Some prev"
  shows "ms_package_kind spec = Rebaseline \<and> ms_from_sequence spec = PackageSequence (u64_or_zero (lp_package_sequence prev))
    \<and> ms_to_sequence spec = ps_next (ms_from_sequence spec)
    \<and> ms_package_id spec = package_id_of corpus (ms_from_sequence spec) (ms_to_sequence spec)
    \<and> ms_baseline_id spec = bp_baseline_id params
    \<and> ms_previous_package_id spec = Some (lp_package_id prev) \<and> ms_previous_package_sha256 spec = lp_package_digest prev
    \<and> ms_included_change_seq_low spec = lp_included_change_seq_high prev
    \<and> (\<exists>n. generation_counter_of corpus (lp_generation prev) = Some n \<and> ms_generation spec = generation_name corpus (n + 1))"
  using assms by (auto simp: rebaseline_spec_def Let_def result_simps ok_or_eq_Inr)

text \<open>A re-baseline adds one row, with a package id of its own, one sequence above the head.\<close>

lemma rebaseline_appends:
  assumes ok: "catalog_ok (pd_catalog pr)" and prev: "latest_package_for_corpus (pd_catalog pr) corpus = Some prev"
    and seq: "0 \<le> lp_package_sequence prev" "lp_package_sequence prev < i64_max"
    and spec: "rebaseline_spec (pd_catalog pr) corpus params = Inr spec"
    and build: "build_media_package env corpus dir params spec (pr, fs) = Some ((pr', fs'), Inr report)"
  shows "\<exists>row doc. pd_catalog pr' = pd_catalog pr @ [row] \<and> pr_corpus row = corpus \<and> pr_package_id row = ms_package_id spec
    \<and> pr_status row = ''built'' \<and> pr_package_sequence row = lp_package_sequence prev + 1
    \<and> (\<forall>r\<in>set (pd_catalog pr). pr_package_id r \<noteq> ms_package_id spec)
    \<and> pd_server pr' = pd_server pr \<and> pd_public pr' = pd_public pr
    \<and> bt_get fs' (manifest_path dir) = Some (be_print_manifest (me_build env) doc)
    \<and> id_package_id (em_identity (sd_payload doc)) = ms_package_id spec
    \<and> id_package_kind (em_identity (sd_payload doc)) = Rebaseline"
  using build_media_package_InrD [OF build]
proof (elim exE conjE)
  fix hi out major m doc digest c l
  assume m: "m = media_manifest env pr corpus params spec out major"
    and doc: "seal (be_signer (me_build env)) (be_manifest_codec (me_build env)) m = Inr doc"
    and ins: "insert_package_catalog_row (media_catalog_row corpus params spec m digest hi) (pd_catalog pr) = Inr c"
    and pr': "pr' = pr\<lparr>pd_ledger := release_outbox_fence l, pd_catalog := c\<rparr>"
    and fs': "fs' = bt_insert (manifest_path dir) (be_print_manifest (me_build env) doc) (mo_fs out)"
  let ?row = "media_catalog_row corpus params spec m digest hi"
  note parts = rebaseline_spec_parts [OF spec prev]
  have row: "pr_package_sequence ?row = lp_package_sequence prev + 1" "pr_corpus ?row = corpus"
    using i64_saturating_next [OF seq] parts by (simp_all add: media_catalog_row_def ps_next_def)
  have below: "\<forall>r\<in>set (pd_catalog pr). pr_corpus r = corpus \<longrightarrow> pr_package_sequence r < pr_package_sequence ?row"
    using latest_package_greatest [OF prev] row(1) by fastforce
  from insert_package_catalog_row_InrD [OF ins] have c: "c = pd_catalog pr @ [?row]"
    and fresh: "\<forall>r\<in>set (pd_catalog pr). pr_package_id r \<noteq> pr_package_id ?row"
    using below row(2) by (auto simp: same_identity_def)
  have "sd_payload doc = m" using doc by (auto simp: seal_def result_simps)
  with c fresh row parts show ?thesis
    by (intro exI [of _ ?row] exI [of _ doc])
      (simp add: pr' fs' bt_get_bt_insert_same media_catalog_row_def m media_manifest_def Let_def)
qed

lemma delete_last_row:
  assumes "pr_corpus row = corpus" "pr_status row = ''built''" "\<forall>r\<in>set catalog. pr_package_id r \<noteq> pr_package_id row"
  shows "fst (delete_unpublished_package_row corpus (pr_package_id row) (catalog @ [row])) = catalog"
  using assms by (simp add: delete_unpublished_package_row_def Let_def filter_id_conv)

lemma build_rebaseline_InrD:
  assumes "build_rebaseline env corpus dir params (pr, fs) = Some ((pr', fs'), Inr built)"
  shows "\<exists>spec report. rebaseline_spec (pd_catalog pr) corpus params = Inr spec
    \<and> build_media_package env corpus dir params spec (pr, fs) = Some ((pr', fs'), Inr report)
    \<and> rb_package_id built = mb_package_id report \<and> rb_baseline_id built = bp_baseline_id params
    \<and> rb_from_sequence built = ps_get (ms_from_sequence spec) \<and> rb_to_sequence built = ps_get (ms_to_sequence spec)"
  using assms by (auto simp: build_rebaseline_def result_simps split: sum.splits)

lemma set_published_length: "length (fst (set_published corpus package_id catalog)) = length catalog"
  by (simp add: set_published_def Let_def)

lemma settle_rebaseline:
  assumes "bt_get fs (manifest_path pending) = Some bytes" "be_parse_manifest env bytes = Some doc"
    and "id_package_id (em_identity (sd_payload doc)) = P" "id_package_kind (em_identity (sd_payload doc)) = Rebaseline"
  shows "settle_slot env corpus pub pending (pr, fs)
    = ((pr\<lparr>pd_catalog := fst (delete_unpublished_package_row corpus P (pd_catalog pr))\<rparr>, clean_dir pending fs), Inr ())"
  using assms
  by (simp add: settle_slot_def read_staged_identity_def ok_or_def bind_act_def delete_row_act_def clean_act_def modify_def)

lemma publish_rebaseline_InrD:
  assumes "publish_rebaseline env corpus pub pending cfg fault built (pr, fs) = ((pr', fs'), Inr rep)"
  shows "pd_catalog pr' = fst (set_published corpus (rb_package_id built) (pd_catalog pr))
    \<and> rr_package_id rep = rb_package_id built \<and> rr_baseline_id rep = rb_baseline_id built
    \<and> rr_from_sequence rep = rb_from_sequence built \<and> rr_to_sequence rep = rb_to_sequence built"
proof (cases "set_published corpus (rb_package_id built) (pd_catalog pr)")
  case (Pair c n)
  then show ?thesis
    using assms
    by (auto simp: publish_rebaseline_def refresh_rebaseline_def action_simps mark_package_published_def clean_act_def
        publish_act_eq and_then_eq_Inr split: if_splits sum.splits prod.splits)
qed

text \<open>
  C9.  A crashed re-baseline leaves no trace.  Suppose a re-baseline was built into the staging slot and cataloged, and
  the process died before publishing it; the outbox may have moved on since.  (Of serde the recovery needs that a
  written manifest reads back with its package id and kind.)  Settling the slot gives back exactly the catalog from
  before the crashed build and the files from before it outside the emptied slot.  When the next re-baseline cycle
  succeeds, it has published a package under the identity of the lost one, one sequence above the head, but with its
  own baseline id; one row, published, has been added to the catalog as it was before the crash.
\<close>
theorem crashed_rebaseline_discarded:
  assumes ok: "catalog_ok (pd_catalog pr0)"
    and build: "build_rebaseline env corpus (staged_pending_dir pub corpus) params (pr0, fs0) = Some ((pr1, fs1), Inr built)"
    and prev: "latest_package_for_corpus (pd_catalog pr0) corpus = Some prev"
    and seq: "0 \<le> lp_package_sequence prev" "lp_package_sequence prev < i64_max"
    and serde: "\<forall>doc. \<exists>doc'. be_parse_manifest (me_build env) (be_print_manifest (me_build env) doc) = Some doc'
        \<and> id_package_id (em_identity (sd_payload doc')) = id_package_id (em_identity (sd_payload doc))
        \<and> id_package_kind (em_identity (sd_payload doc')) = id_package_kind (em_identity (sd_payload doc))"
    and crashed: "pr = with_ledger f pr1"
  shows "settle_slot (me_build env) corpus pub (staged_pending_dir pub corpus) (pr, fs1)
      = ((pr\<lparr>pd_catalog := pd_catalog pr0\<rparr>, clean_dir (staged_pending_dir pub corpus) fs0), Inr ())
    \<and> (\<forall>cfg pr3 fs3 rep. rebaseline_cycle env corpus pub cfg (pr, fs1) = Some ((pr3, fs3), Inr rep) \<longrightarrow>
        rr_package_id rep = rb_package_id built \<and> rr_baseline_id rep = bp_baseline_id (rc_baseline_params cfg)
        \<and> i64_saturating (rr_to_sequence rep) = lp_package_sequence prev + 1
        \<and> package_catalog_status (pd_catalog pr3) corpus (rr_package_id rep) = Some ''published''
        \<and> length (pd_catalog pr3) = length (pd_catalog pr0) + 1)"
proof -
  let ?pending = "staged_pending_dir pub corpus" and ?be = "me_build env"
  from build_rebaseline_InrD [OF build] obtain spec report where spec: "rebaseline_spec (pd_catalog pr0) corpus params = Inr spec"
    and media: "build_media_package env corpus ?pending params spec (pr0, fs0) = Some ((pr1, fs1), Inr report)"
    and id: "rb_package_id built = mb_package_id report" by blast
  note mb = build_media_id [OF media]
  from rebaseline_appends [OF ok prev seq spec media] obtain row doc where
      cat: "pd_catalog pr1 = pd_catalog pr0 @ [row]" and row: "pr_corpus row = corpus" "pr_package_id row = ms_package_id spec"
        "pr_status row = ''built''" "\<forall>r\<in>set (pd_catalog pr0). pr_package_id r \<noteq> ms_package_id spec"
    and staged: "bt_get fs1 (manifest_path ?pending) = Some (be_print_manifest ?be doc)"
    and doc: "id_package_id (em_identity (sd_payload doc)) = ms_package_id spec"
        "id_package_kind (em_identity (sd_payload doc)) = Rebaseline"
    by blast
  from serde obtain doc' where "be_parse_manifest ?be (be_print_manifest ?be doc) = Some doc'"
    "id_package_id (em_identity (sd_payload doc')) = ms_package_id spec" "id_package_kind (em_identity (sd_payload doc')) = Rebaseline"
    using doc by metis
  note settle = settle_rebaseline [OF staged this, where pr = pr and corpus = corpus and pub = pub]
  have "pd_catalog pr = pd_catalog pr0 @ [row]" by (simp add: crashed with_ledger_def cat)
  then have undone: "fst (delete_unpublished_package_row corpus (ms_package_id spec) (pd_catalog pr)) = pd_catalog pr0"
    using delete_last_row [of row corpus "pd_catalog pr0"] row by simp
  have settled: "settle_slot ?be corpus pub ?pending (pr, fs1)
      = ((pr\<lparr>pd_catalog := pd_catalog pr0\<rparr>, clean_dir ?pending fs0), Inr ())"
    using settle by (simp add: undone build_media_cleans [OF media])
  have "rr_package_id rep = rb_package_id built \<and> rr_baseline_id rep = bp_baseline_id (rc_baseline_params cfg)
      \<and> i64_saturating (rr_to_sequence rep) = lp_package_sequence prev + 1
      \<and> package_catalog_status (pd_catalog pr3) corpus (rr_package_id rep) = Some ''published''
      \<and> length (pd_catalog pr3) = length (pd_catalog pr0) + 1"
    if run: "rebaseline_cycle env corpus pub cfg (pr, fs1) = Some ((pr3, fs3), Inr rep)" for cfg pr3 fs3 rep
  proof -
    let ?pr = "pr\<lparr>pd_catalog := pd_catalog pr0\<rparr>"
    from run settled obtain pr2 fs2 built2 where
        build2: "build_rebaseline env corpus ?pending (rc_baseline_params cfg) (?pr, clean_dir ?pending (clean_dir ?pending fs0))
          = Some ((pr2, fs2), Inr built2)"
      and publish: "publish_rebaseline ?be corpus pub ?pending cfg NoFault built2 (pr2, fs2) = ((pr3, fs3), Inr rep)"
      by (auto simp: rebaseline_cycle_def rebaseline_cycle_faulted_def Let_def bind_act_def clean_act_def modify_def
          split: option.splits prod.splits sum.splits)
    from build_rebaseline_InrD [OF build2] obtain spec2 report2 where
        spec2: "rebaseline_spec (pd_catalog ?pr) corpus (rc_baseline_params cfg) = Inr spec2"
      and media2: "build_media_package env corpus ?pending (rc_baseline_params cfg) spec2
          (?pr, clean_dir ?pending (clean_dir ?pending fs0)) = Some ((pr2, fs2), Inr report2)"
      and id2: "rb_package_id built2 = mb_package_id report2" "rb_baseline_id built2 = bp_baseline_id (rc_baseline_params cfg)"
        "rb_to_sequence built2 = ps_get (ms_to_sequence spec2)" by blast
    have cat0: "catalog_ok (pd_catalog ?pr)" "latest_package_for_corpus (pd_catalog ?pr) corpus = Some prev"
      using ok prev by simp_all
    note mb2 = build_media_id [OF media2]
    have same: "ms_package_id spec2 = ms_package_id spec"
      and to: "i64_saturating (ps_get (ms_to_sequence spec2)) = lp_package_sequence prev + 1"
      using rebaseline_spec_parts [OF spec prev] rebaseline_spec_parts [OF spec2 cat0(2)] i64_saturating_next [OF seq]
      by (simp_all add: ps_next_def)
    from rebaseline_appends [OF cat0 seq spec2 media2] obtain row2 where
      cat2: "pd_catalog pr2 = pd_catalog pr0 @ [row2]" "pr_corpus row2 = corpus" "pr_package_id row2 = ms_package_id spec2" by auto
    then have listed: "package_catalog_status (pd_catalog pr2) corpus (ms_package_id spec2) \<noteq> None"
      by (auto simp: package_catalog_status_def find_None_iff')
    note out = publish_rebaseline_InrD [OF publish]
    show ?thesis using out id id2 mb mb2 same to status_after_publish [OF listed] set_published_length cat2(1) by simp
  qed
  with settled show ?thesis by blast
qed

section \<open>A crash on the small producer\<close>

definition sample_tagged_id :: "embedded_manifest \<Rightarrow> string" where
  "sample_tagged_id m = (case id_package_kind (em_identity m) of Baseline \<Rightarrow> CHR ''b'' | Rebaseline \<Rightarrow> CHR ''r'' | Incremental \<Rightarrow> CHR ''i'')
     # id_package_id (em_identity m)"

definition sample_untag :: "string \<Rightarrow> embedded_manifest signed option" where
  "sample_untag bytes = (case bytes of [] \<Rightarrow> None
     | tag # package_id \<Rightarrow> Some \<lparr>sd_payload = sample_artifact
         (if tag = CHR ''b'' then Baseline else if tag = CHR ''r'' then Rebaseline else Incremental) package_id 7 8,
         sd_signature = sample_signature\<rparr>)"

definition sample_rebaseline_env :: media_env where
  "sample_rebaseline_env = sample_open_env\<lparr>me_build := sample_build_env\<lparr>
     be_print_manifest := (\<lambda>doc. sample_tagged_id (sd_payload doc)), be_parse_manifest := sample_untag\<rparr>\<rparr>"

lemma sample_untag_serde:
  "\<exists>doc'. be_parse_manifest (me_build sample_rebaseline_env) (be_print_manifest (me_build sample_rebaseline_env) doc) = Some doc'
    \<and> id_package_id (em_identity (sd_payload doc')) = id_package_id (em_identity (sd_payload doc))
    \<and> id_package_kind (em_identity (sd_payload doc')) = id_package_kind (em_identity (sd_payload doc))"
  by (simp add: sample_rebaseline_env_def sample_untag_def sample_tagged_id_def sample_artifact_def sample_package_def Let_def
      split: package_kind.split)

text \<open>When nothing outside the builder fails, it builds.\<close>

lemma build_media_succeeds:
  assumes "corpus_new corpus = Inr c" "acquire_outbox_fence (pd_ledger pr) = Some l" "current_change_seq_with_client l = Inr hi"
    and "producer_version_major (pd_server pr) = Inr pg"
    and "\<And>m. is_ok (manifest_digest_of (me_build env) m)"
    and "\<And>m. is_ok (seal (be_signer (me_build env)) (be_manifest_codec (me_build env)) m)"
    and "\<And>m d h. is_ok (insert_package_catalog_row (media_catalog_row corpus params spec m d h) (pd_catalog pr))"
  shows "\<exists>pr' fs' report. build_media_package env corpus dir params spec (pr, fs) = Some ((pr', fs'), Inr report)"
proof -
  let ?counts = "post_row_counts (postconditions_of (producer_digests pr corpus))"
  let ?pr = "pr\<lparr>pd_ledger := release_outbox_fence l\<rparr>"
  obtain out where out: "copy_all_tables env ?pr corpus dir ?counts (?pr, fs) = ((?pr, mo_fs out), Inr out)"
    using copy_all_tables_out [of env ?pr corpus dir ?counts ?pr fs] by blast
  let ?m = "media_manifest env pr corpus params spec out pg"
  from assms(5) [of ?m] obtain d where d: "manifest_digest_of (me_build env) ?m = Inr d" by (auto simp: is_ok_iff)
  from assms(6) [of ?m] obtain doc where doc: "seal (be_signer (me_build env)) (be_manifest_codec (me_build env)) ?m = Inr doc"
    by (auto simp: is_ok_iff)
  from assms(7) [of ?m d "cs_get hi"] obtain cat where
    "insert_package_catalog_row (media_catalog_row corpus params spec ?m d (cs_get hi)) (pd_catalog pr) = Inr cat" by (auto simp: is_ok_iff)
  with assms(1-4) d doc out show ?thesis
    by (simp add: build_media_package_def Let_def build_media_inner_def bind_act_def gets_def lift_res_def seal_media_def modify_def
        statement_def ret_def)
qed

lemma sample_rebaseline_built:
  "\<exists>pr1 fs1 built. build_rebaseline sample_rebaseline_env ''core'' (staged_pending_dir ''/srv'' ''core'') sample_baseline_params
     (sample_media_producer, []) = Some ((pr1, fs1), Inr built)"
proof -
  from sample_media_parts(4) obtain l hi where l: "acquire_outbox_fence (pd_ledger sample_media_producer) = Some l"
    "current_change_seq_with_client l = Inr hi" by (auto simp: is_ok_iff)
  have major: "producer_version_major (pd_server sample_media_producer) = Inr 17"
    using sample_media_parts(2) by (simp add: sample_media_producer_def sample_producer_def)
  have signs: "is_ok (manifest_digest_of (me_build sample_rebaseline_env) m)"
    "is_ok (seal (be_signer (me_build sample_rebaseline_env)) (be_manifest_codec (me_build sample_rebaseline_env)) m)" for m
    by (simp_all add: manifest_digest_of_def seal_def sign_value_def value_bytes_def sample_rebaseline_env_def sample_open_env_def
        sample_build_env_def canonical_bytes_def is_ok_iff)
  from build_media_succeeds [OF sample_media_parts(1) l major signs sample_media_insert, of "staged_pending_dir ''/srv'' ''core''" "[]"]
  obtain pr' fs' report where "build_media_package sample_rebaseline_env ''core'' (staged_pending_dir ''/srv'' ''core'')
      sample_baseline_params sample_media_spec (sample_media_producer, []) = Some ((pr', fs'), Inr report)" by blast
  then show ?thesis by (simp add: build_rebaseline_def sample_media_spec_eq)
qed

definition sample_media_latest :: latest_package where
  "sample_media_latest = latest_of_row (sample_catalog_row ''published'' (sample_artifact Baseline ''p7'' 6 7))"

lemma sample_media_latest_eq:
  "latest_package_for_corpus (pd_catalog sample_media_producer) ''core'' = Some sample_media_latest"
  by (simp add: latest_package_for_corpus_def corpus_rows_def sample_media_producer_def sample_media_latest_def sample_catalog_row_def)

lemma sample_media_latest_seq: "lp_package_sequence sample_media_latest = 7"
  by code_simp

lemma sample_media_catalog_ok: "catalog_ok (pd_catalog sample_media_producer)"
  by code_simp

theorem crashed_rebaseline_discarded_witness:
  "\<exists>pr1 fs1 built. build_rebaseline sample_rebaseline_env ''core'' (staged_pending_dir ''/srv'' ''core'') sample_baseline_params
      (sample_media_producer, []) = Some ((pr1, fs1), Inr built)
    \<and> settle_slot (me_build sample_rebaseline_env) ''core'' ''/srv'' (staged_pending_dir ''/srv'' ''core'') (with_ledger id pr1, fs1)
      = (((with_ledger id pr1)\<lparr>pd_catalog := pd_catalog sample_media_producer\<rparr>, []), Inr ())"
proof -
  from sample_rebaseline_built obtain pr1 fs1 built where
    b: "build_rebaseline sample_rebaseline_env ''core'' (staged_pending_dir ''/srv'' ''core'') sample_baseline_params
      (sample_media_producer, []) = Some ((pr1, fs1), Inr built)"
    by blast
  have seq: "0 \<le> lp_package_sequence sample_media_latest" "lp_package_sequence sample_media_latest < i64_max"
    by (simp_all add: sample_media_latest_seq i64_max_def)
  have serde: "\<forall>doc. \<exists>doc'. be_parse_manifest (me_build sample_rebaseline_env) (be_print_manifest (me_build sample_rebaseline_env) doc) = Some doc'
      \<and> id_package_id (em_identity (sd_payload doc')) = id_package_id (em_identity (sd_payload doc))
      \<and> id_package_kind (em_identity (sd_payload doc')) = id_package_kind (em_identity (sd_payload doc))"
    using sample_untag_serde by blast
  from crashed_rebaseline_discarded [OF sample_media_catalog_ok b sample_media_latest_eq seq serde refl, of id] b
  show ?thesis by (simp add: clean_dir_def)
qed

end
