(* ===== verification/Bootstrap.thy ===== *)
theory Bootstrap
  imports Media_Cycle
begin

text \<open>
  The bootstrap of a first baseline (\<open>package-build/cycle.rs\<close>): it builds, resumes or refuses, and publishes a remote
  manifest only after it has verified it; and the check of a published root (\<open>package-build/verify.rs\<close>) it uses.
\<close>

section \<open>The published root\<close>

record published_verify_report =
  pv_corpus :: string
  pv_head_sequence :: u64
  pv_packages :: nat
  pv_artifacts_checked :: nat

definition resolve_uri :: "string \<Rightarrow> string \<Rightarrow> string \<Rightarrow> (string, build_error) result" where
  "resolve_uri pub uri_base uri =
     and_then (ok_or (strip_prefix uri uri_base) generations_error) (\<lambda>relative.
     and_then (ensure (list_all is_normal (path_components relative)) generations_error) (\<lambda>_.
     Inr (path_join pub relative)))"

definition verify_artifact ::
  "build_env \<Rightarrow> files \<Rightarrow> string \<Rightarrow> string \<Rightarrow> verifier \<Rightarrow> string \<times> string \<times> signature \<Rightarrow> (unit, build_error) result" where
  "verify_artifact env fs pub uri_base verifier = (\<lambda>(uri, expected_sha256, expected_signature).
     and_then (resolve_uri pub uri_base uri) (\<lambda>dir.
     and_then (ok_or (bt_get fs (manifest_path dir)) generations_error) (\<lambda>bytes.
     and_then (ok_or (be_parse_manifest env bytes) BuildJson) (\<lambda>doc.
     and_then (ensure (sd_signature doc = expected_signature) generations_error) (\<lambda>_.
     and_then (map_err (\<lambda>_. generations_error) (signed_verify verifier (be_manifest_codec env) doc)) (\<lambda>_.
     ensure (in_artifact_sha256 (em_integrity (sd_payload doc)) = expected_sha256) generations_error))))))"

definition referenced_artifacts :: "remote_manifest \<Rightarrow> (string \<times> string \<times> signature) list" where
  "referenced_artifacts m =
     (let b = rm_active_baseline m in
      (br_artifact_uri b, br_sha256 b, br_signature b)
      # map (\<lambda>e. (re_artifact_uri e, re_sha256 e, re_signature e)) (rm_packages m))"

definition verify_signed_remote_manifest ::
  "build_env \<Rightarrow> files \<Rightarrow> string \<Rightarrow> string \<Rightarrow> string \<Rightarrow> remote_manifest signed \<Rightarrow> verifier \<Rightarrow>
   (published_verify_report, build_error) result" where
  "verify_signed_remote_manifest env fs pub corpus uri_base doc verifier =
     (let m = sd_payload doc in
      and_then (map_err (\<lambda>_. generations_error) (signed_verify verifier (be_remote_codec env) doc)) (\<lambda>_.
      and_then (ensure (corpus_as_str (rm_corpus m) = corpus) generations_error) (\<lambda>_.
      and_then (fold_result (\<lambda>a n. and_then (verify_artifact env fs pub uri_base verifier a) (\<lambda>_. Inr (Suc n)))
        (referenced_artifacts m) 0) (\<lambda>checked.
      Inr \<lparr>pv_corpus = corpus, pv_head_sequence = ps_get (rm_head_sequence m), pv_packages = length (rm_packages m),
           pv_artifacts_checked = checked\<rparr>))))"

definition verify_published_root ::
  "media_env \<Rightarrow> files \<Rightarrow> string \<Rightarrow> string \<Rightarrow> string \<Rightarrow> verifier \<Rightarrow> (published_verify_report, build_error) result" where
  "verify_published_root env fs pub corpus uri_base verifier =
     and_then (ok_or (bt_get fs (published_manifest_path pub corpus)) generations_error) (\<lambda>bytes.
     and_then (ok_or (me_parse_remote env bytes) BuildJson) (\<lambda>doc.
     verify_signed_remote_manifest (me_build env) fs pub corpus uri_base doc verifier))"

section \<open>The first baseline\<close>

record bootstrap_baseline_config =
  bc_baseline_params :: baseline_params
  bc_remote_manifest_params :: remote_manifest_params

record bootstrap_baseline_report =
  bf_corpus :: string
  bf_package_id :: string
  bf_generation :: string
  bf_baseline_id :: string
  bf_sequence :: u64
  bf_included_change_seq_high :: u64
  bf_total_rows :: u64
  bf_artifact_sha256 :: string
  bf_remote_manifest_path :: string
  bf_head_sequence :: u64
  bf_artifacts_verified :: nat

datatype bootstrap_fault =
    NoBootstrapFault | AfterCatalogInsert | AfterPublishPackage | AfterMarkPublished | BeforeManifestRename

record bootstrap_identity =
  bi_package_id :: string
  bi_generation :: string
  bi_baseline_id :: string
  bi_included_change_seq_high :: u64
  bi_total_rows :: u64

text \<open>Rows of a table without a matching embedding, and rows stamped with another fingerprint.\<close>

definition missing_embeddings :: "producer \<Rightarrow> baseline_params \<Rightarrow> string \<Rightarrow> string \<Rightarrow> string \<Rightarrow> nat" where
  "missing_embeddings pr params parent embedding key =
     length (filter (\<lambda>c. \<not> list_ex (\<lambda>e. e key = c key \<and> c key \<noteq> JNull
         \<and> e ''embedding_fingerprint'' = JString (bp_embedding_fingerprint params)
         \<and> e ''model'' = JString (bp_embedding_model params)
         \<and> e ''dimension'' = JNumber (PosInt (word_of_int (i32_saturating (bp_embedding_dimension params)))))
       (sch_rows (pd_public pr) embedding)) (sch_rows (pd_public pr) parent))"

definition inconsistent_fingerprints :: "producer \<Rightarrow> baseline_params \<Rightarrow> string \<Rightarrow> nat" where
  "inconsistent_fingerprints pr params t = length (filter
     (\<lambda>r. r ''embedding_fingerprint'' \<noteq> JString (bp_embedding_fingerprint params)) (sch_rows (pd_public pr) t))"

definition bootstrap_preflight :: "producer \<Rightarrow> baseline_params \<Rightarrow> (unit, build_error) result" where
  "bootstrap_preflight pr params =
     and_then (ensure (sv_schema_version (pd_server pr) = current_schema_version) generations_error) (\<lambda>_.
     and_then (ensure (\<not> missing_embeddings pr params ''chunks'' ''chunk_embeddings'' ''chunk_id'' > 0) generations_error) (\<lambda>_.
     and_then (ensure (\<not> inconsistent_fingerprints pr params ''chunks'' > 0) generations_error) (\<lambda>_.
     and_then (ensure (\<not> missing_embeddings pr params ''zone_units'' ''zone_unit_embeddings'' ''zone_unit_id'' > 0)
       generations_error) (\<lambda>_.
     ensure (\<not> inconsistent_fingerprints pr params ''zone_units'' > 0) generations_error))))"

definition rebaseline_preflight :: "producer \<Rightarrow> baseline_params \<Rightarrow> (unit, build_error) result" where
  "rebaseline_preflight pr params = bootstrap_preflight pr params"

definition classify_first_baseline_row :: "catalog_row \<Rightarrow> string \<Rightarrow> baseline_params \<Rightarrow> (unit, build_error) result" where
  "classify_first_baseline_row row corpus params =
     ensure (ct_package_id row = package_id_of corpus (PackageSequence 1) (PackageSequence 1)
       \<and> ct_package_sequence row = 1 \<and> ct_package_kind row = ''baseline''
       \<and> ct_generation row = generation_name corpus 1 \<and> ct_baseline_id row = bp_baseline_id params
       \<and> ct_embedding_fingerprint row = bp_embedding_fingerprint params
       \<and> (ct_status row = ''built'' \<or> ct_status row = ''published'')) generations_error"

definition identity_of_row :: "catalog_row \<Rightarrow> embedded_manifest \<Rightarrow> bootstrap_identity" where
  "identity_of_row row m = \<lparr>bi_package_id = ct_package_id row, bi_generation = ct_generation row,
     bi_baseline_id = ct_baseline_id row, bi_included_change_seq_high = u64_or_zero (ct_included_change_seq_high row),
     bi_total_rows = sum_list (map snd (post_row_counts (ap_postconditions (em_apply m))))\<rparr>"

definition recover_artifact :: "build_env \<Rightarrow> string \<Rightarrow> string \<Rightarrow> string \<Rightarrow> string \<Rightarrow> unit cycle_act" where
  "recover_artifact env corpus pub staging package_id =
     bind_act (gets snd) (\<lambda>fs.
     if bt_get fs (manifest_path (published_package_dir pub corpus package_id)) \<noteq> None then ret ()
     else if bt_get fs (manifest_path staging) = None then fail generations_error
     else publish_act env pub corpus package_id staging)"

definition resume_first_baseline ::
  "build_env \<Rightarrow> string \<Rightarrow> string \<Rightarrow> string \<Rightarrow> catalog_row \<Rightarrow> bootstrap_identity cycle_act" where
  "resume_first_baseline env corpus pub staging row =
     (let package_id = ct_package_id row in
      bind_act (recover_artifact env corpus pub staging package_id) (\<lambda>_.
      bind_act (\<lambda>s. (s, ok_or (bt_get (snd s) (manifest_path (published_package_dir pub corpus package_id))) BuildIo)) (\<lambda>bytes.
      bind_act (lift_res (ok_or (be_parse_manifest env bytes) BuildJson)) (\<lambda>doc.
      bind_act (lift_res (map_err (\<lambda>_. generations_error) (verify_catalog_identity env row doc False))) (\<lambda>_.
      bind_act (if ct_status row = ''built'' then mark_package_published corpus package_id else ret ()) (\<lambda>_.
      bind_act (clean_act staging) (\<lambda>_.
      ret (identity_of_row row (sd_payload doc)))))))))"

definition identity_of_build :: "baseline_build_report \<Rightarrow> bootstrap_identity" where
  "identity_of_build report = \<lparr>bi_package_id = bb_package_id report, bi_generation = bb_generation report,
     bi_baseline_id = bb_baseline_id report, bi_included_change_seq_high = bb_included_change_seq_high report,
     bi_total_rows = bb_total_rows report\<rparr>"

definition publish_first ::
  "build_env \<Rightarrow> string \<Rightarrow> string \<Rightarrow> string \<Rightarrow> bootstrap_fault \<Rightarrow> baseline_build_report \<Rightarrow> bootstrap_identity cycle_act" where
  "publish_first env corpus pub staging fault report =
     bind_act (check_act (fault \<noteq> AfterCatalogInsert) generations_error) (\<lambda>_.
     bind_act (publish_act env pub corpus (bb_package_id report) staging) (\<lambda>_.
     bind_act (check_act (fault \<noteq> AfterPublishPackage) generations_error) (\<lambda>_.
     bind_act (mark_package_published corpus (bb_package_id report)) (\<lambda>_.
     bind_act (check_act (fault \<noteq> AfterMarkPublished) generations_error) (\<lambda>_.
     bind_act (clean_act staging) (\<lambda>_.
     ret (identity_of_build report)))))))"

definition bootstrap_locked ::
  "media_env \<Rightarrow> string \<Rightarrow> string \<Rightarrow> verifier \<Rightarrow> string \<Rightarrow> bootstrap_baseline_config \<Rightarrow> bootstrap_fault \<Rightarrow> producer \<times> files \<Rightarrow>
   ((producer \<times> files) \<times> (bootstrap_identity, build_error) result) option" where
  "bootstrap_locked env corpus pub verifier staging cfg fault = (\<lambda>(pr, fs).
     let be = me_build env; params = bc_baseline_params cfg in
     case latest_media_package_for_corpus (pd_catalog pr) corpus of
       None \<Rightarrow>
         (case bootstrap_preflight pr params of
            Inl e \<Rightarrow> Some ((pr, fs), Inl e)
          | Inr _ \<Rightarrow>
              (case build_baseline env corpus staging params (pr, clean_dir staging fs) of
                 None \<Rightarrow> None
               | Some (s', Inl e) \<Rightarrow> Some (s', Inl e)
               | Some (s', Inr report) \<Rightarrow> Some (publish_first be corpus pub staging fault report s')))
     | Some row \<Rightarrow>
         (case classify_first_baseline_row row corpus params of
            Inl e \<Rightarrow> Some ((pr, fs), Inl e)
          | Inr _ \<Rightarrow>
              if is_ok (verify_published_root env fs pub corpus (mp_uri_base (bc_remote_manifest_params cfg)) verifier)
              then Some ((pr, fs), Inl generations_error)
              else Some (resume_first_baseline be corpus pub staging row (pr, fs))))"

definition bootstrap_staging :: "string \<Rightarrow> string \<Rightarrow> string" where
  "bootstrap_staging pub corpus = path_join (path_join (path_join pub corpus) ''.staging'') ''bootstrap-baseline''"

text \<open>After the build lock: build the remote manifest, verify it, only then publish it, and read it back.\<close>

definition publish_verified ::
  "media_env \<Rightarrow> string \<Rightarrow> string \<Rightarrow> verifier \<Rightarrow> bootstrap_baseline_config \<Rightarrow> bootstrap_fault \<Rightarrow> bootstrap_identity \<Rightarrow>
   bootstrap_baseline_report cycle_act" where
  "publish_verified env corpus pub verifier cfg fault ident =
     (let be = me_build env; uri_base = mp_uri_base (bc_remote_manifest_params cfg) in
      bind_act (\<lambda>s. (s, build_remote_manifest be (snd s) (pd_catalog (fst s)) corpus pub (bc_remote_manifest_params cfg))) (\<lambda>doc.
      bind_act (\<lambda>s. (s, verify_signed_remote_manifest be (snd s) pub corpus uri_base doc verifier)) (\<lambda>_.
      bind_act (check_act (fault \<noteq> BeforeManifestRename) generations_error) (\<lambda>_.
      bind_act (modify (\<lambda>(pr, fs). (pr, publish_remote_manifest be pub corpus doc fs))) (\<lambda>_.
      bind_act (\<lambda>s. (s, verify_published_root env (snd s) pub corpus uri_base verifier)) (\<lambda>verified.
      bind_act (\<lambda>s. (s, artifact_sha256 be (published_package_dir pub corpus (bi_package_id ident)) (snd s))) (\<lambda>sha.
      bind_act (gets (\<lambda>s. published_head (fst s) corpus)) (\<lambda>(head, _).
      ret \<lparr>bf_corpus = corpus, bf_package_id = bi_package_id ident, bf_generation = bi_generation ident,
        bf_baseline_id = bi_baseline_id ident, bf_sequence = 1,
        bf_included_change_seq_high = bi_included_change_seq_high ident, bf_total_rows = bi_total_rows ident,
        bf_artifact_sha256 = sha, bf_remote_manifest_path = published_manifest_path pub corpus,
        bf_head_sequence = (case head of None \<Rightarrow> 1 | Some h \<Rightarrow> h), bf_artifacts_verified = pv_artifacts_checked verified\<rparr>))))))))"

definition bootstrap_first_baseline_faulted ::
  "media_env \<Rightarrow> string \<Rightarrow> string \<Rightarrow> verifier \<Rightarrow> bootstrap_baseline_config \<Rightarrow> bootstrap_fault \<Rightarrow> producer \<times> files \<Rightarrow>
   ((producer \<times> files) \<times> (bootstrap_baseline_report, build_error) result) option" where
  "bootstrap_first_baseline_faulted env corpus pub verifier cfg fault s0 =
     (case bootstrap_locked env corpus pub verifier (bootstrap_staging pub corpus) cfg fault s0 of
        None \<Rightarrow> None
      | Some (s1, Inl e) \<Rightarrow> Some (s1, Inl e)
      | Some (s1, Inr ident) \<Rightarrow> Some (publish_verified env corpus pub verifier cfg fault ident s1))"

definition bootstrap_first_baseline ::
  "media_env \<Rightarrow> string \<Rightarrow> string \<Rightarrow> verifier \<Rightarrow> bootstrap_baseline_config \<Rightarrow> producer \<times> files \<Rightarrow>
   ((producer \<times> files) \<times> (bootstrap_baseline_report, build_error) result) option" where
  "bootstrap_first_baseline env corpus pub verifier cfg = bootstrap_first_baseline_faulted env corpus pub verifier cfg NoBootstrapFault"

section \<open>Files a step leaves alone\<close>

definition keeps_file :: "string \<Rightarrow> producer \<times> files \<Rightarrow> producer \<times> files \<Rightarrow> bool" where
  "keeps_file path s s' \<longleftrightarrow> (bt_ok (snd s) \<longrightarrow> bt_ok (snd s') \<and> bt_get (snd s') path = bt_get (snd s) path)"

lemma reflp_keeps_file [keeps_intros]: "reflp (keeps_file path)"
  by (simp add: reflp_def keeps_file_def)

lemma transp_keeps_file [keeps_intros]: "transp (keeps_file path)"
  by (auto simp: transp_def keeps_file_def)

lemma keeps_file_pure [keeps_intros]: "keeps (keeps_file path) (\<lambda>s. (s, f s))"
  by (simp add: keeps_def keeps_file_def)

lemma keeps_file_insert:
  "k \<noteq> path \<Longrightarrow> keeps (keeps_file path) (modify (\<lambda>(pr, fs). (pr, bt_insert k (v pr fs) fs)))"
  by (auto simp: keeps_def modify_def keeps_file_def bt_get_insert bt_ok_insert)

lemma keeps_file_clean:
  "\<forall>rest. path \<noteq> dir @ ''/'' @ rest \<Longrightarrow> keeps (keeps_file path) (clean_act dir)"
  by (auto simp: keeps_def clean_act_def modify_def keeps_file_def files_by_prefix bt_get_files_without bt_ok_files_without)

lemma keeps_file_mark [keeps_intros]: "keeps (keeps_file path) (mark_package_published corpus P)"
  by (auto simp: keeps_def mark_package_published_def keeps_file_def split: prod.splits)

lemma bt_ok_copy_to: "bt_ok fs \<Longrightarrow> bt_ok (copy_to q entries fs)"
  unfolding copy_to_def by (induction entries arbitrary: fs) (simp_all add: bt_ok_insert case_prod_beta)

lemma bt_get_copy_to: "bt_ok fs \<Longrightarrow> \<forall>rest. path \<noteq> q @ rest \<Longrightarrow> bt_get (copy_to q entries fs) path = bt_get fs path"
  unfolding copy_to_def by (induction entries arbitrary: fs) (simp_all add: bt_ok_insert bt_get_insert case_prod_beta)

lemma keeps_file_publish:
  assumes "\<forall>rest. path \<noteq> published_package_dir pub corpus P @ ''/'' @ rest"
    and "\<forall>rest. path \<noteq> with_tmp_suffix (published_package_dir pub corpus P) @ ''/'' @ rest"
  shows "keeps (keeps_file path) (publish_act env pub corpus P dir)"
  unfolding publish_act_def
  by (rule keeps_statement [OF reflp_keeps_file])
    (use assms in \<open>auto simp: keeps_file_def publish_package_def Let_def result_simps files_by_prefix bt_ok_copy_to bt_get_copy_to
      bt_ok_files_without bt_get_files_without split: if_splits\<close>)

lemma add_payload_other:
  assumes "bt_ok fs" "\<forall>t\<in>set ts. path \<noteq> payload_file_path dir (baseline_file_name t)"
  shows "bt_get (add_payload env pr corpus dir ts fs) path = bt_get fs path"
  using assms
proof (induction ts arbitrary: fs)
  case (Cons t ts)
  then show ?case by (simp add: add_payload_def bt_ok_insert bt_get_insert)
qed (simp add: add_payload_def)

lemma keeps_file_copy_all:
  assumes "\<forall>t\<in>set replicated_tables. path \<noteq> payload_file_path dir (baseline_file_name t)"
  shows "keeps (keeps_file path) (copy_all_tables env pr corpus dir counts)"
  unfolding keeps_def
proof
  fix s :: "producer \<times> files"
  obtain pr0 fs where s: "s = (pr0, fs)" by (cases s)
  from copy_all_tables_out [of env pr corpus dir counts pr0 fs] obtain out where
    "copy_all_tables env pr corpus dir counts (pr0, fs) = ((pr0, mo_fs out), Inr out)"
    "mo_fs out = add_payload env pr corpus dir replicated_tables fs" by blast
  then show "keeps_file path s (fst (copy_all_tables env pr corpus dir counts s))"
    using assms by (simp add: s keeps_file_def add_payload_ok add_payload_other)
qed

lemma keeps_file_media:
  assumes "\<forall>t\<in>set replicated_tables. path \<noteq> payload_file_path dir (baseline_file_name t)" "path \<noteq> manifest_path dir"
  shows "keeps (keeps_file path) (build_media_inner env corpus dir params spec hi)"
proof -
  have "keeps (keeps_file path) (statement (\<lambda>(pr, fs). and_then (map_err BuildStorage (insert_package_catalog_row row (pd_catalog pr)))
      (\<lambda>c. Inr ((pr\<lparr>pd_catalog := c\<rparr>, fs), ()))))" for row
    by (rule keeps_statement [OF reflp_keeps_file]) (auto simp: keeps_file_def result_simps)
  moreover have "keeps (keeps_file path) (modify (\<lambda>(pr, fs). (pr, bt_insert (manifest_path dir) content fs)))" for content
    by (rule keeps_file_insert) (use assms(2) in simp)
  ultimately show ?thesis
    unfolding build_media_inner_def seal_media_def Let_def
    by (intro keeps_intros keeps_file_copy_all [OF assms(1)])
qed

section \<open>The layout of the published root\<close>

lemma root_paths:
  assumes "corpus_valid corpus"
  shows "published_manifest_path pub corpus = path_join pub corpus @ ''/manifest.json''"
    "bootstrap_staging pub corpus = path_join pub corpus @ ''/.staging/bootstrap-baseline''"
  using corpus_dir_plain [OF assms, of pub]
  by (simp_all add: published_manifest_path_def bootstrap_staging_def path_join_plain)

lemma root_manifest_apart:
  assumes valid: "corpus_valid corpus" and P: "P = package_id_of corpus a b"
  shows "published_manifest_path pub corpus \<noteq> bootstrap_staging pub corpus @ ''/'' @ rest"
    "published_manifest_path pub corpus \<noteq> published_package_dir pub corpus P @ ''/'' @ rest"
    "published_manifest_path pub corpus \<noteq> with_tmp_suffix (published_package_dir pub corpus P) @ ''/'' @ rest"
    "published_manifest_path pub corpus \<noteq> manifest_path (bootstrap_staging pub corpus)"
    "t \<in> set replicated_tables \<Longrightarrow>
      published_manifest_path pub corpus \<noteq> payload_file_path (bootstrap_staging pub corpus) (baseline_file_name t)"
proof -
  note paths = root_paths [OF valid, of pub] published_path [OF valid P, of pub]
  show "published_manifest_path pub corpus \<noteq> bootstrap_staging pub corpus @ ''/'' @ rest"
    "published_manifest_path pub corpus \<noteq> published_package_dir pub corpus P @ ''/'' @ rest"
    "published_manifest_path pub corpus \<noteq> with_tmp_suffix (published_package_dir pub corpus P) @ ''/'' @ rest"
    by (simp_all add: paths with_tmp_suffix_def)
  show "published_manifest_path pub corpus \<noteq> manifest_path (bootstrap_staging pub corpus)"
    by (simp add: paths manifest_path_def path_join_relative)
  show "published_manifest_path pub corpus \<noteq> payload_file_path (bootstrap_staging pub corpus) (baseline_file_name t)"
    if "t \<in> set replicated_tables"
    using baseline_file_relative [OF that] by (simp add: payload_path) (simp add: paths path_join_relative)
qed

lemma bootstrap_locked_keeps:
  assumes valid: "corpus_valid corpus"
    and run: "bootstrap_locked env corpus pub verifier (bootstrap_staging pub corpus) cfg fault s = Some (s', r)"
  shows "keeps_file (published_manifest_path pub corpus) s s'"
proof -
  let ?mp = "published_manifest_path pub corpus" and ?staging = "bootstrap_staging pub corpus"
  let ?P = "package_id_of corpus (PackageSequence 1) (PackageSequence 1)"
  note apart = root_manifest_apart [OF valid, of ?P "PackageSequence 1" "PackageSequence 1", OF refl, where pub = pub]
  obtain pr fs where s: "s = (pr, fs)" by (cases s)
  have publish: "keeps (keeps_file ?mp) (publish_act be pub corpus ?P ?staging)" for be
    by (rule keeps_file_publish) (use apart in blast)+
  have clean: "keeps (keeps_file ?mp) (clean_act ?staging)" by (rule keeps_file_clean) (use apart in blast)
  show ?thesis
  proof (cases "latest_media_package_for_corpus (pd_catalog pr) corpus")
    case (Some row)
    have "keeps_file ?mp s s'" if P: "ct_package_id row = ?P"
        and "resume_first_baseline (me_build env) corpus pub ?staging row s = (s', r)"
    proof -
      have "keeps (keeps_file ?mp) (resume_first_baseline (me_build env) corpus pub ?staging row)"
        unfolding resume_first_baseline_def recover_artifact_def Let_def P
        by (intro keeps_intros publish clean)
      with that(2) show ?thesis by (metis keepsD)
    qed
    with run Some s show ?thesis
      by (auto simp: bootstrap_locked_def Let_def classify_first_baseline_row_def result_simps keeps_file_def
          split: sum.splits if_splits)
  next
    case None
    have media: "keeps (keeps_file ?mp) (build_media_inner env corpus ?staging params spec hi)" for params spec hi
      by (rule keeps_file_media) (use apart in blast)+
    have first: "keeps (keeps_file ?mp) (publish_first (me_build env) corpus pub ?staging fault report)"
      if "bb_package_id report = ?P" for report
      unfolding publish_first_def that by (intro keeps_intros publish clean)
    have cleaned: "keeps_file ?mp s (pr, clean_dir ?staging fs)"
      using keepsD [OF clean, of s] by (simp add: clean_act_def modify_def s)
    have built: "keeps_file ?mp (pr, clean_dir ?staging fs) s1
        \<and> (case r1 of Inr report \<Rightarrow> bb_package_id report = ?P | Inl _ \<Rightarrow> True)"
      if b: "build_baseline env corpus ?staging (bc_baseline_params cfg) (pr, clean_dir ?staging fs) = Some (s1, r1)" for s1 r1
    proof -
      let ?F = "\<lambda>report. Inr \<lparr>bb_corpus = corpus, bb_package_id = mb_package_id report, bb_generation = mb_generation report,
         bb_baseline_id = bp_baseline_id (bc_baseline_params cfg), bb_artifact_dir = ?staging, bb_total_rows = mb_total_rows report,
         bb_included_change_seq_high = mb_included_change_seq_high report\<rparr>"
      from b obtain r2 where m: "build_media_package env corpus ?staging (bc_baseline_params cfg)
          (baseline_spec corpus (bc_baseline_params cfg)) (pr, clean_dir ?staging fs) = Some (s1, r2)"
        and r2: "r1 = and_then r2 ?F"
        by (auto simp: build_baseline_def)
      then have r1: "\<forall>report. r1 = Inr report \<longrightarrow> (\<exists>rep. r2 = Inr rep \<and> bb_package_id report = mb_package_id rep)"
        by (auto simp: result_simps)
      have "keeps_file ?mp (pr\<lparr>pd_ledger := l\<rparr>, clean_dir ?staging fs) s1 \<Longrightarrow> keeps_file ?mp (pr, clean_dir ?staging fs) s1" for l
        by (simp add: keeps_file_def)
      moreover from m have "s1 = (pr, clean_dir ?staging fs) \<or> (\<exists>l. s1 = (pr\<lparr>pd_ledger := l\<rparr>, clean_dir ?staging fs)) \<or>
          (\<exists>l hi. build_media_inner env corpus ?staging (bc_baseline_params cfg) (baseline_spec corpus (bc_baseline_params cfg)) hi
            (pr\<lparr>pd_ledger := l\<rparr>, clean_dir ?staging fs) = (s1, r2))"
        by (auto simp: build_media_package_def Let_def split: sum.splits option.splits)
      ultimately have "keeps_file ?mp (pr, clean_dir ?staging fs) s1"
        using media by (auto simp: keeps_file_def dest!: keepsD [OF media])
      moreover have "mb_package_id rep = ?P" if "r2 = Inr rep" for rep
        using build_media_id [OF m [unfolded that]] by (simp add: baseline_spec_def Let_def)
      ultimately show ?thesis using r1 by (auto split: sum.splits)
    qed
    from run None s consider "s' = s"
      | s1 e where "build_baseline env corpus ?staging (bc_baseline_params cfg) (pr, clean_dir ?staging fs) = Some (s1, Inl e)" "s' = s1"
      | s1 report where "build_baseline env corpus ?staging (bc_baseline_params cfg) (pr, clean_dir ?staging fs) = Some (s1, Inr report)"
          "publish_first (me_build env) corpus pub ?staging fault report s1 = (s', r)"
      by (auto simp: bootstrap_locked_def Let_def split: sum.splits option.splits)
    then show ?thesis
    proof cases
      case 1
      then show ?thesis by (simp add: keeps_file_def)
    next
      case 2
      with built cleaned show ?thesis by (metis transpD [OF transp_keeps_file])
    next
      case 3
      from built [OF 3(1)] have "keeps_file ?mp (pr, clean_dir ?staging fs) s1" "bb_package_id report = ?P" by simp_all
      with keepsD [OF first 3(2)] cleaned show ?thesis by (metis transpD [OF transp_keeps_file])
    qed
  qed
qed

section \<open>The media row of a corpus\<close>

lemma find_map: "List.find P (map h xs) = map_option h (List.find (\<lambda>x. P (h x)) xs)"
  by (induction xs) auto

lemma insort_key_map: "(\<And>x. f (g x) = f x) \<Longrightarrow> insort_key f (g x) (map g xs) = map g (insort_key f x xs)"
  by (induction xs) auto

lemma sort_key_map: "(\<And>x. f (g x) = f x) \<Longrightarrow> sort_key f (map g xs) = map g (sort_key f xs)"
  by (induction xs) (simp_all add: insort_key_map)

definition publish_row :: "string \<Rightarrow> string \<Rightarrow> package_catalog_row \<Rightarrow> package_catalog_row" where
  "publish_row corpus P r = (if pr_corpus r = corpus \<and> pr_package_id r = P then r\<lparr>pr_status := ''published''\<rparr> else r)"

lemma publish_row_fields [simp]:
  "pr_corpus (publish_row corpus P r) = pr_corpus r" "pr_package_sequence (publish_row corpus P r) = pr_package_sequence r"
  "pr_package_kind (publish_row corpus P r) = pr_package_kind r"
  by (simp_all add: publish_row_def)

lemma corpus_rows_published: "corpus_rows (fst (set_published corpus P catalog)) c = map (publish_row corpus P) (corpus_rows catalog c)"
proof -
  have "fst (set_published corpus P catalog) = map (publish_row corpus P) catalog"
    by (simp add: set_published_def Let_def publish_row_def fun_eq_iff)
  then show ?thesis by (simp add: corpus_rows_def filter_map o_def sort_key_map)
qed

text \<open>The row behind \<open>latest_media_package_for_corpus\<close>.\<close>

definition latest_media_row :: "catalog \<Rightarrow> string \<Rightarrow> package_catalog_row option" where
  "latest_media_row catalog corpus = List.find (\<lambda>r. is_media_kind (pr_package_kind r)) (rev (corpus_rows catalog corpus))"

lemma latest_media_eq: "latest_media_package_for_corpus catalog corpus = map_option catalog_row_of (latest_media_row catalog corpus)"
  by (simp add: latest_media_package_for_corpus_def latest_media_row_def catalog_rows_for_corpus_def rev_map find_map catalog_row_of_def)

lemma latest_media_published:
  "latest_media_row (fst (set_published corpus P catalog)) c = map_option (publish_row corpus P) (latest_media_row catalog c)"
  by (simp add: latest_media_row_def corpus_rows_published rev_map find_map)

lemma latest_media_row_corpus: "latest_media_row catalog corpus = Some r \<Longrightarrow> pr_corpus r = corpus"
  unfolding latest_media_row_def by (drule find_SomeD) (simp add: set_corpus_rows)

lemma latest_media_none:
  "latest_media_row catalog corpus = None \<longleftrightarrow> (\<forall>r\<in>set catalog. pr_corpus r = corpus \<longrightarrow> \<not> is_media_kind (pr_package_kind r))"
  by (auto simp: latest_media_row_def find_None_iff' set_corpus_rows)

lemma latest_media_snoc:
  assumes "latest_media_row catalog corpus = None" "pr_corpus row = corpus" "is_media_kind (pr_package_kind row)"
  shows "latest_media_row (catalog @ [row]) corpus = Some row"
proof (cases "latest_media_row (catalog @ [row]) corpus")
  case None
  with assms(2,3) show ?thesis by (simp add: latest_media_none)
next
  case (Some r)
  then have "r \<in> set (catalog @ [row])" "pr_corpus r = corpus" "is_media_kind (pr_package_kind r)"
    unfolding latest_media_row_def by (auto dest!: find_SomeD simp: set_corpus_rows)
  with assms(1) Some show ?thesis by (auto simp: latest_media_none)
qed

section \<open>What a successful bootstrap has done\<close>

definition first_baseline_done :: "catalog \<Rightarrow> string \<Rightarrow> baseline_params \<Rightarrow> string \<Rightarrow> bool" where
  "first_baseline_done catalog corpus params P \<longleftrightarrow> (\<exists>row. latest_media_package_for_corpus catalog corpus = Some row
     \<and> classify_first_baseline_row row corpus params = Inr () \<and> ct_status row = ''published'' \<and> ct_package_id row = P)"

lemma done_after_mark:
  assumes "latest_media_row catalog corpus = Some row"
    and "classify_first_baseline_row (catalog_row_of row) corpus params = Inr ()" "pr_package_id row = P"
  shows "first_baseline_done (fst (set_published corpus P catalog)) corpus params P"
  using assms latest_media_row_corpus [OF assms(1)]
  by (auto simp: first_baseline_done_def latest_media_eq latest_media_published publish_row_def catalog_row_of_def
      classify_first_baseline_row_def result_simps)

lemma mark_InrD: "mark_package_published corpus P s = (s', Inr u) \<Longrightarrow>
    pd_catalog (fst s') = fst (set_published corpus P (pd_catalog (fst s))) \<and> snd s' = snd s"
  by (cases s) (auto simp: mark_package_published_def split: prod.splits if_splits)

lemma publish_act_catalog: "publish_act env pub corpus P dir s = (s', r) \<Longrightarrow> pd_catalog (fst s') = pd_catalog (fst s)"
  by (cases s) (auto simp: publish_act_eq split: sum.splits)

lemma clean_act_catalog: "clean_act dir s = (s', r) \<Longrightarrow> pd_catalog (fst s') = pd_catalog (fst s)"
  by (cases s) (auto simp: clean_act_def modify_def)

lemma resume_InrD:
  assumes run: "resume_first_baseline env corpus pub staging (catalog_row_of row) s = (s', Inr ident)"
    and row: "latest_media_row (pd_catalog (fst s)) corpus = Some row"
    and canonical: "classify_first_baseline_row (catalog_row_of row) corpus params = Inr ()"
  shows "first_baseline_done (pd_catalog (fst s')) corpus params (bi_package_id ident) \<and> bi_package_id ident = pr_package_id row"
proof -
  have id: "ct_package_id (catalog_row_of row) = pr_package_id row" "ct_status (catalog_row_of row) = pr_status row"
    by (simp_all add: catalog_row_of_def)
  from run obtain s1 s2 u m where recover: "recover_artifact env corpus pub staging (pr_package_id row) s = (s1, Inr ())"
    and mark: "(if pr_status row = ''built'' then mark_package_published corpus (pr_package_id row) else ret ()) s1 = (s2, Inr ())"
    and clean: "clean_act staging s2 = (s', Inr u)" and ident: "ident = identity_of_row (catalog_row_of row) m"
    unfolding resume_first_baseline_def Let_def id by (auto simp: action_simps)
  have cat1: "pd_catalog (fst s1) = pd_catalog (fst s)"
    using recover by (auto simp: recover_artifact_def action_simps dest: publish_act_catalog split: if_splits)
  have cat': "pd_catalog (fst s') = pd_catalog (fst s2)" by (rule clean_act_catalog [OF clean])
  have P: "bi_package_id ident = pr_package_id row" by (simp add: ident identity_of_row_def id)
  show ?thesis
  proof (cases "pr_status row = ''built''")
    case True
    with mark cat1 cat' done_after_mark [OF row canonical refl] P show ?thesis by (auto dest: mark_InrD)
  next
    case False
    then have "pr_status row = ''published''"
      using canonical by (auto simp: classify_first_baseline_row_def result_simps id)
    with False mark cat1 cat' row canonical P show ?thesis
      by (auto simp: first_baseline_done_def latest_media_eq id ret_eq)
  qed
qed

lemma full_build_InrD:
  assumes build: "build_baseline env corpus staging params (pr, fs) = Some ((pr1, fs1), Inr report)"
    and none: "latest_media_row (pd_catalog pr) corpus = None"
  shows "\<exists>row. latest_media_row (pd_catalog pr1) corpus = Some row \<and> pr_package_id row = bb_package_id report
    \<and> classify_first_baseline_row (catalog_row_of row) corpus params = Inr ()"
proof -
  from build obtain rep where m: "build_media_package env corpus staging params (baseline_spec corpus params) (pr, fs)
      = Some ((pr1, fs1), Inr rep)" and id: "bb_package_id report = mb_package_id rep"
    by (auto simp: build_baseline_def result_simps)
  from build_media_package_InrD [OF m] show ?thesis
  proof (elim exE conjE)
    fix hi mf digest c l
    assume ins: "insert_package_catalog_row (media_catalog_row corpus params (baseline_spec corpus params) mf digest hi)
        (pd_catalog pr) = Inr c" (is "insert_package_catalog_row ?row _ = _")
      and pr1: "pr1 = pr\<lparr>pd_ledger := release_outbox_fence l, pd_catalog := c\<rparr>"
    have row: "pr_corpus ?row = corpus" "pr_package_kind ?row = ''baseline''" "pr_package_id ?row = bb_package_id report"
      using build_media_id [OF m] id by (simp_all add: media_catalog_row_def baseline_spec_def Let_def)
    have "c = pd_catalog pr @ [?row]"
      using insert_package_catalog_row_InrD [OF ins] none row by (auto simp: latest_media_none same_identity_def is_media_kind_def)
    then have "latest_media_row (pd_catalog pr1) corpus = Some ?row"
      using latest_media_snoc [OF none, of ?row] row by (simp add: pr1 is_media_kind_def)
    moreover have "classify_first_baseline_row (catalog_row_of ?row) corpus params = Inr ()"
      by (simp add: classify_first_baseline_row_def catalog_row_of_def media_catalog_row_def baseline_spec_def Let_def
          i64_saturating_def i64_max_def)
    ultimately show ?thesis using row(3) by blast
  qed
qed

lemma bootstrap_locked_InrD:
  assumes run: "bootstrap_locked env corpus pub verifier staging cfg fault s = Some (s', Inr ident)"
  shows "first_baseline_done (pd_catalog (fst s')) corpus (bc_baseline_params cfg) (bi_package_id ident)"
proof -
  obtain pr fs where s: "s = (pr, fs)" by (cases s)
  show ?thesis
  proof (cases "latest_media_row (pd_catalog pr) corpus")
    case (Some row)
    with run s have "classify_first_baseline_row (catalog_row_of row) corpus (bc_baseline_params cfg) = Inr ()"
      and "resume_first_baseline (me_build env) corpus pub staging (catalog_row_of row) s = (s', Inr ident)"
      by (auto simp: bootstrap_locked_def Let_def latest_media_eq split: sum.splits if_splits)
    from resume_InrD [OF this(2) _ this(1)] Some s show ?thesis by (metis fst_conv)
  next
    case None
    with run s obtain s1 report where
        b: "build_baseline env corpus staging (bc_baseline_params cfg) (pr, clean_dir staging fs) = Some (s1, Inr report)"
      and first: "publish_first (me_build env) corpus pub staging fault report s1 = (s', Inr ident)"
      by (auto simp: bootstrap_locked_def Let_def latest_media_eq split: sum.splits option.splits)
    obtain pr1 fs1 where s1: "s1 = (pr1, fs1)" by (cases s1)
    from full_build_InrD [OF b [unfolded s1] None] obtain row where
      row: "latest_media_row (pd_catalog (fst s1)) corpus = Some row" "pr_package_id row = bb_package_id report"
        "classify_first_baseline_row (catalog_row_of row) corpus (bc_baseline_params cfg) = Inr ()" by (auto simp: s1)
    from first obtain s2 s3 u where "publish_act (me_build env) pub corpus (bb_package_id report) staging s1 = (s2, Inr ())"
      "mark_package_published corpus (bb_package_id report) s2 = (s3, Inr ())" "clean_act staging s3 = (s', Inr u)"
      and ident: "ident = identity_of_build report"
      by (auto simp: publish_first_def action_simps)
    then have "pd_catalog (fst s') = fst (set_published corpus (bb_package_id report) (pd_catalog (fst s1)))"
      by (auto dest!: publish_act_catalog clean_act_catalog mark_InrD)
    with done_after_mark [OF row(1,3,2)] show ?thesis by (simp add: ident identity_of_build_def)
  qed
qed

section \<open>Only a verified manifest is published\<close>

lemma publish_verified_cases:
  assumes run: "publish_verified env corpus pub verifier cfg fault ident (pr, fs) = ((pr', fs'), r)"
  shows "pr' = pr \<and> (fs' = fs \<and> \<not> is_ok r \<or>
    fault \<noteq> BeforeManifestRename \<and> (\<exists>doc. fs' = publish_remote_manifest (me_build env) pub corpus doc fs
      \<and> is_ok (verify_signed_remote_manifest (me_build env) fs pub corpus (mp_uri_base (bc_remote_manifest_params cfg)) doc verifier)))"
  using run
  by (auto simp: publish_verified_def Let_def bind_act_def check_act_def lift_res_def ret_def fail_def modify_def gets_def is_ok_iff result_simps
      split: sum.splits if_splits prod.splits)

lemma publish_verified_InrD:
  assumes run: "publish_verified env corpus pub verifier cfg fault ident (pr, fs) = ((pr', fs'), Inr rep)"
  shows "pr' = pr \<and> bf_package_id rep = bi_package_id ident
    \<and> (\<exists>verified. verify_published_root env fs' pub corpus (mp_uri_base (bc_remote_manifest_params cfg)) verifier = Inr verified
       \<and> pv_artifacts_checked verified = bf_artifacts_verified rep)"
  using run
  by (cases "published_head pr corpus") (auto simp: publish_verified_def Let_def action_simps ret_eq)

lemma bootstrap_refuses_second:
  assumes "first_baseline_done (pd_catalog pr) corpus (bc_baseline_params cfg) P"
    and "is_ok (verify_published_root env fs pub corpus (mp_uri_base (bc_remote_manifest_params cfg)) verifier)"
  shows "bootstrap_first_baseline_faulted env corpus pub verifier cfg fault (pr, fs) = Some ((pr, fs), Inl generations_error)"
  using assms by (auto simp: bootstrap_first_baseline_faulted_def bootstrap_locked_def Let_def first_baseline_done_def)

text \<open>
  C8.  A first baseline is served only after it was verified, whatever happened before and wherever a crash is
  injected.  Take any run of the bootstrap of a valid corpus, on any catalog and any files.  Either the manifest the
  clients poll is exactly what it was and the run reports an error, or the run was not the one that crashes before the
  rename and it wrote a manifest that, on the files at that moment, passed the public-key check of its own signature,
  its corpus and every artifact it references.  When the run succeeds, the served root passes the
  check clients make, over exactly the artifacts the report counts, the catalog holds the canonical first baseline as
  a published row, and every further run, faulted or not, is refused and changes nothing.
\<close>
theorem bootstrap_publishes_only_verified:
  assumes valid: "corpus_valid corpus" and ok: "bt_ok fs"
    and run: "bootstrap_first_baseline_faulted env corpus pub verifier cfg fault (pr, fs) = Some ((pr', fs'), r)"
  shows "((bt_get fs' (published_manifest_path pub corpus) = bt_get fs (published_manifest_path pub corpus) \<and> \<not> is_ok r)
      \<or> (fault \<noteq> BeforeManifestRename \<and> (\<exists>doc fs1. fs' = publish_remote_manifest (me_build env) pub corpus doc fs1
          \<and> bt_get fs1 (published_manifest_path pub corpus) = bt_get fs (published_manifest_path pub corpus)
          \<and> is_ok (verify_signed_remote_manifest (me_build env) fs1 pub corpus
              (mp_uri_base (bc_remote_manifest_params cfg)) doc verifier))))
    \<and> (\<forall>rep. r = Inr rep \<longrightarrow>
      (\<exists>verified. verify_published_root env fs' pub corpus (mp_uri_base (bc_remote_manifest_params cfg)) verifier = Inr verified
        \<and> pv_artifacts_checked verified = bf_artifacts_verified rep)
      \<and> first_baseline_done (pd_catalog pr') corpus (bc_baseline_params cfg) (bf_package_id rep)
      \<and> (\<forall>fault'. bootstrap_first_baseline_faulted env corpus pub verifier cfg fault' (pr', fs')
          = Some ((pr', fs'), Inl generations_error)))"
proof -
  let ?mp = "published_manifest_path pub corpus"
  from run obtain s1 r1 where locked: "bootstrap_locked env corpus pub verifier (bootstrap_staging pub corpus) cfg fault (pr, fs)
      = Some (s1, r1)"
    and rest: "(\<exists>e. r1 = Inl e \<and> s1 = (pr', fs') \<and> r = Inl e) \<or>
      (\<exists>ident. r1 = Inr ident \<and> publish_verified env corpus pub verifier cfg fault ident s1 = ((pr', fs'), r))"
    by (auto simp: bootstrap_first_baseline_faulted_def split: option.splits sum.splits)
  obtain pr1 fs1 where s1: "s1 = (pr1, fs1)" by (cases s1)
  have same: "bt_get fs1 ?mp = bt_get fs ?mp"
    using bootstrap_locked_keeps [OF valid locked] ok by (simp add: keeps_file_def s1)
  have "(bt_get fs' ?mp = bt_get fs ?mp \<and> \<not> is_ok r)
      \<or> (fault \<noteq> BeforeManifestRename \<and> (\<exists>doc fs1. fs' = publish_remote_manifest (me_build env) pub corpus doc fs1
          \<and> bt_get fs1 ?mp = bt_get fs ?mp
          \<and> is_ok (verify_signed_remote_manifest (me_build env) fs1 pub corpus
              (mp_uri_base (bc_remote_manifest_params cfg)) doc verifier)))"
    using rest
  proof (elim disjE exE conjE)
    fix e
    assume "s1 = (pr', fs')" "r = Inl e"
    with same show ?thesis by (simp add: s1 is_ok_iff)
  next
    fix ident
    assume "publish_verified env corpus pub verifier cfg fault ident s1 = ((pr', fs'), r)"
    from publish_verified_cases [OF this [unfolded s1]] same show ?thesis by blast
  qed
  moreover have "(\<exists>verified. verify_published_root env fs' pub corpus (mp_uri_base (bc_remote_manifest_params cfg)) verifier = Inr verified
        \<and> pv_artifacts_checked verified = bf_artifacts_verified rep)
      \<and> first_baseline_done (pd_catalog pr') corpus (bc_baseline_params cfg) (bf_package_id rep)
      \<and> (\<forall>fault'. bootstrap_first_baseline_faulted env corpus pub verifier cfg fault' (pr', fs')
          = Some ((pr', fs'), Inl generations_error))" if r: "r = Inr rep" for rep
  proof -
    from r rest obtain ident where "r1 = Inr ident"
      and pub: "publish_verified env corpus pub verifier cfg fault ident (pr1, fs1) = ((pr', fs'), Inr rep)"
      by (auto simp: s1)
    with bootstrap_locked_InrD [of env corpus pub verifier _ cfg fault "(pr, fs)" s1 ident] locked s1
    have "first_baseline_done (pd_catalog pr1) corpus (bc_baseline_params cfg) (bi_package_id ident)" by simp
    with publish_verified_InrD [OF pub]
    have d: "first_baseline_done (pd_catalog pr') corpus (bc_baseline_params cfg) (bf_package_id rep)"
      and v: "\<exists>verified. verify_published_root env fs' pub corpus (mp_uri_base (bc_remote_manifest_params cfg)) verifier = Inr verified
         \<and> pv_artifacts_checked verified = bf_artifacts_verified rep" by simp_all
    from v have "is_ok (verify_published_root env fs' pub corpus (mp_uri_base (bc_remote_manifest_params cfg)) verifier)"
      by (auto simp: is_ok_iff)
    with d v bootstrap_refuses_second [OF d] show ?thesis by blast
  qed
  ultimately show ?thesis by blast
qed

section \<open>A small bootstrap, resumed\<close>

definition sample_first :: embedded_manifest where
  "sample_first = (let m = sample_artifact Baseline ''core-1-1'' 1 1 in
     m\<lparr>em_identity := (em_identity m)\<lparr>id_generation := ''core_g0001'', id_baseline_id := ''b2''\<rparr>\<rparr>)"

definition sample_first_build_env :: build_env where
  "sample_first_build_env = sample_build_env\<lparr>be_parse_manifest :=
     (\<lambda>bytes. Some \<lparr>sd_payload = sample_first, sd_signature = sample_signature\<rparr>)\<rparr>"

text \<open>The process died after publishing the package, before marking its row.\<close>

definition sample_first_producer :: producer where
  "sample_first_producer = sample_producer\<lparr>pd_catalog := [sample_catalog_row ''built'' sample_first]\<rparr>"

definition sample_first_files :: files where
  "sample_first_files = [(''/srv/core/packages/core-1-1/manifest.json'', ''core-1-1'')]"

definition sample_first_env :: media_env where
  "sample_first_env = sample_open_env\<lparr>me_build := sample_first_build_env, me_parse_remote := (\<lambda>bytes.
     case build_remote_manifest sample_first_build_env sample_first_files [sample_catalog_row ''published'' sample_first]
       ''core'' ''/srv'' sample_remote_params of Inl e \<Rightarrow> None | Inr doc \<Rightarrow> Some doc)\<rparr>"

definition sample_bootstrap :: "((producer \<times> files) \<times> (bootstrap_baseline_report, build_error) result) option" where
  "sample_bootstrap = bootstrap_first_baseline_faulted sample_first_env ''core'' ''/srv'' accept_all_verify_bytes
     \<lparr>bc_baseline_params = sample_baseline_params, bc_remote_manifest_params = sample_remote_params\<rparr> NoBootstrapFault
     (sample_first_producer, sample_first_files)"

definition bootstrap_outcome :: "((producer \<times> files) \<times> (bootstrap_baseline_report, build_error) result) option \<Rightarrow> (string \<times> nat) option" where
  "bootstrap_outcome out = (case out of Some (_, Inr rep) \<Rightarrow> Some (bf_package_id rep, bf_artifacts_verified rep) | _ \<Rightarrow> None)"

lemma sample_bootstrap_outcome: "bootstrap_outcome sample_bootstrap = Some (''core-1-1'', 1)"
  by code_simp

theorem bootstrap_publishes_only_verified_witness:
  "\<exists>pr fs rep verified. bootstrap_first_baseline_faulted sample_first_env ''core'' ''/srv'' accept_all_verify_bytes
     \<lparr>bc_baseline_params = sample_baseline_params, bc_remote_manifest_params = sample_remote_params\<rparr> NoBootstrapFault
     (sample_first_producer, sample_first_files) = Some ((pr, fs), Inr rep)
   \<and> verify_published_root sample_first_env fs ''/srv'' ''core'' ''media://'' accept_all_verify_bytes = Inr verified
   \<and> pv_artifacts_checked verified = 1
   \<and> first_baseline_done (pd_catalog pr) ''core'' sample_baseline_params ''core-1-1''
   \<and> bootstrap_first_baseline_faulted sample_first_env ''core'' ''/srv'' accept_all_verify_bytes
     \<lparr>bc_baseline_params = sample_baseline_params, bc_remote_manifest_params = sample_remote_params\<rparr> NoBootstrapFault
     (pr, fs) = Some ((pr, fs), Inl generations_error)"
proof -
  from sample_bootstrap_outcome obtain pr fs rep where run: "sample_bootstrap = Some ((pr, fs), Inr rep)"
    and rep: "bf_package_id rep = ''core-1-1''" "bf_artifacts_verified rep = 1"
    by (auto simp: bootstrap_outcome_def split: option.splits sum.splits)
  have "corpus_valid ''core''" "bt_ok sample_first_files" by code_simp+
  from bootstrap_publishes_only_verified [OF this run [unfolded sample_bootstrap_def]] rep
  show ?thesis unfolding run [unfolded sample_bootstrap_def] by (auto simp: sample_remote_params_def)
qed

end
